(* ===== verification/Kernel_Prelude.thy ===== *)
theory Kernel_Prelude
  imports Main "HOL-Library.Word"
begin

text \<open>
  Shared vocabulary of the development: the machine integers of the 32-bit ARM kernel
  the scheduler is built for, error numbers, the intrusive lists of
  \<^verbatim>\<open><linux/list.h>\<close>, and the generic lemmas the component theories use.

  An intrusive list is modelled by the HOL list of its entries in the order of their
  \<^verbatim>\<open>next\<close> pointers; the list head itself is not an entry. An entry that is in
  no list is linked to itself, which is what \<^verbatim>\<open>INIT_LIST_HEAD\<close> and
  \<^verbatim>\<open>list_del_init\<close> establish. The neighbours of an entry are either another
  entry or the list head (\<open>list_next\<close>, \<open>list_prev\<close>).
\<close>

unbundle bit_operations_syntax

section \<open>Machine integers, error numbers\<close>

type_synonym u8 = "8 word"
type_synonym u16 = "16 word"
type_synonym u32 = "32 word"
type_synonym u64 = "64 word"

text \<open>\<open>unsigned long\<close> of the 32-bit kernels modelled here.\<close>

type_synonym ulong = "32 word"

text \<open>Task structures are named by a number in place of their address.\<close>

type_synonym tid = nat

datatype errno =
  EPERM | ENOENT | ESRCH | EINTR | EIO | ENXIO | EAGAIN | ENOMEM | EACCES | EFAULT
| EBUSY | EINVAL | ENAMETOOLONG | ERESTARTSYS | ERESTARTNOINTR

text \<open>A kernel call that returns \<open>0\<close> or \<open>-errno\<close>, with its effect on the state.\<close>

type_synonym 's status = "(errno + unit) \<times> 's"

section \<open>Fact collections\<close>

named_theorems kstate_simps \<open>unfolding rules of the state accessors and updaters\<close>
named_theorems klist_simps \<open>facts on the kernel list operations\<close>
named_theorems kinv_intros \<open>introduction rules for component invariants\<close>

section \<open>Kernel lists\<close>

datatype 'a link = ListHead | Entry 'a

definition list_add :: "'a \<Rightarrow> 'a list \<Rightarrow> 'a list" where
  "list_add x q = x # q"

definition list_add_tail :: "'a \<Rightarrow> 'a list \<Rightarrow> 'a list" where
  "list_add_tail x q = q @ [x]"

definition list_del_init :: "'a \<Rightarrow> 'a list \<Rightarrow> 'a list" where
  "list_del_init x q = remove1 x q"

definition list_move :: "'a \<Rightarrow> 'a list \<Rightarrow> 'a list" where
  "list_move x q = list_add x (list_del_init x q)"

definition list_move_tail :: "'a \<Rightarrow> 'a list \<Rightarrow> 'a list" where
  "list_move_tail x q = list_add_tail x (list_del_init x q)"

fun list_next :: "'a \<Rightarrow> 'a list \<Rightarrow> 'a link" where
  "list_next x [] = Entry x"
| "list_next x (y # ys) =
     (if x = y then (case ys of [] \<Rightarrow> ListHead | z # zs \<Rightarrow> Entry z) else list_next x ys)"

definition list_prev :: "'a \<Rightarrow> 'a list \<Rightarrow> 'a link" where
  "list_prev x q = list_next x (rev q)"

lemmas klist_defs = list_add_def list_add_tail_def list_del_init_def list_move_def
  list_move_tail_def

lemma list_next_notin: "x \<notin> set q \<Longrightarrow> list_next x q = Entry x"
  by (induction q) auto

lemma list_next_split:
  "x \<notin> set as \<Longrightarrow>
    list_next x (as @ x # bs) = (case bs of [] \<Rightarrow> ListHead | z # zs \<Rightarrow> Entry z)"
  by (induction as) auto

lemma list_prev_notin: "x \<notin> set q \<Longrightarrow> list_prev x q = Entry x"
  by (simp add: list_prev_def list_next_notin)

lemma list_prev_split:
  assumes "x \<notin> set bs"
  shows "list_prev x (as @ x # bs) = (if as = [] then ListHead else Entry (last as))"
proof (cases as rule: rev_cases)
  case Nil
  then show ?thesis using assms by (simp add: list_prev_def list_next_split)
next
  case (snoc cs z)
  then show ?thesis using assms by (simp add: list_prev_def list_next_split)
qed

text \<open>
  The test \<open>prev \<noteq> next\<close> the schedulers use: it holds exactly when the entry is on
  a list together with at least one other entry.
\<close>

lemma list_prev_neq_next_iff [klist_simps]:
  assumes "distinct q"
  shows "list_prev x q \<noteq> list_next x q \<longleftrightarrow> x \<in> set q \<and> 2 \<le> length q"
proof (cases "x \<in> set q")
  case False
  then show ?thesis by (simp add: list_prev_notin list_next_notin)
next
  case True
  then obtain as bs where q: "q = as @ x # bs" by (meson split_list)
  with assms have x: "x \<notin> set as" "x \<notin> set bs" by auto
  have "last as \<noteq> hd bs" if "as \<noteq> []" "bs \<noteq> []"
  proof -
    from that have "last as \<in> set as" "hd bs \<in> set bs" by simp_all
    with assms q show ?thesis by auto
  qed
  then show ?thesis using x unfolding q
    by (cases bs) (auto simp: list_prev_split list_next_split Suc_le_eq)
qed

lemma set_list_del_init [klist_simps]:
  "distinct q \<Longrightarrow> set (list_del_init x q) = set q - {x}"
  by (simp add: list_del_init_def)

lemma distinct_list_del_init [klist_simps]:
  "distinct q \<Longrightarrow> distinct (list_del_init x q)"
  by (simp add: list_del_init_def)

lemma length_list_del_init [klist_simps]:
  "x \<in> set q \<Longrightarrow> length (list_del_init x q) = length q - 1"
  by (simp add: list_del_init_def length_remove1)

lemma list_move_tail_hd [klist_simps]: "list_move_tail x (x # q) = q @ [x]"
  by (simp add: klist_defs)

lemma list_move_hd [klist_simps]: "list_move x (x # q) = x # q"
  by (simp add: klist_defs)

lemma mset_eq_sum_list:
  fixes f :: "'a \<Rightarrow> 'b::comm_monoid_add"
  assumes "distinct xs" "distinct ys" "set xs = set ys"
  shows "sum_list (map f xs) = sum_list (map f ys)"
proof -
  have "sum_list (map f xs) = sum f (set xs)" using assms(1) by (simp add: sum_list_distinct_conv_sum_set)
  also have "\<dots> = sum_list (map f ys)" using assms(2,3) by (simp add: sum_list_distinct_conv_sum_set)
  finally show ?thesis .
qed

lemma sum_list_remove1:
  fixes f :: "'a \<Rightarrow> 'b::ab_group_add"
  assumes "x \<in> set xs"
  shows "sum_list (map f (remove1 x xs)) = sum_list (map f xs) - f x"
  using assms by (induction xs) (auto simp: algebra_simps)

lemma set_list_move_tail [klist_simps]:
  "distinct q \<Longrightarrow> set (list_move_tail x q) = insert x (set q)"
  by (auto simp: klist_defs)

lemma set_list_move [klist_simps]:
  "distinct q \<Longrightarrow> set (list_move x q) = insert x (set q)"
  by (auto simp: klist_defs)

lemma distinct_list_move_tail [klist_simps]:
  "distinct q \<Longrightarrow> distinct (list_move_tail x q)"
  by (simp add: klist_defs)

lemma distinct_list_move [klist_simps]:
  "distinct q \<Longrightarrow> distinct (list_move x q)"
  by (simp add: klist_defs)

lemma length_list_move_tail [klist_simps]:
  "x \<in> set q \<Longrightarrow> length (list_move_tail x q) = length q"
  using length_pos_if_in_set [of x q] by (simp add: klist_defs length_remove1)

lemma length_list_move [klist_simps]:
  "x \<in> set q \<Longrightarrow> length (list_move x q) = length q"
  using length_pos_if_in_set [of x q] by (simp add: klist_defs length_remove1)

section \<open>Words\<close>

lemma of_nat_eq_0_iff_small:
  "n < 2 ^ LENGTH('a) \<Longrightarrow> (of_nat n :: 'a::len word) = 0 \<longleftrightarrow> n = 0"
  by (auto simp: word_of_nat_eq_0_iff dest: nat_dvd_not_less)

lemma word_pred_eq_0_iff: "(w :: 'a::len word) - 1 = 0 \<longleftrightarrow> w = 1"
  by simp

lemma unat_pred: "(w :: 'a::len word) \<noteq> 0 \<Longrightarrow> unat (w - 1) = unat w - 1"
  by (rule unat_minus_one)

lemma sint_of_int_small:
  "- (2 ^ 31) \<le> k \<Longrightarrow> k < 2 ^ 31 \<Longrightarrow> sint (of_int k :: ulong) = k"
  by (simp add: sint_sbintrunc' signed_take_bit_int_eq_self)

end
