(* ===== verification/Sched_Types.thy ===== *)
theory Sched_Types
  imports Kernel_Prelude
begin

text \<open>
  The data of the Android scheduler (\<^verbatim>\<open>scheduler/linux/sched.h\<close>,
  \<^verbatim>\<open>scheduler/sched/sched.h\<close>) and the small helpers of those headers and of
  \<^verbatim>\<open>sched/core.c\<close> that every scheduling class calls.

  The configuration is the one of \<^verbatim>\<open>arch/goldfish_armv7_defconfig\<close>: one
  processor (no \<^verbatim>\<open>CONFIG_SMP\<close>), \<^verbatim>\<open>CONFIG_CGROUP_SCHED\<close>,
  \<^verbatim>\<open>CONFIG_RT_GROUP_SCHED\<close>, \<^verbatim>\<open>CONFIG_CGROUP_CPUACCT\<close> and
  \<^verbatim>\<open>CONFIG_SCHEDSTATS\<close>. There is therefore one run queue; it is the field
  \<open>rq\<close> of the system state \<open>ksys\<close>, whose other fields are the task structures, the
  group run queues of the real-time class and the global variables of
  \<^verbatim>\<open>core.c\<close>. A structure keeps the fields some modelled function reads or
  writes. Calls into kernel code that is not part of the repository and that return
  nothing are recorded in order in the field \<open>events\<close>; the values such code returns
  come from the record \<open>kenv\<close>, an argument of the functions that use it. Spin
  locks, memory barriers and \<^verbatim>\<open>printk\<close> have no counterpart.

  A task group and a control group is named by its path from the root of its hierarchy:
  the root is \<open>[]\<close>, and the parent of a group is \<open>butlast\<close> of its path.
\<close>

section \<open>Constants\<close>

definition SCHED_NORMAL :: int where "SCHED_NORMAL = 0"
definition SCHED_FIFO :: int where "SCHED_FIFO = 1"
definition SCHED_RR :: int where "SCHED_RR = 2"
definition SCHED_BATCH :: int where "SCHED_BATCH = 3"
definition SCHED_IDLE :: int where "SCHED_IDLE = 5"
definition SCHED_WRR :: int where "SCHED_WRR = 6"

lemmas policy_defs = SCHED_NORMAL_def SCHED_FIFO_def SCHED_RR_def SCHED_BATCH_def
  SCHED_IDLE_def SCHED_WRR_def

definition MAX_USER_RT_PRIO :: int where "MAX_USER_RT_PRIO = 100"
definition MAX_RT_PRIO :: int where "MAX_RT_PRIO = MAX_USER_RT_PRIO"
definition MAX_PRIO :: int where "MAX_PRIO = MAX_RT_PRIO + 40"

lemmas prio_defs = MAX_USER_RT_PRIO_def MAX_RT_PRIO_def MAX_PRIO_def

definition TASK_RUNNING :: ulong where "TASK_RUNNING = 0"
definition TASK_INTERRUPTIBLE :: ulong where "TASK_INTERRUPTIBLE = 1"
definition TASK_UNINTERRUPTIBLE :: ulong where "TASK_UNINTERRUPTIBLE = 2"
definition TASK_DEAD :: ulong where "TASK_DEAD = 64"
definition TASK_WAKEKILL :: ulong where "TASK_WAKEKILL = 128"
definition TASK_KILLABLE :: ulong where "TASK_KILLABLE = (TASK_WAKEKILL OR TASK_UNINTERRUPTIBLE)"
definition TASK_NORMAL :: ulong where
  "TASK_NORMAL = (TASK_INTERRUPTIBLE OR TASK_UNINTERRUPTIBLE)"

lemmas task_state_defs = TASK_RUNNING_def TASK_INTERRUPTIBLE_def TASK_UNINTERRUPTIBLE_def
  TASK_DEAD_def TASK_WAKEKILL_def TASK_KILLABLE_def TASK_NORMAL_def

definition ENQUEUE_WAKEUP :: u32 where "ENQUEUE_WAKEUP = 1"
definition ENQUEUE_HEAD :: u32 where "ENQUEUE_HEAD = 2"
definition DEQUEUE_SLEEP :: u32 where "DEQUEUE_SLEEP = 1"

text \<open>\<^verbatim>\<open>RUNTIME_INF\<close> is \<^verbatim>\<open>(u64)~0ULL\<close>.\<close>

definition RUNTIME_INF :: u64 where "RUNTIME_INF = NOT 0"

section \<open>Structures\<close>

type_synonym tgid = "nat list"
type_synonym cgrp = "nat list"

datatype sched_class_id =
  stop_sched_class | rt_sched_class | wrr_sched_class | fair_sched_class | idle_sched_class

record load_weight =
  lw_weight :: ulong
  lw_inv_weight :: ulong

record sched_entity =
  se_load :: load_weight
  se_on_rq :: bool
  exec_start :: u64
  sum_exec_runtime :: u64
  vruntime :: u64
  prev_sum_exec_runtime :: u64
  nr_migrations :: u64
  exec_max :: u64
  nr_wakeups :: u64
  nr_wakeups_sync :: u64

record sched_rt_entity =
  rt_timeout :: ulong
  rt_time_slice :: u32
  rt_nr_cpus_allowed :: int
  rt_parent :: "tgid option"
  rt_rq_of :: tgid

record sched_wrr_entity =
  weight :: u32
  time_slice :: u32

record task_struct =
  pid :: int
  t_state :: ulong
  t_flags :: u32
  on_rq :: bool
  prio :: int
  static_prio :: int
  normal_prio :: int
  rt_priority :: int
  sched_class :: sched_class_id
  se :: sched_entity
  rt :: sched_rt_entity
  wrr :: sched_wrr_entity
  sched_task_group :: tgid
  policy :: int
  sched_reset_on_fork :: bool
  need_resched :: bool
  t_mm :: "nat option"
  active_mm :: "nat option"
  nvcsw :: ulong
  nivcsw :: ulong
  in_iowait :: bool
  sched_exp :: u64

record wrr_rq =
  queue :: "tid list"
  wrr_nr_running :: ulong
  total_weight :: ulong

text \<open>A schedulable entity of the real-time class: a task or a group.\<close>

datatype rt_ent = RtTask tid | RtGroup tgid

record rt_rq =
  rt_queue :: "nat \<Rightarrow> rt_ent list"
  rt_bitmap :: "nat \<Rightarrow> bool"
  rt_nr_running :: ulong
  highest_prio :: int
  rt_throttled :: bool
  rt_time :: u64
  rt_runtime :: u64
  rt_nr_boosted :: ulong

record rt_bandwidth =
  rt_period :: u64
  rtb_runtime :: u64
  rt_timer_active :: bool

record rq =
  nr_running :: ulong
  cpu_load :: "ulong list"
  last_load_update_tick :: ulong
  skip_clock_update :: int
  rq_load :: load_weight
  nr_load_updates :: ulong
  nr_switches :: u64
  cfs_h_nr_running :: ulong
  wrr_rq_of :: wrr_rq
  leaf_rt_rq_list :: "tgid list"
  nr_uninterruptible :: ulong
  curr :: tid
  idle :: tid
  stop :: "tid option"
  prev_mm :: "nat option"
  rq_clock :: u64
  clock_task :: u64
  nr_iowait :: int
  calc_load_update_rq :: ulong
  calc_load_active :: ulong
  yld_count :: u32
  sched_count :: u32
  ttwu_count :: u32

datatype kevent =
  AccountGroupExecRuntime tid u64
| SchedInfoQueued tid
| SchedInfoDequeued tid
| SchedInfoSwitch tid tid
| SwitchMm "nat option" "nat option" tid
| EnterLazyTlb "nat option" tid
| MmGrab "nat option"
| MmDrop nat
| SwitchTo tid tid
| PutTaskStruct tid
| WqWorkerWakingUp tid
| RtMutexAdjustPi tid
| PerfEventTaskTick
| SchedClockTick
| HrtimerStart tgid u64
| HrtimerCancel tgid
| PerfEventTaskSched tid tid
| KprobeFlushTask tid
| BlkFlushPlug tid
| DelayacctBlkio bool

record ksys =
  task :: "tid \<Rightarrow> task_struct"
  rq :: rq
  rt_rqs :: "tgid \<Rightarrow> rt_rq"
  rt_bws :: "tgid \<Rightarrow> rt_bandwidth"
  cpuusage :: "cgrp \<Rightarrow> u64"
  jiffies :: ulong
  sclock :: u64
  sysctl_sched_rt_period :: int
  sysctl_sched_rt_runtime :: int
  calc_load_tasks :: ulong
  calc_load_update :: ulong
  avenrun :: "ulong list"
  calc_load_idle :: "ulong list"
  calc_load_idx :: u32
  events :: "kevent list"

text \<open>
  What the scheduler reads from code outside the repository: the timer frequency, the
  two path functions (each gets the buffer and returns its result and the buffer), the
  control group of a task group, the unspecified initial content of a stack buffer, the
  address \<^verbatim>\<open>container_of\<close> computes from the head of the WRR list, and the
  accounting group of a task; the bit search of the architecture, resource limits,
  capabilities, credentials and security hooks, pending signals, the priority a task
  inherits through real-time mutexes, the process table, the work queue's choice of a
  worker to wake, whether a task waits for a real-time mutex or has plugged block requests,
  whether its preemption count has \<^verbatim>\<open>PREEMPT_ACTIVE\<close> set (which does not change while
  the task is switched out), and which task groups are autogroups.
\<close>

datatype rlimit_resource = RLIMIT_NICE | RLIMIT_RTPRIO | RLIMIT_RTTIME

record cred =
  user_ns :: nat
  uid :: nat
  euid :: nat

record kenv =
  HZ :: nat
  autogroup_path :: "tgid \<Rightarrow> string \<Rightarrow> nat \<times> string"
  cgroup_path :: "cgrp option \<Rightarrow> string \<Rightarrow> int \<times> string"
  css_cgroup :: "tgid \<Rightarrow> cgrp option"
  stack_buf :: string
  wrr_head_entry :: tid
  cpuacct_active :: bool
  task_ca :: "tid \<Rightarrow> cgrp option"
  sched_find_first_bit :: "(nat \<Rightarrow> bool) \<Rightarrow> nat"
  rlim_cur :: "rlimit_resource \<Rightarrow> tid \<Rightarrow> ulong"
  rlim_max :: "rlimit_resource \<Rightarrow> tid \<Rightarrow> ulong"
  capable_sys_nice :: bool
  task_cred :: "tid \<Rightarrow> cred"
  security_task_setscheduler :: "tid \<Rightarrow> errno + unit"
  security_task_getscheduler :: "tid \<Rightarrow> errno + unit"
  security_task_setnice :: "tid \<Rightarrow> int \<Rightarrow> errno + unit"
  signal_pending :: "tid \<Rightarrow> bool"
  fatal_signal_pending :: "tid \<Rightarrow> bool"
  rt_mutex_getprio :: "tid \<Rightarrow> int \<Rightarrow> int"
  find_task_by_vpid :: "int \<Rightarrow> tid option"
  wq_worker_sleeping :: "tid \<Rightarrow> tid option"
  pi_blocked :: "tid \<Rightarrow> bool"
  blk_needs_flush_plug :: "tid \<Rightarrow> bool"
  preempt_active :: "tid \<Rightarrow> bool"
  task_group_is_autogroup :: "tgid \<Rightarrow> bool"

text \<open>
  \<^verbatim>\<open>struct sched_class\<close>: the operations of a scheduling class, over a state
  \<open>'s\<close>. A member the core tests for \<^verbatim>\<open>NULL\<close> is an option. An interval of
  \<open>None\<close> stands for a function that ends without returning a value, a pick of
  \<open>None\<close> for one that hits a \<^verbatim>\<open>BUG_ON\<close> or does not end.
\<close>

record 's sched_class_ops =
  cls_next :: "sched_class_id option"
  enqueue_task_op :: "tid \<Rightarrow> u32 \<Rightarrow> 's \<Rightarrow> 's"
  dequeue_task_op :: "tid \<Rightarrow> u32 \<Rightarrow> 's \<Rightarrow> 's"
  yield_task_op :: "'s \<Rightarrow> 's"
  check_preempt_curr_op :: "tid \<Rightarrow> u32 \<Rightarrow> 's \<Rightarrow> 's"
  pick_next_task_op :: "'s \<Rightarrow> (tid option \<times> 's) option"
  put_prev_task_op :: "tid \<Rightarrow> 's \<Rightarrow> 's"
  set_curr_task_op :: "'s \<Rightarrow> 's"
  task_tick_op :: "tid \<Rightarrow> 's \<Rightarrow> 's"
  task_fork_op :: "(tid \<Rightarrow> 's \<Rightarrow> 's) option"
  switched_from_op :: "(tid \<Rightarrow> 's \<Rightarrow> 's) option"
  switched_to_op :: "tid \<Rightarrow> 's \<Rightarrow> 's"
  prio_changed_op :: "tid \<Rightarrow> int \<Rightarrow> 's \<Rightarrow> 's"
  get_rr_interval_op :: "tid \<Rightarrow> 's \<Rightarrow> u32 option"

section \<open>Access to the state\<close>

definition upd_task ::
  "tid \<Rightarrow> (task_struct \<Rightarrow> task_struct) \<Rightarrow> 'a ksys_scheme \<Rightarrow> 'a ksys_scheme" where
  "upd_task p f s = s\<lparr>task := (task s)(p := f (task s p))\<rparr>"

definition upd_rq :: "(rq \<Rightarrow> rq) \<Rightarrow> 'a ksys_scheme \<Rightarrow> 'a ksys_scheme" where
  "upd_rq f s = s\<lparr>rq := f (rq s)\<rparr>"

definition upd_wrr_rq :: "(wrr_rq \<Rightarrow> wrr_rq) \<Rightarrow> 'a ksys_scheme \<Rightarrow> 'a ksys_scheme" where
  "upd_wrr_rq f = upd_rq (\<lambda>r. r\<lparr>wrr_rq_of := f (wrr_rq_of r)\<rparr>)"

definition upd_wrr_se ::
  "tid \<Rightarrow> (sched_wrr_entity \<Rightarrow> sched_wrr_entity) \<Rightarrow> 'a ksys_scheme \<Rightarrow> 'a ksys_scheme" where
  "upd_wrr_se p f = upd_task p (\<lambda>t. t\<lparr>wrr := f (wrr t)\<rparr>)"

definition upd_rt_se ::
  "tid \<Rightarrow> (sched_rt_entity \<Rightarrow> sched_rt_entity) \<Rightarrow> 'a ksys_scheme \<Rightarrow> 'a ksys_scheme" where
  "upd_rt_se p f = upd_task p (\<lambda>t. t\<lparr>rt := f (rt t)\<rparr>)"

definition upd_se ::
  "tid \<Rightarrow> (sched_entity \<Rightarrow> sched_entity) \<Rightarrow> 'a ksys_scheme \<Rightarrow> 'a ksys_scheme" where
  "upd_se p f = upd_task p (\<lambda>t. t\<lparr>se := f (se t)\<rparr>)"

definition upd_rt_rq ::
  "tgid \<Rightarrow> (rt_rq \<Rightarrow> rt_rq) \<Rightarrow> 'a ksys_scheme \<Rightarrow> 'a ksys_scheme" where
  "upd_rt_rq g f s = s\<lparr>rt_rqs := (rt_rqs s)(g := f (rt_rqs s g))\<rparr>"

definition emit :: "kevent \<Rightarrow> 'a ksys_scheme \<Rightarrow> 'a ksys_scheme" where
  "emit e s = s\<lparr>events := events s @ [e]\<rparr>"

lemmas upd_defs [kstate_simps] = upd_task_def upd_rq_def upd_wrr_rq_def upd_wrr_se_def
  upd_rt_se_def upd_se_def upd_rt_rq_def emit_def

text \<open>
  Projections of the updated states, as rewrite rules: with them the proofs of the
  components never unfold a state into its record.
\<close>

lemma upd_task_proj [simp]:
  "task (upd_task p f s) q = (if q = p then f (task s p) else task s q)"
  "rq (upd_task p f s) = rq s"
  "rt_rqs (upd_task p f s) = rt_rqs s"
  "rt_bws (upd_task p f s) = rt_bws s"
  "cpuusage (upd_task p f s) = cpuusage s"
  "jiffies (upd_task p f s) = jiffies s"
  "sclock (upd_task p f s) = sclock s"
  "sysctl_sched_rt_period (upd_task p f s) = sysctl_sched_rt_period s"
  "sysctl_sched_rt_runtime (upd_task p f s) = sysctl_sched_rt_runtime s"
  "calc_load_tasks (upd_task p f s) = calc_load_tasks s"
  "calc_load_update (upd_task p f s) = calc_load_update s"
  "avenrun (upd_task p f s) = avenrun s"
  "calc_load_idle (upd_task p f s) = calc_load_idle s"
  "calc_load_idx (upd_task p f s) = calc_load_idx s"
  "events (upd_task p f s) = events s"
  by (simp_all add: upd_task_def)

lemma upd_se_proj [simp]:
  "se (task (upd_se p f s) q) = (if q = p then f (se (task s p)) else se (task s q))"
  "pid (task (upd_se p f s) q) = pid (task s q)"
  "t_state (task (upd_se p f s) q) = t_state (task s q)"
  "t_flags (task (upd_se p f s) q) = t_flags (task s q)"
  "on_rq (task (upd_se p f s) q) = on_rq (task s q)"
  "prio (task (upd_se p f s) q) = prio (task s q)"
  "static_prio (task (upd_se p f s) q) = static_prio (task s q)"
  "normal_prio (task (upd_se p f s) q) = normal_prio (task s q)"
  "rt_priority (task (upd_se p f s) q) = rt_priority (task s q)"
  "sched_class (task (upd_se p f s) q) = sched_class (task s q)"
  "rt (task (upd_se p f s) q) = rt (task s q)"
  "wrr (task (upd_se p f s) q) = wrr (task s q)"
  "sched_task_group (task (upd_se p f s) q) = sched_task_group (task s q)"
  "policy (task (upd_se p f s) q) = policy (task s q)"
  "sched_reset_on_fork (task (upd_se p f s) q) = sched_reset_on_fork (task s q)"
  "need_resched (task (upd_se p f s) q) = need_resched (task s q)"
  "t_mm (task (upd_se p f s) q) = t_mm (task s q)"
  "active_mm (task (upd_se p f s) q) = active_mm (task s q)"
  "nvcsw (task (upd_se p f s) q) = nvcsw (task s q)"
  "nivcsw (task (upd_se p f s) q) = nivcsw (task s q)"
  "in_iowait (task (upd_se p f s) q) = in_iowait (task s q)"
  "sched_exp (task (upd_se p f s) q) = sched_exp (task s q)"
  "rq (upd_se p f s) = rq s"
  "rt_rqs (upd_se p f s) = rt_rqs s"
  "rt_bws (upd_se p f s) = rt_bws s"
  "cpuusage (upd_se p f s) = cpuusage s"
  "jiffies (upd_se p f s) = jiffies s"
  "sclock (upd_se p f s) = sclock s"
  "sysctl_sched_rt_period (upd_se p f s) = sysctl_sched_rt_period s"
  "sysctl_sched_rt_runtime (upd_se p f s) = sysctl_sched_rt_runtime s"
  "calc_load_tasks (upd_se p f s) = calc_load_tasks s"
  "calc_load_update (upd_se p f s) = calc_load_update s"
  "avenrun (upd_se p f s) = avenrun s"
  "calc_load_idle (upd_se p f s) = calc_load_idle s"
  "calc_load_idx (upd_se p f s) = calc_load_idx s"
  "events (upd_se p f s) = events s"
  by (simp_all add: upd_se_def)

lemma upd_wrr_se_proj [simp]:
  "wrr (task (upd_wrr_se p f s) q) = (if q = p then f (wrr (task s p)) else wrr (task s q))"
  "pid (task (upd_wrr_se p f s) q) = pid (task s q)"
  "t_state (task (upd_wrr_se p f s) q) = t_state (task s q)"
  "t_flags (task (upd_wrr_se p f s) q) = t_flags (task s q)"
  "on_rq (task (upd_wrr_se p f s) q) = on_rq (task s q)"
  "prio (task (upd_wrr_se p f s) q) = prio (task s q)"
  "static_prio (task (upd_wrr_se p f s) q) = static_prio (task s q)"
  "normal_prio (task (upd_wrr_se p f s) q) = normal_prio (task s q)"
  "rt_priority (task (upd_wrr_se p f s) q) = rt_priority (task s q)"
  "sched_class (task (upd_wrr_se p f s) q) = sched_class (task s q)"
  "se (task (upd_wrr_se p f s) q) = se (task s q)"
  "rt (task (upd_wrr_se p f s) q) = rt (task s q)"
  "sched_task_group (task (upd_wrr_se p f s) q) = sched_task_group (task s q)"
  "policy (task (upd_wrr_se p f s) q) = policy (task s q)"
  "sched_reset_on_fork (task (upd_wrr_se p f s) q) = sched_reset_on_fork (task s q)"
  "need_resched (task (upd_wrr_se p f s) q) = need_resched (task s q)"
  "t_mm (task (upd_wrr_se p f s) q) = t_mm (task s q)"
  "active_mm (task (upd_wrr_se p f s) q) = active_mm (task s q)"
  "nvcsw (task (upd_wrr_se p f s) q) = nvcsw (task s q)"
  "nivcsw (task (upd_wrr_se p f s) q) = nivcsw (task s q)"
  "in_iowait (task (upd_wrr_se p f s) q) = in_iowait (task s q)"
  "sched_exp (task (upd_wrr_se p f s) q) = sched_exp (task s q)"
  "rq (upd_wrr_se p f s) = rq s"
  "rt_rqs (upd_wrr_se p f s) = rt_rqs s"
  "rt_bws (upd_wrr_se p f s) = rt_bws s"
  "cpuusage (upd_wrr_se p f s) = cpuusage s"
  "jiffies (upd_wrr_se p f s) = jiffies s"
  "sclock (upd_wrr_se p f s) = sclock s"
  "sysctl_sched_rt_period (upd_wrr_se p f s) = sysctl_sched_rt_period s"
  "sysctl_sched_rt_runtime (upd_wrr_se p f s) = sysctl_sched_rt_runtime s"
  "calc_load_tasks (upd_wrr_se p f s) = calc_load_tasks s"
  "calc_load_update (upd_wrr_se p f s) = calc_load_update s"
  "avenrun (upd_wrr_se p f s) = avenrun s"
  "calc_load_idle (upd_wrr_se p f s) = calc_load_idle s"
  "calc_load_idx (upd_wrr_se p f s) = calc_load_idx s"
  "events (upd_wrr_se p f s) = events s"
  by (simp_all add: upd_wrr_se_def)

lemma upd_rt_se_proj [simp]:
  "rt (task (upd_rt_se p f s) q) = (if q = p then f (rt (task s p)) else rt (task s q))"
  "pid (task (upd_rt_se p f s) q) = pid (task s q)"
  "t_state (task (upd_rt_se p f s) q) = t_state (task s q)"
  "t_flags (task (upd_rt_se p f s) q) = t_flags (task s q)"
  "on_rq (task (upd_rt_se p f s) q) = on_rq (task s q)"
  "prio (task (upd_rt_se p f s) q) = prio (task s q)"
  "static_prio (task (upd_rt_se p f s) q) = static_prio (task s q)"
  "normal_prio (task (upd_rt_se p f s) q) = normal_prio (task s q)"
  "rt_priority (task (upd_rt_se p f s) q) = rt_priority (task s q)"
  "sched_class (task (upd_rt_se p f s) q) = sched_class (task s q)"
  "se (task (upd_rt_se p f s) q) = se (task s q)"
  "wrr (task (upd_rt_se p f s) q) = wrr (task s q)"
  "sched_task_group (task (upd_rt_se p f s) q) = sched_task_group (task s q)"
  "policy (task (upd_rt_se p f s) q) = policy (task s q)"
  "sched_reset_on_fork (task (upd_rt_se p f s) q) = sched_reset_on_fork (task s q)"
  "need_resched (task (upd_rt_se p f s) q) = need_resched (task s q)"
  "t_mm (task (upd_rt_se p f s) q) = t_mm (task s q)"
  "active_mm (task (upd_rt_se p f s) q) = active_mm (task s q)"
  "nvcsw (task (upd_rt_se p f s) q) = nvcsw (task s q)"
  "nivcsw (task (upd_rt_se p f s) q) = nivcsw (task s q)"
  "in_iowait (task (upd_rt_se p f s) q) = in_iowait (task s q)"
  "sched_exp (task (upd_rt_se p f s) q) = sched_exp (task s q)"
  "rq (upd_rt_se p f s) = rq s"
  "rt_rqs (upd_rt_se p f s) = rt_rqs s"
  "rt_bws (upd_rt_se p f s) = rt_bws s"
  "cpuusage (upd_rt_se p f s) = cpuusage s"
  "jiffies (upd_rt_se p f s) = jiffies s"
  "sclock (upd_rt_se p f s) = sclock s"
  "sysctl_sched_rt_period (upd_rt_se p f s) = sysctl_sched_rt_period s"
  "sysctl_sched_rt_runtime (upd_rt_se p f s) = sysctl_sched_rt_runtime s"
  "calc_load_tasks (upd_rt_se p f s) = calc_load_tasks s"
  "calc_load_update (upd_rt_se p f s) = calc_load_update s"
  "avenrun (upd_rt_se p f s) = avenrun s"
  "calc_load_idle (upd_rt_se p f s) = calc_load_idle s"
  "calc_load_idx (upd_rt_se p f s) = calc_load_idx s"
  "events (upd_rt_se p f s) = events s"
  by (simp_all add: upd_rt_se_def)

lemma upd_rq_proj [simp]:
  "rq (upd_rq f s) = f (rq s)"
  "task (upd_rq f s) = task s"
  "rt_rqs (upd_rq f s) = rt_rqs s"
  "rt_bws (upd_rq f s) = rt_bws s"
  "cpuusage (upd_rq f s) = cpuusage s"
  "jiffies (upd_rq f s) = jiffies s"
  "sclock (upd_rq f s) = sclock s"
  "sysctl_sched_rt_period (upd_rq f s) = sysctl_sched_rt_period s"
  "sysctl_sched_rt_runtime (upd_rq f s) = sysctl_sched_rt_runtime s"
  "calc_load_tasks (upd_rq f s) = calc_load_tasks s"
  "calc_load_update (upd_rq f s) = calc_load_update s"
  "avenrun (upd_rq f s) = avenrun s"
  "calc_load_idle (upd_rq f s) = calc_load_idle s"
  "calc_load_idx (upd_rq f s) = calc_load_idx s"
  "events (upd_rq f s) = events s"
  by (simp_all add: upd_rq_def)

lemma upd_wrr_rq_proj [simp]:
  "wrr_rq_of (rq (upd_wrr_rq f s)) = f (wrr_rq_of (rq s))"
  "nr_running (rq (upd_wrr_rq f s)) = nr_running (rq s)"
  "cpu_load (rq (upd_wrr_rq f s)) = cpu_load (rq s)"
  "last_load_update_tick (rq (upd_wrr_rq f s)) = last_load_update_tick (rq s)"
  "skip_clock_update (rq (upd_wrr_rq f s)) = skip_clock_update (rq s)"
  "rq_load (rq (upd_wrr_rq f s)) = rq_load (rq s)"
  "nr_load_updates (rq (upd_wrr_rq f s)) = nr_load_updates (rq s)"
  "nr_switches (rq (upd_wrr_rq f s)) = nr_switches (rq s)"
  "cfs_h_nr_running (rq (upd_wrr_rq f s)) = cfs_h_nr_running (rq s)"
  "leaf_rt_rq_list (rq (upd_wrr_rq f s)) = leaf_rt_rq_list (rq s)"
  "nr_uninterruptible (rq (upd_wrr_rq f s)) = nr_uninterruptible (rq s)"
  "curr (rq (upd_wrr_rq f s)) = curr (rq s)"
  "idle (rq (upd_wrr_rq f s)) = idle (rq s)"
  "stop (rq (upd_wrr_rq f s)) = stop (rq s)"
  "prev_mm (rq (upd_wrr_rq f s)) = prev_mm (rq s)"
  "rq_clock (rq (upd_wrr_rq f s)) = rq_clock (rq s)"
  "clock_task (rq (upd_wrr_rq f s)) = clock_task (rq s)"
  "nr_iowait (rq (upd_wrr_rq f s)) = nr_iowait (rq s)"
  "calc_load_update_rq (rq (upd_wrr_rq f s)) = calc_load_update_rq (rq s)"
  "calc_load_active (rq (upd_wrr_rq f s)) = calc_load_active (rq s)"
  "yld_count (rq (upd_wrr_rq f s)) = yld_count (rq s)"
  "sched_count (rq (upd_wrr_rq f s)) = sched_count (rq s)"
  "ttwu_count (rq (upd_wrr_rq f s)) = ttwu_count (rq s)"
  "task (upd_wrr_rq f s) = task s"
  "rt_rqs (upd_wrr_rq f s) = rt_rqs s"
  "rt_bws (upd_wrr_rq f s) = rt_bws s"
  "cpuusage (upd_wrr_rq f s) = cpuusage s"
  "jiffies (upd_wrr_rq f s) = jiffies s"
  "sclock (upd_wrr_rq f s) = sclock s"
  "sysctl_sched_rt_period (upd_wrr_rq f s) = sysctl_sched_rt_period s"
  "sysctl_sched_rt_runtime (upd_wrr_rq f s) = sysctl_sched_rt_runtime s"
  "calc_load_tasks (upd_wrr_rq f s) = calc_load_tasks s"
  "calc_load_update (upd_wrr_rq f s) = calc_load_update s"
  "avenrun (upd_wrr_rq f s) = avenrun s"
  "calc_load_idle (upd_wrr_rq f s) = calc_load_idle s"
  "calc_load_idx (upd_wrr_rq f s) = calc_load_idx s"
  "events (upd_wrr_rq f s) = events s"
  by (simp_all add: upd_wrr_rq_def)

lemma upd_rt_rq_proj [simp]:
  "rt_rqs (upd_rt_rq g f s) h = (if h = g then f (rt_rqs s g) else rt_rqs s h)"
  "task (upd_rt_rq g f s) = task s"
  "rq (upd_rt_rq g f s) = rq s"
  "rt_bws (upd_rt_rq g f s) = rt_bws s"
  "cpuusage (upd_rt_rq g f s) = cpuusage s"
  "jiffies (upd_rt_rq g f s) = jiffies s"
  "sclock (upd_rt_rq g f s) = sclock s"
  "sysctl_sched_rt_period (upd_rt_rq g f s) = sysctl_sched_rt_period s"
  "sysctl_sched_rt_runtime (upd_rt_rq g f s) = sysctl_sched_rt_runtime s"
  "calc_load_tasks (upd_rt_rq g f s) = calc_load_tasks s"
  "calc_load_update (upd_rt_rq g f s) = calc_load_update s"
  "avenrun (upd_rt_rq g f s) = avenrun s"
  "calc_load_idle (upd_rt_rq g f s) = calc_load_idle s"
  "calc_load_idx (upd_rt_rq g f s) = calc_load_idx s"
  "events (upd_rt_rq g f s) = events s"
  by (simp_all add: upd_rt_rq_def)

lemma emit_proj [simp]:
  "events (emit e s) = events s @ [e]"
  "task (emit e s) = task s"
  "rq (emit e s) = rq s"
  "rt_rqs (emit e s) = rt_rqs s"
  "rt_bws (emit e s) = rt_bws s"
  "cpuusage (emit e s) = cpuusage s"
  "jiffies (emit e s) = jiffies s"
  "sclock (emit e s) = sclock s"
  "sysctl_sched_rt_period (emit e s) = sysctl_sched_rt_period s"
  "sysctl_sched_rt_runtime (emit e s) = sysctl_sched_rt_runtime s"
  "calc_load_tasks (emit e s) = calc_load_tasks s"
  "calc_load_update (emit e s) = calc_load_update s"
  "avenrun (emit e s) = avenrun s"
  "calc_load_idle (emit e s) = calc_load_idle s"
  "calc_load_idx (emit e s) = calc_load_idx s"
  by (simp_all add: emit_def)

section \<open>Helpers of the headers\<close>

definition rt_policy :: "int \<Rightarrow> bool" where
  "rt_policy pol = (if pol = SCHED_FIFO \<or> pol = SCHED_RR then True else False)"

definition task_has_rt_policy :: "task_struct \<Rightarrow> bool" where
  "task_has_rt_policy t = rt_policy (policy t)"

definition rt_prio :: "int \<Rightarrow> bool" where
  "rt_prio pr = (if pr < MAX_RT_PRIO then True else False)"

definition rt_task :: "task_struct \<Rightarrow> bool" where
  "rt_task t = rt_prio (prio t)"

definition NICE_TO_PRIO :: "int \<Rightarrow> int" where
  "NICE_TO_PRIO nice = MAX_RT_PRIO + nice + 20"

definition PRIO_TO_NICE :: "int \<Rightarrow> int" where
  "PRIO_TO_NICE pr = pr - MAX_RT_PRIO - 20"

definition TASK_NICE :: "task_struct \<Rightarrow> int" where
  "TASK_NICE t = PRIO_TO_NICE (static_prio t)"

definition inc_nr_running :: "'a ksys_scheme \<Rightarrow> 'a ksys_scheme" where
  "inc_nr_running = upd_rq (\<lambda>r. r\<lparr>nr_running := nr_running r + 1\<rparr>)"

definition dec_nr_running :: "'a ksys_scheme \<Rightarrow> 'a ksys_scheme" where
  "dec_nr_running = upd_rq (\<lambda>r. r\<lparr>nr_running := nr_running r - 1\<rparr>)"

definition task_current :: "'a ksys_scheme \<Rightarrow> tid \<Rightarrow> bool" where
  "task_current s p = (curr (rq s) = p)"

definition set_tsk_need_resched :: "tid \<Rightarrow> 'a ksys_scheme \<Rightarrow> 'a ksys_scheme" where
  "set_tsk_need_resched p = upd_task p (\<lambda>t. t\<lparr>need_resched := True\<rparr>)"

definition clear_tsk_need_resched :: "tid \<Rightarrow> 'a ksys_scheme \<Rightarrow> 'a ksys_scheme" where
  "clear_tsk_need_resched p = upd_task p (\<lambda>t. t\<lparr>need_resched := False\<rparr>)"

definition test_tsk_need_resched :: "'a ksys_scheme \<Rightarrow> tid \<Rightarrow> bool" where
  "test_tsk_need_resched s p = need_resched (task s p)"

text \<open>\<^verbatim>\<open>resched_task\<close> without \<^verbatim>\<open>CONFIG_SMP\<close>.\<close>

definition resched_task :: "tid \<Rightarrow> 'a ksys_scheme \<Rightarrow> 'a ksys_scheme" where
  "resched_task p = set_tsk_need_resched p"

lemma inc_nr_running_proj [simp]:
  "nr_running (rq (inc_nr_running s)) = nr_running (rq s) + 1"
  "cpu_load (rq (inc_nr_running s)) = cpu_load (rq s)"
  "last_load_update_tick (rq (inc_nr_running s)) = last_load_update_tick (rq s)"
  "skip_clock_update (rq (inc_nr_running s)) = skip_clock_update (rq s)"
  "rq_load (rq (inc_nr_running s)) = rq_load (rq s)"
  "nr_load_updates (rq (inc_nr_running s)) = nr_load_updates (rq s)"
  "nr_switches (rq (inc_nr_running s)) = nr_switches (rq s)"
  "cfs_h_nr_running (rq (inc_nr_running s)) = cfs_h_nr_running (rq s)"
  "wrr_rq_of (rq (inc_nr_running s)) = wrr_rq_of (rq s)"
  "leaf_rt_rq_list (rq (inc_nr_running s)) = leaf_rt_rq_list (rq s)"
  "nr_uninterruptible (rq (inc_nr_running s)) = nr_uninterruptible (rq s)"
  "curr (rq (inc_nr_running s)) = curr (rq s)"
  "idle (rq (inc_nr_running s)) = idle (rq s)"
  "stop (rq (inc_nr_running s)) = stop (rq s)"
  "prev_mm (rq (inc_nr_running s)) = prev_mm (rq s)"
  "rq_clock (rq (inc_nr_running s)) = rq_clock (rq s)"
  "clock_task (rq (inc_nr_running s)) = clock_task (rq s)"
  "nr_iowait (rq (inc_nr_running s)) = nr_iowait (rq s)"
  "calc_load_update_rq (rq (inc_nr_running s)) = calc_load_update_rq (rq s)"
  "calc_load_active (rq (inc_nr_running s)) = calc_load_active (rq s)"
  "yld_count (rq (inc_nr_running s)) = yld_count (rq s)"
  "sched_count (rq (inc_nr_running s)) = sched_count (rq s)"
  "ttwu_count (rq (inc_nr_running s)) = ttwu_count (rq s)"
  "task (inc_nr_running s) = task s"
  "rt_rqs (inc_nr_running s) = rt_rqs s"
  "rt_bws (inc_nr_running s) = rt_bws s"
  "cpuusage (inc_nr_running s) = cpuusage s"
  "jiffies (inc_nr_running s) = jiffies s"
  "sclock (inc_nr_running s) = sclock s"
  "sysctl_sched_rt_period (inc_nr_running s) = sysctl_sched_rt_period s"
  "sysctl_sched_rt_runtime (inc_nr_running s) = sysctl_sched_rt_runtime s"
  "calc_load_tasks (inc_nr_running s) = calc_load_tasks s"
  "calc_load_update (inc_nr_running s) = calc_load_update s"
  "avenrun (inc_nr_running s) = avenrun s"
  "calc_load_idle (inc_nr_running s) = calc_load_idle s"
  "calc_load_idx (inc_nr_running s) = calc_load_idx s"
  "events (inc_nr_running s) = events s"
  by (simp_all add: inc_nr_running_def)

lemma dec_nr_running_proj [simp]:
  "nr_running (rq (dec_nr_running s)) = nr_running (rq s) - 1"
  "cpu_load (rq (dec_nr_running s)) = cpu_load (rq s)"
  "last_load_update_tick (rq (dec_nr_running s)) = last_load_update_tick (rq s)"
  "skip_clock_update (rq (dec_nr_running s)) = skip_clock_update (rq s)"
  "rq_load (rq (dec_nr_running s)) = rq_load (rq s)"
  "nr_load_updates (rq (dec_nr_running s)) = nr_load_updates (rq s)"
  "nr_switches (rq (dec_nr_running s)) = nr_switches (rq s)"
  "cfs_h_nr_running (rq (dec_nr_running s)) = cfs_h_nr_running (rq s)"
  "wrr_rq_of (rq (dec_nr_running s)) = wrr_rq_of (rq s)"
  "leaf_rt_rq_list (rq (dec_nr_running s)) = leaf_rt_rq_list (rq s)"
  "nr_uninterruptible (rq (dec_nr_running s)) = nr_uninterruptible (rq s)"
  "curr (rq (dec_nr_running s)) = curr (rq s)"
  "idle (rq (dec_nr_running s)) = idle (rq s)"
  "stop (rq (dec_nr_running s)) = stop (rq s)"
  "prev_mm (rq (dec_nr_running s)) = prev_mm (rq s)"
  "rq_clock (rq (dec_nr_running s)) = rq_clock (rq s)"
  "clock_task (rq (dec_nr_running s)) = clock_task (rq s)"
  "nr_iowait (rq (dec_nr_running s)) = nr_iowait (rq s)"
  "calc_load_update_rq (rq (dec_nr_running s)) = calc_load_update_rq (rq s)"
  "calc_load_active (rq (dec_nr_running s)) = calc_load_active (rq s)"
  "yld_count (rq (dec_nr_running s)) = yld_count (rq s)"
  "sched_count (rq (dec_nr_running s)) = sched_count (rq s)"
  "ttwu_count (rq (dec_nr_running s)) = ttwu_count (rq s)"
  "task (dec_nr_running s) = task s"
  "rt_rqs (dec_nr_running s) = rt_rqs s"
  "rt_bws (dec_nr_running s) = rt_bws s"
  "cpuusage (dec_nr_running s) = cpuusage s"
  "jiffies (dec_nr_running s) = jiffies s"
  "sclock (dec_nr_running s) = sclock s"
  "sysctl_sched_rt_period (dec_nr_running s) = sysctl_sched_rt_period s"
  "sysctl_sched_rt_runtime (dec_nr_running s) = sysctl_sched_rt_runtime s"
  "calc_load_tasks (dec_nr_running s) = calc_load_tasks s"
  "calc_load_update (dec_nr_running s) = calc_load_update s"
  "avenrun (dec_nr_running s) = avenrun s"
  "calc_load_idle (dec_nr_running s) = calc_load_idle s"
  "calc_load_idx (dec_nr_running s) = calc_load_idx s"
  "events (dec_nr_running s) = events s"
  by (simp_all add: dec_nr_running_def)

lemma set_tsk_need_resched_proj [simp]:
  "need_resched (task (set_tsk_need_resched p s) q) = (if q = p then True else need_resched (task s q))"
  "pid (task (set_tsk_need_resched p s) q) = pid (task s q)"
  "t_state (task (set_tsk_need_resched p s) q) = t_state (task s q)"
  "t_flags (task (set_tsk_need_resched p s) q) = t_flags (task s q)"
  "on_rq (task (set_tsk_need_resched p s) q) = on_rq (task s q)"
  "prio (task (set_tsk_need_resched p s) q) = prio (task s q)"
  "static_prio (task (set_tsk_need_resched p s) q) = static_prio (task s q)"
  "normal_prio (task (set_tsk_need_resched p s) q) = normal_prio (task s q)"
  "rt_priority (task (set_tsk_need_resched p s) q) = rt_priority (task s q)"
  "sched_class (task (set_tsk_need_resched p s) q) = sched_class (task s q)"
  "se (task (set_tsk_need_resched p s) q) = se (task s q)"
  "rt (task (set_tsk_need_resched p s) q) = rt (task s q)"
  "wrr (task (set_tsk_need_resched p s) q) = wrr (task s q)"
  "sched_task_group (task (set_tsk_need_resched p s) q) = sched_task_group (task s q)"
  "policy (task (set_tsk_need_resched p s) q) = policy (task s q)"
  "sched_reset_on_fork (task (set_tsk_need_resched p s) q) = sched_reset_on_fork (task s q)"
  "t_mm (task (set_tsk_need_resched p s) q) = t_mm (task s q)"
  "active_mm (task (set_tsk_need_resched p s) q) = active_mm (task s q)"
  "nvcsw (task (set_tsk_need_resched p s) q) = nvcsw (task s q)"
  "nivcsw (task (set_tsk_need_resched p s) q) = nivcsw (task s q)"
  "in_iowait (task (set_tsk_need_resched p s) q) = in_iowait (task s q)"
  "sched_exp (task (set_tsk_need_resched p s) q) = sched_exp (task s q)"
  "rq (set_tsk_need_resched p s) = rq s"
  "rt_rqs (set_tsk_need_resched p s) = rt_rqs s"
  "rt_bws (set_tsk_need_resched p s) = rt_bws s"
  "cpuusage (set_tsk_need_resched p s) = cpuusage s"
  "jiffies (set_tsk_need_resched p s) = jiffies s"
  "sclock (set_tsk_need_resched p s) = sclock s"
  "sysctl_sched_rt_period (set_tsk_need_resched p s) = sysctl_sched_rt_period s"
  "sysctl_sched_rt_runtime (set_tsk_need_resched p s) = sysctl_sched_rt_runtime s"
  "calc_load_tasks (set_tsk_need_resched p s) = calc_load_tasks s"
  "calc_load_update (set_tsk_need_resched p s) = calc_load_update s"
  "avenrun (set_tsk_need_resched p s) = avenrun s"
  "calc_load_idle (set_tsk_need_resched p s) = calc_load_idle s"
  "calc_load_idx (set_tsk_need_resched p s) = calc_load_idx s"
  "events (set_tsk_need_resched p s) = events s"
  by (simp_all add: set_tsk_need_resched_def)

lemma clear_tsk_need_resched_proj [simp]:
  "need_resched (task (clear_tsk_need_resched p s) q) = (if q = p then False else need_resched (task s q))"
  "pid (task (clear_tsk_need_resched p s) q) = pid (task s q)"
  "t_state (task (clear_tsk_need_resched p s) q) = t_state (task s q)"
  "t_flags (task (clear_tsk_need_resched p s) q) = t_flags (task s q)"
  "on_rq (task (clear_tsk_need_resched p s) q) = on_rq (task s q)"
  "prio (task (clear_tsk_need_resched p s) q) = prio (task s q)"
  "static_prio (task (clear_tsk_need_resched p s) q) = static_prio (task s q)"
  "normal_prio (task (clear_tsk_need_resched p s) q) = normal_prio (task s q)"
  "rt_priority (task (clear_tsk_need_resched p s) q) = rt_priority (task s q)"
  "sched_class (task (clear_tsk_need_resched p s) q) = sched_class (task s q)"
  "se (task (clear_tsk_need_resched p s) q) = se (task s q)"
  "rt (task (clear_tsk_need_resched p s) q) = rt (task s q)"
  "wrr (task (clear_tsk_need_resched p s) q) = wrr (task s q)"
  "sched_task_group (task (clear_tsk_need_resched p s) q) = sched_task_group (task s q)"
  "policy (task (clear_tsk_need_resched p s) q) = policy (task s q)"
  "sched_reset_on_fork (task (clear_tsk_need_resched p s) q) = sched_reset_on_fork (task s q)"
  "t_mm (task (clear_tsk_need_resched p s) q) = t_mm (task s q)"
  "active_mm (task (clear_tsk_need_resched p s) q) = active_mm (task s q)"
  "nvcsw (task (clear_tsk_need_resched p s) q) = nvcsw (task s q)"
  "nivcsw (task (clear_tsk_need_resched p s) q) = nivcsw (task s q)"
  "in_iowait (task (clear_tsk_need_resched p s) q) = in_iowait (task s q)"
  "sched_exp (task (clear_tsk_need_resched p s) q) = sched_exp (task s q)"
  "rq (clear_tsk_need_resched p s) = rq s"
  "rt_rqs (clear_tsk_need_resched p s) = rt_rqs s"
  "rt_bws (clear_tsk_need_resched p s) = rt_bws s"
  "cpuusage (clear_tsk_need_resched p s) = cpuusage s"
  "jiffies (clear_tsk_need_resched p s) = jiffies s"
  "sclock (clear_tsk_need_resched p s) = sclock s"
  "sysctl_sched_rt_period (clear_tsk_need_resched p s) = sysctl_sched_rt_period s"
  "sysctl_sched_rt_runtime (clear_tsk_need_resched p s) = sysctl_sched_rt_runtime s"
  "calc_load_tasks (clear_tsk_need_resched p s) = calc_load_tasks s"
  "calc_load_update (clear_tsk_need_resched p s) = calc_load_update s"
  "avenrun (clear_tsk_need_resched p s) = avenrun s"
  "calc_load_idle (clear_tsk_need_resched p s) = calc_load_idle s"
  "calc_load_idx (clear_tsk_need_resched p s) = calc_load_idx s"
  "events (clear_tsk_need_resched p s) = events s"
  by (simp_all add: clear_tsk_need_resched_def)

lemma resched_task_proj [simp]:
  "need_resched (task (resched_task p s) q) = (if q = p then True else need_resched (task s q))"
  "pid (task (resched_task p s) q) = pid (task s q)"
  "t_state (task (resched_task p s) q) = t_state (task s q)"
  "t_flags (task (resched_task p s) q) = t_flags (task s q)"
  "on_rq (task (resched_task p s) q) = on_rq (task s q)"
  "prio (task (resched_task p s) q) = prio (task s q)"
  "static_prio (task (resched_task p s) q) = static_prio (task s q)"
  "normal_prio (task (resched_task p s) q) = normal_prio (task s q)"
  "rt_priority (task (resched_task p s) q) = rt_priority (task s q)"
  "sched_class (task (resched_task p s) q) = sched_class (task s q)"
  "se (task (resched_task p s) q) = se (task s q)"
  "rt (task (resched_task p s) q) = rt (task s q)"
  "wrr (task (resched_task p s) q) = wrr (task s q)"
  "sched_task_group (task (resched_task p s) q) = sched_task_group (task s q)"
  "policy (task (resched_task p s) q) = policy (task s q)"
  "sched_reset_on_fork (task (resched_task p s) q) = sched_reset_on_fork (task s q)"
  "t_mm (task (resched_task p s) q) = t_mm (task s q)"
  "active_mm (task (resched_task p s) q) = active_mm (task s q)"
  "nvcsw (task (resched_task p s) q) = nvcsw (task s q)"
  "nivcsw (task (resched_task p s) q) = nivcsw (task s q)"
  "in_iowait (task (resched_task p s) q) = in_iowait (task s q)"
  "sched_exp (task (resched_task p s) q) = sched_exp (task s q)"
  "rq (resched_task p s) = rq s"
  "rt_rqs (resched_task p s) = rt_rqs s"
  "rt_bws (resched_task p s) = rt_bws s"
  "cpuusage (resched_task p s) = cpuusage s"
  "jiffies (resched_task p s) = jiffies s"
  "sclock (resched_task p s) = sclock s"
  "sysctl_sched_rt_period (resched_task p s) = sysctl_sched_rt_period s"
  "sysctl_sched_rt_runtime (resched_task p s) = sysctl_sched_rt_runtime s"
  "calc_load_tasks (resched_task p s) = calc_load_tasks s"
  "calc_load_update (resched_task p s) = calc_load_update s"
  "avenrun (resched_task p s) = avenrun s"
  "calc_load_idle (resched_task p s) = calc_load_idle s"
  "calc_load_idx (resched_task p s) = calc_load_idx s"
  "events (resched_task p s) = events s"
  by (simp_all add: resched_task_def)

definition rt_bandwidth_enabled :: "'a ksys_scheme \<Rightarrow> bool" where
  "rt_bandwidth_enabled s = (0 \<le> sysctl_sched_rt_runtime s)"

section \<open>CPU accounting groups\<close>

definition parent_ca :: "cgrp \<Rightarrow> cgrp option" where
  "parent_ca ca = (if ca = [] then None else Some (butlast ca))"

function cpuacct_charge_from :: "cgrp option \<Rightarrow> u64 \<Rightarrow> (cgrp \<Rightarrow> u64) \<Rightarrow> (cgrp \<Rightarrow> u64)" where
  "cpuacct_charge_from None cputime u = u"
| "cpuacct_charge_from (Some ca) cputime u =
     cpuacct_charge_from (parent_ca ca) cputime (u(ca := u ca + cputime))"
  by pat_completeness auto
termination
  by (relation "measure (\<lambda>(ca, c, u). case ca of None \<Rightarrow> 0 | Some g \<Rightarrow> Suc (length g))")
    (auto simp: parent_ca_def)

definition cpuacct_charge :: "kenv \<Rightarrow> tid \<Rightarrow> u64 \<Rightarrow> 'a ksys_scheme \<Rightarrow> 'a ksys_scheme" where
  "cpuacct_charge env p cputime s =
     (if \<not> cpuacct_active env then s
      else s\<lparr>cpuusage := cpuacct_charge_from (task_ca env p) cputime (cpuusage s)\<rparr>)"

lemma cpuacct_charge_proj [simp]:
  "task (cpuacct_charge env p c s) = task s"
  "rq (cpuacct_charge env p c s) = rq s"
  "rt_rqs (cpuacct_charge env p c s) = rt_rqs s"
  "rt_bws (cpuacct_charge env p c s) = rt_bws s"
  "jiffies (cpuacct_charge env p c s) = jiffies s"
  "sclock (cpuacct_charge env p c s) = sclock s"
  "sysctl_sched_rt_period (cpuacct_charge env p c s) = sysctl_sched_rt_period s"
  "sysctl_sched_rt_runtime (cpuacct_charge env p c s) = sysctl_sched_rt_runtime s"
  "calc_load_tasks (cpuacct_charge env p c s) = calc_load_tasks s"
  "calc_load_update (cpuacct_charge env p c s) = calc_load_update s"
  "avenrun (cpuacct_charge env p c s) = avenrun s"
  "calc_load_idle (cpuacct_charge env p c s) = calc_load_idle s"
  "calc_load_idx (cpuacct_charge env p c s) = calc_load_idx s"
  "events (cpuacct_charge env p c s) = events s"
  by (simp_all add: cpuacct_charge_def)

text \<open>A group is an ancestor of another, or itself, when its path is a prefix of the other's.\<close>

definition ca_ancestor :: "cgrp \<Rightarrow> cgrp \<Rightarrow> bool" where
  "ca_ancestor g ca \<longleftrightarrow> take (length g) ca = g"

lemma ca_ancestor_refl [simp]: "ca_ancestor g g"
  by (simp add: ca_ancestor_def)

lemma ca_ancestor_Nil [simp]: "ca_ancestor g [] \<longleftrightarrow> g = []"
  by (auto simp: ca_ancestor_def)

lemma ca_ancestor_snoc [simp]: "ca_ancestor g (ca @ [x]) \<longleftrightarrow> g = ca @ [x] \<or> ca_ancestor g ca"
proof (cases "length g \<le> length ca")
  case True
  then show ?thesis by (auto simp: ca_ancestor_def)
next
  case False
  then have "take (length g) (ca @ [x]) = ca @ [x]" "take (length g) ca = ca" by simp_all
  with False show ?thesis by (auto simp: ca_ancestor_def)
qed

lemma parent_ca_simps [simp]:
  "parent_ca [] = None" "parent_ca (g @ [x]) = Some g"
  by (simp_all add: parent_ca_def)

lemma not_ca_ancestor_snoc: "\<not> ca_ancestor (ca @ [x]) ca"
  by (simp add: ca_ancestor_def)

declare cpuacct_charge_from.simps(2) [simp del]

lemma cpuacct_charge_from_steps:
  "cpuacct_charge_from (Some []) c u = u([] := u [] + c)"
  "cpuacct_charge_from (Some (ca @ [x])) c u =
     cpuacct_charge_from (Some ca) c (u(ca @ [x] := u (ca @ [x]) + c))"
  by (simp_all add: cpuacct_charge_from.simps(2))

lemma cpuacct_charge_from_eq:
  "cpuacct_charge_from (Some ca) c u g = (if ca_ancestor g ca then u g + c else u g)"
proof (induction ca arbitrary: u rule: rev_induct)
  case Nil
  then show ?case by (auto simp: cpuacct_charge_from_steps)
next
  case (snoc x ca)
  show ?case
    by (auto simp: cpuacct_charge_from_steps snoc not_ca_ancestor_snoc)
qed

end
