(* ===== verification/Sched_Class.thy ===== *)
theory Sched_Class
  imports Sched_Types
begin

text \<open>
  What the scheduler core relies on of a scheduling class (\<^verbatim>\<open>struct sched_class\<close>),
  as two interfaces: the contract of its \<^verbatim>\<open>pick_next_task\<close>, and, on top of it,
  the contract of its queue operations. Both are interpreted for the weighted
  round-robin class and for the real-time class in the theories of those classes.
\<close>

section \<open>Picking a task\<close>

text \<open>
  Under the invariant of the class the pick returns. It returns no task only when none
  is runnable, and then changes nothing; otherwise it returns a runnable one.
\<close>

locale pick_contract =
  fixes ops :: "'s sched_class_ops"
    and inv :: "'s \<Rightarrow> bool"
    and runnable :: "'s \<Rightarrow> tid set"
  assumes pick_returns: "inv s \<Longrightarrow> \<exists>r s'. pick_next_task_op ops s = Some (r, s')"
    and pick_none: "inv s \<Longrightarrow> pick_next_task_op ops s = Some (None, s') \<Longrightarrow> runnable s = {} \<and> s' = s"
    and pick_some: "inv s \<Longrightarrow> pick_next_task_op ops s = Some (Some p, s') \<Longrightarrow> p \<in> runnable s \<and> inv s'"
begin

lemma pick_cases:
  assumes "inv s"
  obtains (none) "pick_next_task_op ops s = Some (None, s)" "runnable s = {}"
  | (some) p s' where "pick_next_task_op ops s = Some (Some p, s')" "p \<in> runnable s" "inv s'"
proof -
  obtain r s' where rs: "pick_next_task_op ops s = Some (r, s')" using pick_returns [OF assms] by blast
  show thesis
  proof (cases r)
    case None
    with rs pick_none [OF assms] show thesis by (intro none) auto
  next
    case (Some p)
    with rs pick_some [OF assms] show thesis by (intro some) auto
  qed
qed

text \<open>A class is passed over exactly when it has nothing to run.\<close>

lemma pick_none_iff: "inv s \<Longrightarrow> pick_next_task_op ops s = Some (None, s) \<longleftrightarrow> runnable s = {}"
  by (cases rule: pick_cases [of s]) auto

end

section \<open>The queue of a class\<close>

text \<open>
  \<open>queued\<close> are the tasks on the queues of the class, \<open>admits\<close> tells when a task may be
  put there. Putting a task in and taking it out change the queued tasks by that task.
\<close>

locale queue_contract = pick_contract ops inv runnable
  for ops :: "'s sched_class_ops" and inv and runnable +
  fixes queued :: "'s \<Rightarrow> tid set"
    and admits :: "tid \<Rightarrow> 's \<Rightarrow> bool"
  assumes runnable_queued: "inv s \<Longrightarrow> runnable s \<subseteq> queued s"
    and enqueue_inv: "inv s \<Longrightarrow> admits p s \<Longrightarrow> p \<notin> queued s \<Longrightarrow> inv (enqueue_task_op ops p fl s)"
    and enqueue_queued: "inv s \<Longrightarrow> admits p s \<Longrightarrow> p \<notin> queued s \<Longrightarrow>
      queued (enqueue_task_op ops p fl s) = insert p (queued s)"
    and dequeue_inv: "inv s \<Longrightarrow> p \<in> queued s \<Longrightarrow> inv (dequeue_task_op ops p fl s)"
    and dequeue_queued: "inv s \<Longrightarrow> p \<in> queued s \<Longrightarrow> queued (dequeue_task_op ops p fl s) = queued s - {p}"
    and dequeue_admits: "inv s \<Longrightarrow> p \<in> queued s \<Longrightarrow> admits p (dequeue_task_op ops p fl s)"
begin

text \<open>Taking a task out and putting it back leaves the queued tasks as they were.\<close>

lemma requeue:
  assumes "inv s" "p \<in> queued s"
  shows "inv (enqueue_task_op ops p fl (dequeue_task_op ops p fl' s))"
    and "queued (enqueue_task_op ops p fl (dequeue_task_op ops p fl' s)) = queued s"
proof -
  let ?s = "dequeue_task_op ops p fl' s"
  have "inv ?s" "admits p ?s" "p \<notin> queued ?s"
    using assms by (simp_all add: dequeue_inv dequeue_admits dequeue_queued)
  then show "inv (enqueue_task_op ops p fl ?s)" "queued (enqueue_task_op ops p fl ?s) = queued s"
    using assms by (auto simp: enqueue_inv enqueue_queued dequeue_queued)
qed

text \<open>A class whose queue was emptied has nothing to pick.\<close>

lemma pick_after_last:
  assumes "inv s" "queued s = {p}"
  shows "pick_next_task_op ops (dequeue_task_op ops p fl s) =
           Some (None, dequeue_task_op ops p fl s)"
proof -
  let ?s = "dequeue_task_op ops p fl s"
  have "inv ?s" using assms by (simp add: dequeue_inv)
  moreover have "runnable ?s = {}" using runnable_queued [OF \<open>inv ?s\<close>] assms by (simp add: dequeue_queued)
  ultimately show ?thesis by (simp add: pick_none_iff)
qed

end

end
