(* ===== verification/Wrr.thy ===== *)
theory Wrr
  imports Sched_Class
begin

text \<open>
  The weighted round-robin scheduling class, \<^verbatim>\<open>scheduler/sched/wrr.c\<close>: every
  function of the file in its order, then the run-queue invariant, the behaviour of each
  operation, and the reachable states of the class under the calling discipline of the
  scheduler core.

  A task is in the background when the second character of its group path is
  \<^verbatim>\<open>b\<close>; it then has weight 1 and the background time slice, otherwise weight 10
  and the foreground time slice.
\<close>

section \<open>The functions of wrr.c\<close>

definition WRR_FG_TIMESLICE :: "kenv \<Rightarrow> u32" where
  "WRR_FG_TIMESLICE env = of_nat (100 * HZ env div 1000)"

definition WRR_BG_TIMESLICE :: "kenv \<Rightarrow> u32" where
  "WRR_BG_TIMESLICE env = of_nat (10 * HZ env div 1000)"

text \<open>
  The block that fills \<^verbatim>\<open>group_path\<close>, common to three functions of
  \<^verbatim>\<open>wrr.c\<close> and two of \<^verbatim>\<open>core.c\<close>, and the read of one of its bytes.
\<close>

definition group_path :: "kenv \<Rightarrow> tgid \<Rightarrow> string" where
  "group_path env tg =
     (let (r, buf) = autogroup_path env tg (stack_buf env) in
      if r \<noteq> 0 then buf
      else
        let buf = (if css_cgroup env tg = None then buf[0 := CHR 0x00] else buf)
        in snd (cgroup_path env (css_cgroup env tg) buf))"

definition buf_at :: "string \<Rightarrow> nat \<Rightarrow> char" where
  "buf_at buf i = (if i < length buf then buf ! i else CHR 0x00)"

definition update_curr_wrr :: "kenv \<Rightarrow> 'a ksys_scheme \<Rightarrow> 'a ksys_scheme" where
  "update_curr_wrr env s =
     (let c = curr (rq s) in
      if sched_class (task s c) \<noteq> wrr_sched_class then s
      else
        let delta = clock_task (rq s) - exec_start (se (task s c));
            delta_exec = (if delta <s 0 then 0 else delta);
            s = upd_se c (\<lambda>e. e\<lparr>exec_max := max (exec_max e) delta_exec\<rparr>) s;
            s = upd_se c (\<lambda>e. e\<lparr>sum_exec_runtime := sum_exec_runtime e + delta_exec\<rparr>) s;
            s = emit (AccountGroupExecRuntime c delta_exec) s;
            s = upd_se c (\<lambda>e. e\<lparr>exec_start := clock_task (rq s)\<rparr>) s
        in cpuacct_charge env c delta_exec s)"

definition enqueue_wrr_entity :: "kenv \<Rightarrow> tid \<Rightarrow> bool \<Rightarrow> 'a ksys_scheme \<Rightarrow> 'a ksys_scheme" where
  "enqueue_wrr_entity env p head s =
     (let gp = group_path env (sched_task_group (task s p));
          w = weight (wrr (task s p));
          s = (if buf_at gp 1 = CHR ''b'' \<and> w \<noteq> 1
               then upd_wrr_se p (\<lambda>e. e\<lparr>time_slice := WRR_BG_TIMESLICE env, weight := 1\<rparr>) s
               else if buf_at gp 1 \<noteq> CHR ''b'' \<and> w \<noteq> 10
               then upd_wrr_se p (\<lambda>e. e\<lparr>time_slice := WRR_FG_TIMESLICE env, weight := 10\<rparr>) s
               else s);
          s = upd_wrr_rq (\<lambda>r. r\<lparr>queue := (if head then list_add p (queue r)
                                         else list_add_tail p (queue r))\<rparr>) s
      in upd_wrr_rq (\<lambda>r. r\<lparr>total_weight := total_weight r + weight (wrr (task s p)),
                            wrr_nr_running := wrr_nr_running r + 1\<rparr>) s)"

definition enqueue_task_wrr :: "kenv \<Rightarrow> tid \<Rightarrow> u32 \<Rightarrow> 'a ksys_scheme \<Rightarrow> 'a ksys_scheme" where
  "enqueue_task_wrr env p flags s =
     inc_nr_running (enqueue_wrr_entity env p (flags AND ENQUEUE_HEAD \<noteq> 0) s)"

definition dequeue_wrr_entity :: "tid \<Rightarrow> 'a ksys_scheme \<Rightarrow> 'a ksys_scheme" where
  "dequeue_wrr_entity p s =
     upd_wrr_rq (\<lambda>r. r\<lparr>queue := list_del_init p (queue r),
                        total_weight := total_weight r - weight (wrr (task s p)),
                        wrr_nr_running := wrr_nr_running r - 1\<rparr>) s"

definition dequeue_task_wrr :: "kenv \<Rightarrow> tid \<Rightarrow> u32 \<Rightarrow> 'a ksys_scheme \<Rightarrow> 'a ksys_scheme" where
  "dequeue_task_wrr env p flags s =
     dec_nr_running (dequeue_wrr_entity p (update_curr_wrr env s))"

definition check_preempt_curr_wrr :: "tid \<Rightarrow> u32 \<Rightarrow> 'a ksys_scheme \<Rightarrow> 'a ksys_scheme" where
  "check_preempt_curr_wrr p flags s = s"

definition free_wrr_sched_group :: "tgid \<Rightarrow> 'a ksys_scheme \<Rightarrow> 'a ksys_scheme" where
  "free_wrr_sched_group tg s = s"

definition alloc_wrr_sched_group :: "tgid \<Rightarrow> tgid \<Rightarrow> 'a ksys_scheme \<Rightarrow> int \<times> 'a ksys_scheme" where
  "alloc_wrr_sched_group tg parent s = (1, s)"

definition task_fork_wrr :: "tid \<Rightarrow> 'a ksys_scheme \<Rightarrow> 'a ksys_scheme" where
  "task_fork_wrr p s = upd_wrr_se p (\<lambda>e. e\<lparr>time_slice := 0\<rparr>) s"

definition init_wrr_rq :: "'a ksys_scheme \<Rightarrow> 'a ksys_scheme" where
  "init_wrr_rq s =
     upd_wrr_rq (\<lambda>r. r\<lparr>queue := [], wrr_nr_running := 0, total_weight := 0\<rparr>) s"

definition requeue_task_wrr :: "tid \<Rightarrow> bool \<Rightarrow> 'a ksys_scheme \<Rightarrow> 'a ksys_scheme" where
  "requeue_task_wrr p head s =
     upd_wrr_rq (\<lambda>r. r\<lparr>queue := (if head then list_move p (queue r)
                                  else list_move_tail p (queue r))\<rparr>) s"

definition yield_task_wrr :: "'a ksys_scheme \<Rightarrow> 'a ksys_scheme" where
  "yield_task_wrr s = requeue_task_wrr (curr (rq s)) False s"

definition put_prev_task_wrr :: "kenv \<Rightarrow> tid \<Rightarrow> 'a ksys_scheme \<Rightarrow> 'a ksys_scheme" where
  "put_prev_task_wrr env prev s =
     upd_se prev (\<lambda>e. e\<lparr>exec_start := 0\<rparr>) (update_curr_wrr env s)"

text \<open>
  In \<^verbatim>\<open>task_tick_wrr\<close> the group path is computed and not used. The last test
  compares the neighbours of the task in the list.
\<close>

definition task_tick_wrr :: "kenv \<Rightarrow> tid \<Rightarrow> 'a ksys_scheme \<Rightarrow> 'a ksys_scheme" where
  "task_tick_wrr env p s =
     (let s = update_curr_wrr env s;
          s = upd_wrr_se p (\<lambda>e. e\<lparr>time_slice := time_slice e - 1\<rparr>) s
      in
        if time_slice (wrr (task s p)) \<noteq> 0 then s
        else
          let s = (if weight (wrr (task s p)) = 1
                   then upd_wrr_se p (\<lambda>e. e\<lparr>time_slice := WRR_BG_TIMESLICE env\<rparr>) s
                   else upd_wrr_se p (\<lambda>e. e\<lparr>time_slice := WRR_FG_TIMESLICE env\<rparr>) s);
              q = queue (wrr_rq_of (rq s))
          in
            if list_prev p q \<noteq> list_next p q
            then resched_task p (requeue_task_wrr p False s)
            else s)"

definition set_curr_task_wrr :: "'a ksys_scheme \<Rightarrow> 'a ksys_scheme" where
  "set_curr_task_wrr s =
     upd_se (curr (rq s)) (\<lambda>e. e\<lparr>exec_start := clock_task (rq s)\<rparr>) s"

text \<open>
  \<^verbatim>\<open>list_first_entry\<close> on an empty list yields the address computed from the list
  head itself.
\<close>

definition pick_next_task_wrr :: "kenv \<Rightarrow> 'a ksys_scheme \<Rightarrow> tid option \<times> 'a ksys_scheme" where
  "pick_next_task_wrr env s =
     (let r = wrr_rq_of (rq s) in
      if wrr_nr_running r = 0 then (None, s)
      else (Some (case queue r of [] \<Rightarrow> wrr_head_entry env | p # ps \<Rightarrow> p), s))"

definition prio_changed_wrr :: "tid \<Rightarrow> int \<Rightarrow> 'a ksys_scheme \<Rightarrow> 'a ksys_scheme" where
  "prio_changed_wrr p oldprio s = s"

definition switched_to_wrr :: "kenv \<Rightarrow> tid \<Rightarrow> 'a ksys_scheme \<Rightarrow> 'a ksys_scheme" where
  "switched_to_wrr env p s =
     (if on_rq (task s p) \<and> curr (rq s) \<noteq> p then
        let s = resched_task (curr (rq s)) s;
            gp = group_path env (sched_task_group (task s p))
        in if buf_at gp 1 = CHR ''b'' then upd_wrr_se p (\<lambda>e. e\<lparr>weight := 1\<rparr>) s
           else upd_wrr_se p (\<lambda>e. e\<lparr>weight := 10\<rparr>) s
      else s)"

definition get_rr_interval_wrr :: "kenv \<Rightarrow> tid \<Rightarrow> 'a ksys_scheme \<Rightarrow> u32 option" where
  "get_rr_interval_wrr env p s =
     (let t = task s p;
          gp = snd (cgroup_path env (css_cgroup env (sched_task_group t)) (stack_buf env))
      in if policy t = SCHED_WRR then
           (if buf_at gp 1 = CHR 0x00 then Some (WRR_FG_TIMESLICE env)
            else Some (WRR_BG_TIMESLICE env))
         else None)"

text \<open>The class structure at the end of the file; there is no \<^verbatim>\<open>switched_from\<close> on one processor.\<close>

definition wrr_sched_class_ops :: "kenv \<Rightarrow> 'a ksys_scheme sched_class_ops" where
  "wrr_sched_class_ops env =
     \<lparr>cls_next = Some fair_sched_class,
      enqueue_task_op = enqueue_task_wrr env,
      dequeue_task_op = dequeue_task_wrr env,
      yield_task_op = yield_task_wrr,
      check_preempt_curr_op = check_preempt_curr_wrr,
      pick_next_task_op = (\<lambda>s. Some (pick_next_task_wrr env s)),
      put_prev_task_op = put_prev_task_wrr env,
      set_curr_task_op = set_curr_task_wrr,
      task_tick_op = task_tick_wrr env,
      task_fork_op = Some task_fork_wrr,
      switched_from_op = None,
      switched_to_op = switched_to_wrr env,
      prio_changed_op = prio_changed_wrr,
      get_rr_interval_op = get_rr_interval_wrr env\<rparr>"

section \<open>Frame facts\<close>

abbreviation wq :: "'a ksys_scheme \<Rightarrow> tid list" where
  "wq s \<equiv> queue (wrr_rq_of (rq s))"

abbreviation slice_of :: "'a ksys_scheme \<Rightarrow> tid \<Rightarrow> u32" where
  "slice_of s p \<equiv> time_slice (wrr (task s p))"

abbreviation weight_of :: "'a ksys_scheme \<Rightarrow> tid \<Rightarrow> u32" where
  "weight_of s p \<equiv> weight (wrr (task s p))"

named_theorems wrr_defs \<open>definitions of the WRR operations\<close>

lemmas wrr_op_defs [wrr_defs] =
  enqueue_wrr_entity_def enqueue_task_wrr_def dequeue_wrr_entity_def dequeue_task_wrr_def
  check_preempt_curr_wrr_def task_fork_wrr_def init_wrr_rq_def requeue_task_wrr_def
  yield_task_wrr_def put_prev_task_wrr_def task_tick_wrr_def set_curr_task_wrr_def
  pick_next_task_wrr_def prio_changed_wrr_def switched_to_wrr_def

text \<open>The time accounting changes the current task's \<open>se\<close> and nothing of the queue.\<close>

lemma update_curr_wrr_rq [simp]: "rq (update_curr_wrr env s) = rq s"
  by (simp add: update_curr_wrr_def Let_def)

lemma update_curr_wrr_fields [simp]:
  "wrr (task (update_curr_wrr env s) p) = wrr (task s p)"
  "rt (task (update_curr_wrr env s) p) = rt (task s p)"
  "sched_task_group (task (update_curr_wrr env s) p) = sched_task_group (task s p)"
  "sched_class (task (update_curr_wrr env s) p) = sched_class (task s p)"
  "policy (task (update_curr_wrr env s) p) = policy (task s p)"
  "on_rq (task (update_curr_wrr env s) p) = on_rq (task s p)"
  "need_resched (task (update_curr_wrr env s) p) = need_resched (task s p)"
  "t_state (task (update_curr_wrr env s) p) = t_state (task s p)"
  "prio (task (update_curr_wrr env s) p) = prio (task s p)"
  by (simp_all add: update_curr_wrr_def Let_def)

section \<open>Time accounting\<close>

text \<open>
  The execution time charged at an update: the time since the last one, or 0 when the
  task clock appears to have gone backwards.
\<close>

definition wrr_delta :: "'a ksys_scheme \<Rightarrow> u64" where
  "wrr_delta s =
     (let d = clock_task (rq s) - exec_start (se (task s (curr (rq s))))
      in if d <s 0 then 0 else d)"

lemma update_curr_wrr_accounts:
  assumes "sched_class (task s (curr (rq s))) = wrr_sched_class"
  shows "sum_exec_runtime (se (task (update_curr_wrr env s) (curr (rq s)))) =
           sum_exec_runtime (se (task s (curr (rq s)))) + wrr_delta s"
    and "exec_start (se (task (update_curr_wrr env s) (curr (rq s)))) = clock_task (rq s)"
    and "events (update_curr_wrr env s) =
           events s @ [AccountGroupExecRuntime (curr (rq s)) (wrr_delta s)]"
    and "exec_max (se (task (update_curr_wrr env s) (curr (rq s)))) =
           max (exec_max (se (task s (curr (rq s))))) (wrr_delta s)"
  using assms
  by (simp_all add: update_curr_wrr_def Let_def wrr_delta_def)

lemma update_curr_wrr_usage:
  assumes "sched_class (task s (curr (rq s))) = wrr_sched_class"
    and "cpuacct_active env" "task_ca env (curr (rq s)) = Some ca"
  shows "cpuusage (update_curr_wrr env s) g =
           cpuusage s g + (if ca_ancestor g ca then wrr_delta s else 0)"
  using assms
  by (simp add: update_curr_wrr_def Let_def wrr_delta_def cpuacct_charge_def cpuacct_charge_from_eq)

lemma update_curr_wrr_other: "q \<noteq> curr (rq s) \<Longrightarrow> task (update_curr_wrr env s) q = task s q"
  by (simp add: update_curr_wrr_def Let_def upd_se_def)

section \<open>The run-queue invariant\<close>

text \<open>The weight the path of a group stands for, and its time slice.\<close>

definition is_background :: "kenv \<Rightarrow> tgid \<Rightarrow> bool" where
  "is_background env tg \<longleftrightarrow> buf_at (group_path env tg) 1 = CHR ''b''"

definition group_weight :: "kenv \<Rightarrow> tgid \<Rightarrow> u32" where
  "group_weight env tg = (if is_background env tg then 1 else 10)"

definition weight_slice :: "kenv \<Rightarrow> u32 \<Rightarrow> u32" where
  "weight_slice env w = (if w = 1 then WRR_BG_TIMESLICE env else WRR_FG_TIMESLICE env)"

text \<open>
  Entries are distinct task addresses of the 32-bit address space, the two counters of
  the run queue agree with the list, and every queued task has the weight of its group.
\<close>

definition task_addr :: "tid \<Rightarrow> bool" where
  "task_addr p \<longleftrightarrow> p < 2 ^ 32 - 1"

definition wrr_inv :: "kenv \<Rightarrow> 'a ksys_scheme \<Rightarrow> bool" where
  "wrr_inv env s \<longleftrightarrow>
     distinct (wq s) \<and> (\<forall>p \<in> set (wq s). task_addr p) \<and>
     wrr_nr_running (wrr_rq_of (rq s)) = of_nat (length (wq s)) \<and>
     total_weight (wrr_rq_of (rq s)) = sum_list (map (weight_of s) (wq s)) \<and>
     (\<forall>p \<in> set (wq s). weight_of s p = group_weight env (sched_task_group (task s p)))"

lemma wrr_inv_cong:
  assumes "wrr_rq_of (rq s') = wrr_rq_of (rq s)"
    and "\<And>p. weight_of s' p = weight_of s p"
    and "\<And>p. sched_task_group (task s' p) = sched_task_group (task s p)"
  shows "wrr_inv env s' = wrr_inv env s"
  by (simp add: wrr_inv_def assms)

lemma length_wq_bound:
  assumes "wrr_inv env s"
  shows "length (wq s) < 2 ^ 32"
proof -
  from assms have "length (wq s) = card (set (wq s))" by (simp add: wrr_inv_def distinct_card)
  also have "\<dots> \<le> card {..< (2::nat) ^ 32 - 1}"
    using assms by (intro card_mono) (auto simp: wrr_inv_def task_addr_def)
  finally show ?thesis by simp
qed

lemma wrr_nr_running_0_iff:
  assumes "wrr_inv env s"
  shows "wrr_nr_running (wrr_rq_of (rq s)) = 0 \<longleftrightarrow> wq s = []"
  using assms length_wq_bound [OF assms]
  by (simp add: wrr_inv_def of_nat_eq_0_iff_small)

lemma wrr_inv_update_curr [kinv_intros]: "wrr_inv env s \<Longrightarrow> wrr_inv env (update_curr_wrr env s)"
  by (simp add: wrr_inv_def)

lemma wrr_inv_init: "wrr_inv env (init_wrr_rq s)"
  by (simp add: wrr_inv_def wrr_defs)

section \<open>Behaviour of the operations\<close>

lemma enqueue_task_wrr_effect:
  fixes s :: "'a ksys_scheme" and env p fl
  defines "s' \<equiv> enqueue_task_wrr env p fl s"
  shows "wq s' = (if fl AND ENQUEUE_HEAD \<noteq> 0 then p # wq s else wq s @ [p])"
    and "weight_of s' q = (if q = p then group_weight env (sched_task_group (task s p))
                           else weight_of s q)"
    and "slice_of s' q =
           (if q = p \<and> weight_of s p \<noteq> group_weight env (sched_task_group (task s p))
            then weight_slice env (group_weight env (sched_task_group (task s p)))
            else slice_of s q)"
    and "total_weight (wrr_rq_of (rq s')) =
           total_weight (wrr_rq_of (rq s)) + group_weight env (sched_task_group (task s p))"
    and "wrr_nr_running (wrr_rq_of (rq s')) = wrr_nr_running (wrr_rq_of (rq s)) + 1"
    and "nr_running (rq s') = nr_running (rq s) + 1"
    and "sched_task_group (task s' q) = sched_task_group (task s q)"
    and "need_resched (task s' q) = need_resched (task s q)"
  by (simp_all add: s'_def wrr_defs Let_def group_weight_def is_background_def
      weight_slice_def klist_defs)

lemma dequeue_task_wrr_effect:
  fixes s :: "'a ksys_scheme" and env p fl
  defines "s' \<equiv> dequeue_task_wrr env p fl s"
  shows "wq s' = remove1 p (wq s)"
    and "wrr (task s' q) = wrr (task s q)"
    and "total_weight (wrr_rq_of (rq s')) = total_weight (wrr_rq_of (rq s)) - weight_of s p"
    and "wrr_nr_running (wrr_rq_of (rq s')) = wrr_nr_running (wrr_rq_of (rq s)) - 1"
    and "nr_running (rq s') = nr_running (rq s) - 1"
    and "sched_task_group (task s' q) = sched_task_group (task s q)"
    and "need_resched (task s' q) = need_resched (task s q)"
  by (simp_all add: s'_def wrr_defs Let_def klist_defs)

lemma requeue_task_wrr_effect:
  "wq (requeue_task_wrr p h s) = (if h then list_move p (wq s) else list_move_tail p (wq s))"
  "task (requeue_task_wrr p h s) = task s"
  "wrr_nr_running (wrr_rq_of (rq (requeue_task_wrr p h s))) = wrr_nr_running (wrr_rq_of (rq s))"
  "total_weight (wrr_rq_of (rq (requeue_task_wrr p h s))) = total_weight (wrr_rq_of (rq s))"
  by (simp_all add: wrr_defs)

text \<open>
  The whole of \<^verbatim>\<open>task_tick_wrr\<close> on the fields it changes: the slice counts down and,
  when it reaches 0, is refilled; the task then moves to the tail and asks for a
  reschedule if another task is queued with it.
\<close>

definition slice_ends :: "'a ksys_scheme \<Rightarrow> tid \<Rightarrow> bool" where
  "slice_ends s p \<longleftrightarrow> slice_of s p = 1"

lemma task_tick_wrr_effect:
  fixes s :: "'a ksys_scheme" and env p
  assumes "distinct (wq s)"
  defines "s' \<equiv> task_tick_wrr env p s"
  defines "rot \<equiv> slice_ends s p \<and> p \<in> set (wq s) \<and> 2 \<le> length (wq s)"
  shows "wq s' = (if rot then list_move_tail p (wq s) else wq s)"
    and "need_resched (task s' q) = (need_resched (task s q) \<or> rot \<and> q = p)"
    and "slice_of s' q =
           (if q \<noteq> p then slice_of s q
            else if slice_ends s p then weight_slice env (weight_of s p) else slice_of s p - 1)"
    and "weight_of s' q = weight_of s q"
    and "sched_task_group (task s' q) = sched_task_group (task s q)"
    and "wrr_nr_running (wrr_rq_of (rq s')) = wrr_nr_running (wrr_rq_of (rq s))"
    and "total_weight (wrr_rq_of (rq s')) = total_weight (wrr_rq_of (rq s))"
  using assms(1) unfolding s'_def rot_def slice_ends_def
  by (auto simp: wrr_defs Let_def weight_slice_def list_prev_neq_next_iff)

lemma switched_to_wrr_effect:
  fixes s :: "'a ksys_scheme" and env p
  defines "s' \<equiv> switched_to_wrr env p s"
  shows "wrr_rq_of (rq s') = wrr_rq_of (rq s)"
    and "weight_of s' q =
           (if q = p \<and> on_rq (task s p) \<and> curr (rq s) \<noteq> p
            then group_weight env (sched_task_group (task s p)) else weight_of s q)"
    and "sched_task_group (task s' q) = sched_task_group (task s q)"
    and "need_resched (task s' q) =
           (need_resched (task s q) \<or> on_rq (task s p) \<and> curr (rq s) \<noteq> p \<and> q = curr (rq s))"
  by (auto simp: s'_def wrr_defs Let_def group_weight_def is_background_def)

section \<open>Every operation keeps the invariant\<close>

lemma sum_weights_cong:
  "(\<And>q. q \<in> set xs \<Longrightarrow> weight_of s' q = weight_of s q) \<Longrightarrow>
    sum_list (map (weight_of s') xs) = sum_list (map (weight_of s) xs)"
  by (rule arg_cong [of _ _ sum_list]) simp

lemma wrr_inv_enqueue [kinv_intros]:
  assumes "wrr_inv env s" "p \<notin> set (wq s)" "task_addr p"
  shows "wrr_inv env (enqueue_task_wrr env p fl s)"
proof -
  let ?s = "enqueue_task_wrr env p fl s"
  have w: "weight_of ?s q = weight_of s q" if "q \<in> set (wq s)" for q
    using that assms(2) by (auto simp: enqueue_task_wrr_effect)
  have p: "weight_of ?s p = group_weight env (sched_task_group (task s p))"
    by (simp add: enqueue_task_wrr_effect)
  show ?thesis
    using assms by (auto simp: wrr_inv_def enqueue_task_wrr_effect(1,4-7) w p
        sum_weights_cong [OF w, of "wq s"])
qed

lemma wrr_inv_dequeue [kinv_intros]:
  assumes "wrr_inv env s" "p \<in> set (wq s)"
  shows "wrr_inv env (dequeue_task_wrr env p fl s)"
proof -
  from assms(2) obtain n where n: "length (wq s) = Suc n"
    by (cases "wq s") auto
  then show ?thesis
    using assms unfolding wrr_inv_def
    by (auto simp: dequeue_task_wrr_effect sum_list_remove1 length_remove1 dest: notin_set_remove1)
qed

lemma sum_list_wq_cong:
  assumes "distinct xs" "distinct (wq s)" "set xs = set (wq s)"
  shows "sum_list (map (weight_of s) xs) = sum_list (map (weight_of s) (wq s))"
  by (rule mset_eq_sum_list [OF assms])

lemma wrr_inv_requeue [kinv_intros]:
  assumes "wrr_inv env s" "p \<in> set (wq s)"
  shows "wrr_inv env (requeue_task_wrr p h s)"
proof -
  let ?q = "if h then list_move p (wq s) else list_move_tail p (wq s)"
  have "distinct ?q" "set ?q = set (wq s)" "length ?q = length (wq s)"
    using assms by (auto simp: wrr_inv_def klist_simps)
  then show ?thesis
    using assms sum_list_wq_cong [of ?q s]
    by (auto simp: wrr_inv_def requeue_task_wrr_effect)
qed

lemma wrr_inv_yield [kinv_intros]:
  "wrr_inv env s \<Longrightarrow> curr (rq s) \<in> set (wq s) \<Longrightarrow> wrr_inv env (yield_task_wrr s)"
  by (simp add: yield_task_wrr_def wrr_inv_requeue)

lemma wrr_inv_put_prev [kinv_intros]:
  "wrr_inv env s \<Longrightarrow> wrr_inv env (put_prev_task_wrr env p s)"
  by (simp add: put_prev_task_wrr_def wrr_inv_def)

lemma wrr_inv_set_curr [kinv_intros]: "wrr_inv env s \<Longrightarrow> wrr_inv env (set_curr_task_wrr s)"
  by (simp add: set_curr_task_wrr_def wrr_inv_def)

lemma wrr_inv_fork [kinv_intros]: "wrr_inv env s \<Longrightarrow> wrr_inv env (task_fork_wrr p s)"
  by (subst wrr_inv_cong) (auto simp: task_fork_wrr_def)

lemma wrr_inv_tick [kinv_intros]:
  assumes "wrr_inv env s"
  shows "wrr_inv env (task_tick_wrr env p s)"
proof -
  have d: "distinct (wq s)" using assms by (simp add: wrr_inv_def)
  let ?q = "wq (task_tick_wrr env p s)"
  have "distinct ?q" "set ?q = set (wq s)" "length ?q = length (wq s)"
    using d by (auto simp: task_tick_wrr_effect klist_simps)
  then show ?thesis
    using assms d sum_list_wq_cong [of ?q s]
    by (auto simp: wrr_inv_def task_tick_wrr_effect)
qed

lemma wrr_inv_switched_to [kinv_intros]:
  assumes "wrr_inv env s"
  shows "wrr_inv env (switched_to_wrr env p s)"
proof -
  let ?s = "switched_to_wrr env p s"
  have w: "weight_of ?s q = weight_of s q" if "q \<in> set (wq s)" for q
    using that assms by (auto simp: switched_to_wrr_effect wrr_inv_def)
  show ?thesis
    using assms by (auto simp: wrr_inv_def switched_to_wrr_effect(1,3) w
        sum_weights_cong [OF w, of "wq s"])
qed

lemma pick_next_task_wrr_eq:
  assumes "wrr_inv env s"
  shows "pick_next_task_wrr env s = (case wq s of [] \<Rightarrow> None | p # ps \<Rightarrow> Some p, s)"
  using wrr_nr_running_0_iff [OF assms]
  by (simp add: pick_next_task_wrr_def Let_def split: list.splits)

section \<open>Reachable states of the class\<close>

text \<open>
  How the scheduler core calls the class: a task is enqueued when it is not queued and
  dequeued when it is; only a queued task yields; the current task changes to the one the
  class picked; a task changes its group while it is not queued
  (\<^verbatim>\<open>sched_move_task\<close> dequeues it first). The clock advances on its own.
\<close>

inductive wrr_step :: "kenv \<Rightarrow> 'a ksys_scheme \<Rightarrow> 'a ksys_scheme \<Rightarrow> bool" for env where
  step_enqueue: "p \<notin> set (wq s) \<Longrightarrow> task_addr p \<Longrightarrow> wrr_step env s (enqueue_task_wrr env p fl s)"
| step_dequeue: "p \<in> set (wq s) \<Longrightarrow> wrr_step env s (dequeue_task_wrr env p fl s)"
| step_yield: "curr (rq s) \<in> set (wq s) \<Longrightarrow> wrr_step env s (yield_task_wrr s)"
| step_tick: "wrr_step env s (task_tick_wrr env p s)"
| step_put_prev: "wrr_step env s (put_prev_task_wrr env p s)"
| step_set_curr: "wrr_step env s (set_curr_task_wrr s)"
| step_fork: "wrr_step env s (task_fork_wrr p s)"
| step_switched_to: "wrr_step env s (switched_to_wrr env p s)"
| step_pick: "pick_next_task_wrr env s = (Some p, s') \<Longrightarrow>
     wrr_step env s (upd_rq (\<lambda>r. r\<lparr>curr := p\<rparr>) s')"
| step_regroup: "p \<notin> set (wq s) \<Longrightarrow>
     wrr_step env s (upd_task p (\<lambda>t. t\<lparr>sched_task_group := g\<rparr>) s)"
| step_clock: "wrr_step env s (upd_rq (\<lambda>r. r\<lparr>clock_task := c\<rparr>) s)"

inductive wrr_reachable :: "kenv \<Rightarrow> 'a ksys_scheme \<Rightarrow> bool" for env where
  reach_init: "wrr_reachable env (init_wrr_rq s)"
| reach_step: "wrr_reachable env s \<Longrightarrow> wrr_step env s s' \<Longrightarrow> wrr_reachable env s'"

lemma wrr_inv_pick:
  "wrr_inv env s \<Longrightarrow> pick_next_task_wrr env s = (r, s') \<Longrightarrow>
    wrr_inv env (upd_rq (\<lambda>r. r\<lparr>curr := p\<rparr>) s')"
  by (auto simp: pick_next_task_wrr_def Let_def wrr_inv_def split: if_splits)

lemma wrr_inv_regroup:
  assumes "wrr_inv env s" "p \<notin> set (wq s)"
  shows "wrr_inv env (upd_task p (\<lambda>t. t\<lparr>sched_task_group := g\<rparr>) s)"
proof -
  let ?s = "upd_task p (\<lambda>t. t\<lparr>sched_task_group := g\<rparr>) s"
  have w: "weight_of ?s q = weight_of s q" for q by simp
  from assms show ?thesis
    unfolding wrr_inv_def w sum_weights_cong [OF w] by auto
qed

lemma wrr_inv_clock: "wrr_inv env s \<Longrightarrow> wrr_inv env (upd_rq (\<lambda>r. r\<lparr>clock_task := c\<rparr>) s)"
  by (simp add: wrr_inv_def)

lemma wrr_step_inv: "wrr_step env s s' \<Longrightarrow> wrr_inv env s \<Longrightarrow> wrr_inv env s'"
  by (induction rule: wrr_step.induct)
    (auto intro: kinv_intros wrr_inv_pick wrr_inv_regroup wrr_inv_clock)

lemma wrr_reachable_inv: "wrr_reachable env s \<Longrightarrow> wrr_inv env s"
  by (induction rule: wrr_reachable.induct) (auto intro: wrr_inv_init wrr_step_inv)

section \<open>The contract of a scheduling class\<close>

text \<open>Every queued task of this class is runnable.\<close>

interpretation wrr_cls: queue_contract "wrr_sched_class_ops env" "wrr_inv env"
  "\<lambda>s. set (wq s)" "\<lambda>s. set (wq s)" "\<lambda>p s. task_addr p"
  for env :: kenv
proof unfold_locales
  fix s s' :: "'a ksys_scheme" and p :: tid and fl :: u32
  assume inv: "wrr_inv env s"
  note pick = pick_next_task_wrr_eq [OF inv]
  show "\<exists>r s'. pick_next_task_op (wrr_sched_class_ops env) s = Some (r, s')"
    by (simp add: wrr_sched_class_ops_def pick)
  show "pick_next_task_op (wrr_sched_class_ops env) s = Some (None, s') \<Longrightarrow> set (wq s) = {} \<and> s' = s"
    by (simp add: wrr_sched_class_ops_def pick split: list.splits)
  show "pick_next_task_op (wrr_sched_class_ops env) s = Some (Some p, s') \<Longrightarrow>
      p \<in> set (wq s) \<and> wrr_inv env s'"
    using inv by (auto simp: wrr_sched_class_ops_def pick split: list.splits)
  show "task_addr p \<Longrightarrow> p \<notin> set (wq s) \<Longrightarrow>
      wrr_inv env (enqueue_task_op (wrr_sched_class_ops env) p fl s)"
    using inv by (simp add: wrr_sched_class_ops_def wrr_inv_enqueue)
  show "p \<in> set (wq s) \<Longrightarrow> wrr_inv env (dequeue_task_op (wrr_sched_class_ops env) p fl s)"
    using inv by (simp add: wrr_sched_class_ops_def wrr_inv_dequeue)
  have "distinct (wq s)" "\<forall>p\<in>set (wq s). task_addr p" using inv by (simp_all add: wrr_inv_def)
  then show "p \<in> set (wq s) \<Longrightarrow>
      set (wq (dequeue_task_op (wrr_sched_class_ops env) p fl s)) = set (wq s) - {p}"
    and "p \<in> set (wq s) \<Longrightarrow> task_addr p"
    by (simp_all add: wrr_sched_class_ops_def dequeue_task_wrr_effect)
qed (simp_all add: wrr_sched_class_ops_def enqueue_task_wrr_effect)

section \<open>Running a time slice\<close>

text \<open>What a number of ticks that does not use up the slice does to the class state.\<close>

definition same_but_slice :: "tid \<Rightarrow> nat \<Rightarrow> 'a ksys_scheme \<Rightarrow> 'a ksys_scheme \<Rightarrow> bool" where
  "same_but_slice p n s s' \<longleftrightarrow>
     wq s' = wq s \<and> slice_of s' p = slice_of s p - of_nat n \<and>
     (\<forall>q. q \<noteq> p \<longrightarrow> slice_of s' q = slice_of s q) \<and>
     (\<forall>q. weight_of s' q = weight_of s q) \<and>
     (\<forall>q. need_resched (task s' q) = need_resched (task s q))"

lemma of_nat_pred_neq_1:
  assumes "Suc n < unat (w :: u32)"
  shows "w - of_nat n \<noteq> 1"
proof
  assume "w - of_nat n = 1"
  then have "w = of_nat (Suc n)" by (simp add: algebra_simps)
  with assms have "Suc n < unat (of_nat (Suc n) :: u32)" by simp
  also have "\<dots> \<le> Suc n" by (simp only: unat_of_nat mod_less_eq_dividend)
  finally show False by simp
qed

lemma task_tick_wrr_below:
  assumes "distinct (wq s)" "n < unat (slice_of s p)"
  shows "same_but_slice p n s ((task_tick_wrr env p ^^ n) s)"
  using assms(2)
proof (induction n)
  case 0
  then show ?case by (simp add: same_but_slice_def)
next
  case (Suc n)
  let ?t = "(task_tick_wrr env p ^^ n) s"
  from Suc have t: "same_but_slice p n s ?t" by simp
  then have d: "distinct (wq ?t)" using assms(1) by (simp add: same_but_slice_def)
  have "\<not> slice_ends ?t p"
    using t of_nat_pred_neq_1 [OF Suc.prems] by (simp add: slice_ends_def same_but_slice_def)
  with t show ?case
    by (simp add: same_but_slice_def task_tick_wrr_effect [OF d])
qed

text \<open>A slice of 0 wraps around and then lasts for the whole range of the counter.\<close>

lemma task_tick_wrr_zero:
  assumes "distinct (wq s)" "slice_of s p = 0" "n < 2 ^ 32"
  shows "same_but_slice p n s ((task_tick_wrr env p ^^ n) s)"
proof (cases n)
  case 0
  then show ?thesis by (simp add: same_but_slice_def)
next
  case (Suc m)
  let ?t = "task_tick_wrr env p s"
  have e: "\<not> slice_ends s p" using assms(2) by (simp add: slice_ends_def)
  have d: "distinct (wq ?t)" using assms(1) e by (simp add: task_tick_wrr_effect)
  have "slice_of ?t p = - 1" using assms(1,2) e by (simp add: task_tick_wrr_effect)
  moreover have "unat (- 1 :: u32) = 2 ^ 32 - 1" by (simp add: unsigned_minus_1_eq_mask mask_eq_exp_minus_1)
  ultimately have "m < unat (slice_of ?t p)" using assms(3) Suc by simp
  from task_tick_wrr_below [OF d this, of env] show ?thesis
    using assms(1) e Suc
    by (simp add: same_but_slice_def task_tick_wrr_effect funpow_Suc_right algebra_simps
        del: funpow.simps)
qed

lemma task_tick_wrr_slice:
  fixes s :: "'a ksys_scheme" and env p
  assumes "distinct (wq s)" "wq s = p # ps" "ps \<noteq> []" "slice_of s p \<noteq> 0"
  defines "s' \<equiv> (task_tick_wrr env p ^^ unat (slice_of s p)) s"
  shows "wq s' = ps @ [p]" "need_resched (task s' p)"
    and "slice_of s' p = weight_slice env (weight_of s p)"
    and "q \<noteq> p \<Longrightarrow> slice_of s' q = slice_of s q"
    and "weight_of s' q = weight_of s q"
proof -
  obtain n where n: "unat (slice_of s p) = Suc n"
    using assms(4) by (metis not0_implies_Suc unat_eq_zero)
  let ?t = "(task_tick_wrr env p ^^ n) s"
  have t: "same_but_slice p n s ?t"
    using task_tick_wrr_below [OF assms(1), of n p env] n by simp
  then have d: "distinct (wq ?t)" using assms(1) by (simp add: same_but_slice_def)
  have "slice_of s p = of_nat (Suc n)" using n by (metis of_nat_unat ucast_id)
  then have e: "slice_ends ?t p" using t by (simp add: slice_ends_def same_but_slice_def)
  have s': "s' = task_tick_wrr env p ?t" by (simp add: s'_def n)
  from t assms(2) have q: "wq ?t = p # ps" by (simp add: same_but_slice_def)
  note eff = task_tick_wrr_effect [OF d, of env p, folded s']
  have "2 \<le> length (wq ?t)" using q assms(3) by (cases ps) auto
  with e q show "wq s' = ps @ [p]" "need_resched (task s' p)"
    by (auto simp: eff klist_simps)
  show "slice_of s' p = weight_slice env (weight_of s p)"
    using e t by (simp add: eff same_but_slice_def)
  show "q \<noteq> p \<Longrightarrow> slice_of s' q = slice_of s q"
    using t by (simp add: eff same_but_slice_def)
  show "weight_of s' q = weight_of s q"
    using t by (simp add: eff same_but_slice_def)
qed

section \<open>A round of the scheduler\<close>

text \<open>
  The task the class picks becomes the current one and runs until its slice is used up.
  \<open>slices\<close> lists who ran for how many ticks in \<open>n\<close> such turns.
\<close>

definition run_slice :: "kenv \<Rightarrow> 'a ksys_scheme \<Rightarrow> 'a ksys_scheme" where
  "run_slice env s =
     (case pick_next_task_wrr env s of
        (None, s') \<Rightarrow> s'
      | (Some p, s') \<Rightarrow>
          (task_tick_wrr env p ^^ unat (slice_of s' p)) (upd_rq (\<lambda>r. r\<lparr>curr := p\<rparr>) s'))"

primrec slices :: "kenv \<Rightarrow> nat \<Rightarrow> 'a ksys_scheme \<Rightarrow> (tid \<times> nat) list" where
  "slices env 0 s = []"
| "slices env (Suc n) s =
     (case fst (pick_next_task_wrr env s) of
        None \<Rightarrow> []
      | Some p \<Rightarrow> (p, unat (slice_of s p)) # slices env n (run_slice env s))"

lemma wrr_inv_ticks [kinv_intros]:
  "wrr_inv env s \<Longrightarrow> wrr_inv env ((task_tick_wrr env p ^^ n) s)"
  by (induction n) (auto intro: kinv_intros)

lemma wrr_inv_curr: "wrr_inv env (upd_rq (\<lambda>r. r\<lparr>curr := p\<rparr>) s) = wrr_inv env s"
  by (rule wrr_inv_cong) simp_all

lemma wrr_inv_run_slice [kinv_intros]: "wrr_inv env s \<Longrightarrow> wrr_inv env (run_slice env s)"
  by (cases "wq s") (simp_all add: run_slice_def pick_next_task_wrr_eq wrr_inv_ticks wrr_inv_curr)

lemma wrr_inv_rounds [kinv_intros]: "wrr_inv env s \<Longrightarrow> wrr_inv env ((run_slice env ^^ n) s)"
  by (induction n) (auto intro: kinv_intros)

lemma unat_timeslices:
  assumes "HZ env < 2 ^ 32"
  shows "unat (WRR_BG_TIMESLICE env) = HZ env div 100"
    and "unat (WRR_FG_TIMESLICE env) = HZ env div 10"
proof -
  have d: "10 * HZ env div 1000 = HZ env div 100" "100 * HZ env div 1000 = HZ env div 10"
    using div_mult_mult1 [of 10 "HZ env" 100] div_mult_mult1 [of 100 "HZ env" 10] by simp_all
  have "HZ env div 100 < 2 ^ 32" "HZ env div 10 < 2 ^ 32"
    using assms by (auto intro: le_less_trans [OF div_le_dividend])
  then show "unat (WRR_BG_TIMESLICE env) = HZ env div 100"
    and "unat (WRR_FG_TIMESLICE env) = HZ env div 10"
    by (simp_all add: WRR_BG_TIMESLICE_def WRR_FG_TIMESLICE_def d unat_of_nat)
qed

lemma run_slice_head:
  fixes s :: "'a ksys_scheme" and env
  assumes inv: "wrr_inv env s" and q: "wq s = p # ps" "ps \<noteq> []" and nz: "slice_of s p \<noteq> 0"
  defines "s' \<equiv> run_slice env s"
  shows "wrr_inv env s'" "wq s' = ps @ [p]"
    and "slice_of s' x = (if x = p then weight_slice env (weight_of s p) else slice_of s x)"
    and "weight_of s' x = weight_of s x"
proof -
  let ?t = "upd_rq (\<lambda>r. r\<lparr>curr := p\<rparr>) s"
  have s': "s' = (task_tick_wrr env p ^^ unat (slice_of ?t p)) ?t"
    using q by (simp add: s'_def run_slice_def pick_next_task_wrr_eq [OF inv])
  have inv_t: "wrr_inv env ?t" using inv by (simp add: wrr_inv_def)
  have "distinct (wq ?t)" "wq ?t = p # ps" "slice_of ?t p \<noteq> 0"
    using inv q nz by (auto simp: wrr_inv_def)
  note slice = task_tick_wrr_slice [OF this(1,2) q(2) this(3), where env = env, folded s']
  show "wrr_inv env s'" unfolding s' using inv_t by (rule wrr_inv_ticks)
  show "wq s' = ps @ [p]" by (rule slice)
  show "slice_of s' x = (if x = p then weight_slice env (weight_of s p) else slice_of s x)"
    using slice(3,4) by simp
  show "weight_of s' x = weight_of s x" using slice(5) by simp
qed

lemma round_prefix:
  assumes "wrr_inv env s" "wq s = xs @ ys" "2 \<le> length (wq s)"
    and "\<forall>p \<in> set xs. slice_of s p \<noteq> 0"
  shows "slices env (length xs) s = map (\<lambda>p. (p, unat (slice_of s p))) xs \<and>
         wq ((run_slice env ^^ length xs) s) = ys @ xs \<and>
         (\<forall>p. slice_of ((run_slice env ^^ length xs) s) p =
              (if p \<in> set xs then weight_slice env (weight_of s p) else slice_of s p)) \<and>
         (\<forall>p. weight_of ((run_slice env ^^ length xs) s) p = weight_of s p)"
  using assms
proof (induction xs arbitrary: s ys)
  case Nil
  then show ?case by simp
next
  case (Cons x xs)
  let ?s = "run_slice env s"
  have q: "wq s = x # (xs @ ys)" "xs @ ys \<noteq> []" "slice_of s x \<noteq> 0"
    using Cons.prems by auto
  note head = run_slice_head [OF Cons.prems(1) q]
  have x: "x \<notin> set xs" using Cons.prems(1,2) by (simp add: wrr_inv_def)
  have nz: "\<forall>p \<in> set xs. slice_of ?s p \<noteq> 0" using Cons.prems(4) x by (auto simp: head(3))
  have "wq ?s = xs @ (ys @ [x])" "2 \<le> length (wq ?s)" using Cons.prems(3) q by (simp_all add: head(2))
  note IH = Cons.IH [OF head(1) this nz]
  have pick: "fst (pick_next_task_wrr env s) = Some x"
    using q by (simp add: pick_next_task_wrr_eq [OF Cons.prems(1)])
  have "map (\<lambda>p. (p, unat (slice_of ?s p))) xs = map (\<lambda>p. (p, unat (slice_of s p))) xs"
    using x by (auto simp: head(3))
  then show ?case
    using IH x by (auto simp: pick funpow_Suc_right head(3,4) simp del: funpow.simps)
qed

end
