(* ===== verification/Sched_Example.thy ===== *)
theory Sched_Example
  imports Sched_Types
begin

text \<open>
  Concrete instances for evaluating the model: an environment with a timer frequency of
  100, two task groups (the root group with path \<^verbatim>\<open>/\<close> and the group
  \<open>[1]\<close> with path \<^verbatim>\<open>/bg_non_interactive\<close>), and states built from a few
  tasks.
\<close>

definition ex_cgroup_path :: "cgrp option \<Rightarrow> string \<Rightarrow> int \<times> string" where
  "ex_cgroup_path g buf =
     (0, case g of None \<Rightarrow> buf | Some [] \<Rightarrow> ''/'' | Some [n] \<Rightarrow>
           (if n = 1 then ''/bg_non_interactive'' else ''/apps'') | Some _ \<Rightarrow> ''/apps/x'')"

text \<open>A bit search that scans the bitmap from bit 0; bit 100 is the delimiter.\<close>

fun ex_scan_bits :: "(nat \<Rightarrow> bool) \<Rightarrow> nat \<Rightarrow> nat list \<Rightarrow> nat" where
  "ex_scan_bits b d [] = d"
| "ex_scan_bits b d (i # is) = (if b i then i else ex_scan_bits b d is)"

definition ex_first_bit :: "(nat \<Rightarrow> bool) \<Rightarrow> nat" where
  "ex_first_bit b = ex_scan_bits b 100 [0..<100]"

definition ex_env :: kenv where
  "ex_env =
     \<lparr>HZ = 100, autogroup_path = (\<lambda>tg buf. (0, buf)), cgroup_path = ex_cgroup_path,
      css_cgroup = Some, stack_buf = replicate 128 CHR ''x'', wrr_head_entry = 4294967295,
      cpuacct_active = True, task_ca = (\<lambda>p. Some [1]),
      sched_find_first_bit = ex_first_bit, rlim_cur = (\<lambda>r p. NOT 0), rlim_max = (\<lambda>r p. NOT 0),
      capable_sys_nice = False, task_cred = (\<lambda>p. \<lparr>user_ns = 0, uid = 1000, euid = 1000\<rparr>),
      security_task_setscheduler = (\<lambda>p. Inr ()), security_task_getscheduler = (\<lambda>p. Inr ()),
      security_task_setnice = (\<lambda>p n. Inr ()), signal_pending = (\<lambda>p. False),
      fatal_signal_pending = (\<lambda>p. False), rt_mutex_getprio = (\<lambda>p pr. pr),
      find_task_by_vpid = (\<lambda>n. if 1 \<le> n \<and> n < 100 then Some (nat n) else None),
      wq_worker_sleeping = (\<lambda>p. None), pi_blocked = (\<lambda>p. False),
      blk_needs_flush_plug = (\<lambda>p. False), preempt_active = (\<lambda>p. False), task_group_is_autogroup = (\<lambda>g. False)\<rparr>"

definition ex_task :: task_struct where
  "ex_task =
     \<lparr>pid = 1, t_state = 0, t_flags = 0, on_rq = False, prio = 120, static_prio = 120,
      normal_prio = 120, rt_priority = 0, sched_class = fair_sched_class,
      se = \<lparr>se_load = \<lparr>lw_weight = 1024, lw_inv_weight = 4194304\<rparr>, se_on_rq = False,
            exec_start = 0, sum_exec_runtime = 0, vruntime = 0, prev_sum_exec_runtime = 0,
            nr_migrations = 0, exec_max = 0, nr_wakeups = 0, nr_wakeups_sync = 0\<rparr>,
      rt = \<lparr>rt_timeout = 0, rt_time_slice = 10, rt_nr_cpus_allowed = 1, rt_parent = None,
            rt_rq_of = []\<rparr>,
      wrr = \<lparr>weight = 0, time_slice = 0\<rparr>,
      sched_task_group = [], policy = SCHED_NORMAL, sched_reset_on_fork = False,
      need_resched = False, t_mm = None, active_mm = None, nvcsw = 0, nivcsw = 0,
      in_iowait = False, sched_exp = 0\<rparr>"

definition ex_rt_rq :: rt_rq where
  "ex_rt_rq =
     \<lparr>rt_queue = (\<lambda>i. []), rt_bitmap = (\<lambda>i. i = 100), rt_nr_running = 0, highest_prio = 100,
      rt_throttled = False, rt_time = 0, rt_runtime = 0, rt_nr_boosted = 0\<rparr>"

definition ex_rq :: rq where
  "ex_rq =
     \<lparr>nr_running = 0, cpu_load = [0, 0, 0, 0, 0], last_load_update_tick = 0,
      skip_clock_update = 0, rq_load = \<lparr>lw_weight = 0, lw_inv_weight = 0\<rparr>,
      nr_load_updates = 0, nr_switches = 0, cfs_h_nr_running = 0,
      wrr_rq_of = \<lparr>queue = [], wrr_nr_running = 0, total_weight = 0\<rparr>,
      leaf_rt_rq_list = [], nr_uninterruptible = 0, curr = 0, idle = 0, stop = None,
      prev_mm = None, rq_clock = 0, clock_task = 0, nr_iowait = 0, calc_load_update_rq = 0,
      calc_load_active = 0, yld_count = 0, sched_count = 0, ttwu_count = 0\<rparr>"

definition ex_ksys :: ksys where
  "ex_ksys =
     \<lparr>task = (\<lambda>p. ex_task), rq = ex_rq, rt_rqs = (\<lambda>g. ex_rt_rq),
      rt_bws = (\<lambda>g. \<lparr>rt_period = 1000000000, rtb_runtime = 950000000, rt_timer_active = False\<rparr>),
      cpuusage = (\<lambda>g. 0), jiffies = 0, sclock = 0, sysctl_sched_rt_period = 1000000,
      sysctl_sched_rt_runtime = 950000, calc_load_tasks = 0, calc_load_update = 0,
      avenrun = [0, 0, 0], calc_load_idle = [0, 0], calc_load_idx = 0, events = []\<rparr>"

lemmas ex_defs = ex_env_def ex_cgroup_path_def ex_task_def ex_rt_rq_def ex_rq_def ex_ksys_def

end
