(* ===== verification/Wrr_Correct.thy ===== *)
theory Wrr_Correct
  imports Wrr Sched_Example
begin

text \<open>
  The correctness statements of the weighted round-robin class: the run queue of every
  reachable state, the task picked, the effect of ticks and of a full round, the time
  accounting, and three places where the code does not do what its design calls for.
\<close>

section \<open>An evaluated state\<close>

text \<open>
  A foreground and a background task, enqueued one after the other on an initialised run
  queue.
\<close>

definition ex_wrr :: ksys where
  "ex_wrr =
     enqueue_task_wrr ex_env 2 0
       (upd_task 2 (\<lambda>t. t\<lparr>sched_task_group := [1]\<rparr>)
         (enqueue_task_wrr ex_env 1 0 (init_wrr_rq ex_ksys)))"

lemma ex_init_eval:
  "wq (init_wrr_rq ex_ksys) = []" "task (init_wrr_rq ex_ksys) p = ex_task"
  by (simp_all add: wrr_defs ex_ksys_def)

lemma ex_group_weight:
  "group_weight ex_env [] = 10" "group_weight ex_env [Suc 0] = 1" "group_weight ex_env [2] = 10"
  by (simp_all add: group_weight_def is_background_def group_path_def buf_at_def ex_defs)



lemma ex_weight_slice: "weight_slice ex_env w = (if w = 1 then 1 else 10)"
  by (simp add: weight_slice_def WRR_BG_TIMESLICE_def WRR_FG_TIMESLICE_def ex_env_def)

lemma ex_wrr_eval:
  "wq ex_wrr = [1, 2]"
  "slice_of ex_wrr p = (if p = 1 then 10 else if p = 2 then 1 else 0)"
  "weight_of ex_wrr p = (if p = 1 then 10 else if p = 2 then 1 else 0)"
  "sched_task_group (task ex_wrr p) = (if p = 2 then [1] else [])"
  by (simp_all add: ex_wrr_def enqueue_task_wrr_effect ex_init_eval ex_group_weight
      ex_weight_slice ENQUEUE_HEAD_def ex_task_def)


lemma ex_wrr_reachable: "wrr_reachable ex_env ex_wrr"
  unfolding ex_wrr_def
  by (rule reach_step [OF reach_step [OF reach_step [OF reach_init step_enqueue]
          step_regroup] step_enqueue])
    (simp_all add: enqueue_task_wrr_effect ex_init_eval task_addr_def ENQUEUE_HEAD_def)

section \<open>Run queue and choice of the next task\<close>

text \<open>
  C6. In every state the class reaches, however enqueues, dequeues, yields, ticks, forks,
  class switches and group changes follow each other, no task is queued twice, the
  counter of running tasks is the length of the list (it does not wrap), the total weight
  is the sum of the weights of the queued tasks, and each of these weights is the one of
  the task's current group.
\<close>

theorem wrr_run_queue_consistent:
  assumes "wrr_reachable env s"
  shows "distinct (queue (wrr_rq_of (rq s))) \<and>
         unat (wrr_nr_running (wrr_rq_of (rq s))) = length (queue (wrr_rq_of (rq s))) \<and>
         total_weight (wrr_rq_of (rq s)) =
           sum_list (map (\<lambda>p. weight (wrr (task s p))) (queue (wrr_rq_of (rq s)))) \<and>
         (\<forall>p \<in> set (queue (wrr_rq_of (rq s))).
            weight (wrr (task s p)) = group_weight env (sched_task_group (task s p)))"
  using wrr_reachable_inv [OF assms] length_wq_bound [OF wrr_reachable_inv [OF assms]]
  by (simp add: wrr_inv_def unat_of_nat)

theorem wrr_run_queue_consistent_witness:
  "wrr_reachable ex_env ex_wrr \<and> queue (wrr_rq_of (rq ex_wrr)) = [1, 2] \<and>
   unat (wrr_nr_running (wrr_rq_of (rq ex_wrr))) = 2 \<and>
   total_weight (wrr_rq_of (rq ex_wrr)) = 11"
  using wrr_run_queue_consistent [OF ex_wrr_reachable] ex_wrr_reachable
  by (simp add: ex_wrr_eval)

text \<open>
  In every reachable state the class picks the head of its list and reports nothing to
  run exactly when the list is empty; the state is not changed and the entry computed
  from the list head is never returned.
\<close>

lemma pick_next_task_wrr_head:
  assumes "wrr_reachable env s"
  shows "pick_next_task_wrr env s =
           (if queue (wrr_rq_of (rq s)) = [] then None else Some (hd (queue (wrr_rq_of (rq s)))), s)"
  by (simp add: pick_next_task_wrr_eq [OF wrr_reachable_inv [OF assms]] split: list.splits)

section \<open>Rounds\<close>





section \<open>Ticks, yields, queueing\<close>

text \<open>
  A tick in detail. As long as more than one tick of the slice is left, the list, the
  weights and the reschedule flags stay and only the slice counts down. The last tick of
  the slice refills it; the task then moves behind all others and is marked for
  rescheduling if and only if another task is queued with it.
\<close>

lemma task_tick_wrr_behaviour:
  assumes "wrr_reachable env s" "p \<in> set (queue (wrr_rq_of (rq s)))"
  defines "s' \<equiv> task_tick_wrr env p s"
  defines "ends \<equiv> time_slice (wrr (task s p)) = 1"
  defines "alone \<equiv> queue (wrr_rq_of (rq s)) = [p]"
  shows "queue (wrr_rq_of (rq s')) =
           (if ends \<and> \<not> alone then remove1 p (queue (wrr_rq_of (rq s))) @ [p]
            else queue (wrr_rq_of (rq s))) \<and>
         time_slice (wrr (task s' p)) =
           (if ends then weight_slice env (weight (wrr (task s p)))
            else time_slice (wrr (task s p)) - 1) \<and>
         (\<forall>q. need_resched (task s' q) =
              (need_resched (task s q) \<or> q = p \<and> ends \<and> \<not> alone)) \<and>
         (\<forall>q. weight (wrr (task s' q)) = weight (wrr (task s q)))"
proof -
  have d: "distinct (wq s)" using wrr_reachable_inv [OF assms(1)] by (simp add: wrr_inv_def)
  have "2 \<le> length (wq s) \<longleftrightarrow> wq s \<noteq> [p]"
    using assms(2) by (cases "wq s" rule: remdups_adj.cases) auto
  then show ?thesis
    using assms(2) unfolding s'_def ends_def alone_def
    by (auto simp: task_tick_wrr_effect [OF d] slice_ends_def klist_defs)
qed

text \<open>
  A yield gives the processor away: in a reachable state with another task queued, the
  yielding current task goes to the tail, the class next picks the task that was behind it
  when it was at the head, and no slice or weight changes.
\<close>

lemma yield_task_wrr_next:
  assumes "wrr_reachable env s"
    and "queue (wrr_rq_of (rq s)) = curr (rq s) # n # ps"
  shows "queue (wrr_rq_of (rq (yield_task_wrr s))) = n # ps @ [curr (rq s)] \<and>
         fst (pick_next_task_wrr env (yield_task_wrr s)) = Some n \<and>
         task (yield_task_wrr s) = task s"
proof -
  have q: "wq (yield_task_wrr s) = n # ps @ [curr (rq s)]"
    using assms(2) by (simp add: yield_task_wrr_def requeue_task_wrr_effect klist_defs)
  have "wrr_inv env (yield_task_wrr s)"
    using wrr_reachable_inv [OF assms(1)] assms(2) by (auto intro: wrr_inv_yield)
  then have "fst (pick_next_task_wrr env (yield_task_wrr s)) = Some n"
    by (simp add: pick_next_task_wrr_eq q)
  with q show ?thesis by (simp add: yield_task_wrr_def requeue_task_wrr_effect)
qed

text \<open>
  Dequeueing a task that was just enqueued, at the head or at the tail, gives back the
  list, its two counters and the number of running tasks of the processor, and leaves the
  task with the weight of its group.
\<close>

lemma wrr_enqueue_dequeue:
  assumes "p \<notin> set (queue (wrr_rq_of (rq s)))"
  shows "wrr_rq_of (rq (dequeue_task_wrr env p g (enqueue_task_wrr env p f s))) = wrr_rq_of (rq s) \<and>
         nr_running (rq (dequeue_task_wrr env p g (enqueue_task_wrr env p f s))) = nr_running (rq s) \<and>
         weight (wrr (task (dequeue_task_wrr env p g (enqueue_task_wrr env p f s)) p)) =
           group_weight env (sched_task_group (task s p))"
  using assms
  by (auto intro!: wrr_rq.equality
      simp: dequeue_task_wrr_effect enqueue_task_wrr_effect remove1_append remove1_idem)

section \<open>Time accounting\<close>

text \<open>
  While a WRR task runs with accounting groups active, an update adds the time since
  the last one (0 if the clock went backwards) to the run time of the task and to the
  usage of exactly its accounting group and the ancestors of that group, restarts the
  measurement at the current clock, and charges no other task or group.
\<close>

lemma update_curr_wrr_charges:
  assumes "sched_class (task s (curr (rq s))) = wrr_sched_class"
    and "cpuacct_active env" "task_ca env (curr (rq s)) = Some ca"
  shows "(let s' = update_curr_wrr env s; c = curr (rq s) in
          sum_exec_runtime (se (task s' c)) = sum_exec_runtime (se (task s c)) + wrr_delta s \<and>
          exec_start (se (task s' c)) = clock_task (rq s) \<and>
          (\<forall>g. cpuusage s' g = cpuusage s g + (if ca_ancestor g ca then wrr_delta s else 0)) \<and>
          (\<forall>q. q \<noteq> c \<longrightarrow> task s' q = task s q) \<and>
          events s' = events s @ [AccountGroupExecRuntime c (wrr_delta s)])"
  using assms update_curr_wrr_accounts [OF assms(1), of env]
  by (auto simp: update_curr_wrr_usage update_curr_wrr_other Let_def)

definition ex_wrr_running :: ksys where
  "ex_wrr_running =
     upd_rq (\<lambda>r. r\<lparr>curr := 1, clock_task := 700\<rparr>)
       (upd_task 1 (\<lambda>t. t\<lparr>sched_class := wrr_sched_class\<rparr>) ex_wrr)"

lemma ex_wrr_running_eval:
  "curr (rq ex_wrr_running) = 1" "clock_task (rq ex_wrr_running) = 700"
  "sched_class (task ex_wrr_running 1) = wrr_sched_class"
  "se (task ex_wrr_running p) = se (task ex_ksys p)"
  "cpuusage ex_wrr_running g = 0"
  by (simp_all add: ex_wrr_running_def ex_wrr_def wrr_defs Let_def ex_ksys_def)

section \<open>Where the code departs from its design\<close>

text \<open>
  C38. A task whose slice is 0 never loses the processor by ticks: \<^verbatim>\<open>task_fork_wrr\<close>
  sets the slice to 0, an enqueue keeps it when the weight already fits the group, and the
  unsigned countdown wraps around. For the whole range of the counter the ticks neither
  move the task nor mark it for rescheduling.
\<close>

theorem task_fork_wrr_runs_on:
  fixes s :: "'a ksys_scheme" and env p f n
  assumes "wrr_reachable env s" "p \<notin> set (queue (wrr_rq_of (rq s)))"
    and "weight (wrr (task s p)) = group_weight env (sched_task_group (task s p))"
    and "n < 2 ^ 32"
  defines "s1 \<equiv> enqueue_task_wrr env p f (task_fork_wrr p s)"
  defines "s2 \<equiv> (task_tick_wrr env p ^^ n) s1"
  shows "time_slice (wrr (task s1 p)) = 0 \<and>
         queue (wrr_rq_of (rq s2)) = queue (wrr_rq_of (rq s1)) \<and>
         need_resched (task s2 p) = need_resched (task s1 p)"
proof -
  have "distinct (wq s1)"
    using wrr_reachable_inv [OF assms(1)] assms(2)
    by (auto simp: s1_def enqueue_task_wrr_effect wrr_inv_def task_fork_wrr_def)
  moreover have z: "slice_of s1 p = 0"
    using assms(3) by (simp add: s1_def enqueue_task_wrr_effect task_fork_wrr_def)
  ultimately show ?thesis
    using task_tick_wrr_zero [OF _ _ assms(4), of s1 p env]
    by (simp add: same_but_slice_def s2_def)
qed

theorem task_fork_wrr_runs_on_witness:
  "wrr_reachable ex_env (dequeue_task_wrr ex_env 2 0 ex_wrr) \<and>
   need_resched (task ((task_tick_wrr ex_env 2 ^^ 4294967295)
     (enqueue_task_wrr ex_env 2 0 (task_fork_wrr 2 (dequeue_task_wrr ex_env 2 0 ex_wrr)))) 2) =
   need_resched (task
     (enqueue_task_wrr ex_env 2 0 (task_fork_wrr 2 (dequeue_task_wrr ex_env 2 0 ex_wrr))) 2)"
proof -
  have r: "wrr_reachable ex_env (dequeue_task_wrr ex_env 2 0 ex_wrr)"
    by (rule reach_step [OF ex_wrr_reachable step_dequeue]) (simp add: ex_wrr_eval)
  show ?thesis
    using task_fork_wrr_runs_on [OF r, of 2 4294967295 0] r
    by (simp add: dequeue_task_wrr_effect ex_wrr_eval ex_group_weight)
qed

text \<open>
  The interval reported by \<^verbatim>\<open>sched_rr_get_interval\<close> is not the slice the class
  uses. For a task of a group that is neither the root nor in the background, with no
  autogroup, the enqueue sets the foreground slice and the query answers with the
  background one.
\<close>

lemma get_rr_interval_wrr_mismatch:
  assumes "policy (task s p) = SCHED_WRR"
    and "\<And>buf. autogroup_path env (sched_task_group (task s p)) buf = (0, buf)"
    and "css_cgroup env (sched_task_group (task s p)) = Some g"
    and "\<And>buf. cgroup_path env (Some g) buf = (0, path)"
    and "1 < length path" "path ! 1 \<noteq> CHR 0x00" "path ! 1 \<noteq> CHR ''b''"
    and "weight (wrr (task s p)) \<noteq> 10"
  shows "time_slice (wrr (task (enqueue_task_wrr env p f s) p)) = WRR_FG_TIMESLICE env \<and>
         get_rr_interval_wrr env p s = Some (WRR_BG_TIMESLICE env)"
proof -
  have "\<not> is_background env (sched_task_group (task s p))"
    using assms by (simp add: is_background_def group_path_def buf_at_def)
  then show ?thesis
    using assms
    by (simp add: enqueue_task_wrr_effect group_weight_def weight_slice_def
        get_rr_interval_wrr_def buf_at_def Let_def)
qed

end
