(* ===== verification/Load_Avg.thy ===== *)
theory Load_Avg
  imports Complex_Main Sched_Types Sched_Example "HOL-Library.Signed_Division"
begin

text \<open>
  The load statistics of \<^verbatim>\<open>sched/core.c\<close>: the counters summed over the
  processors (here one), the global load average with its tick-less idle corrections,
  and the per-processor \<^verbatim>\<open>cpu_load\<close> array. Load averages are fixed-point numbers
  with 11 fractional bits in 32-bit words.
\<close>

section \<open>Counters\<close>

definition nr_running_all :: "'a ksys_scheme \<Rightarrow> ulong" where
  "nr_running_all s = nr_running (rq s)"

definition nr_uninterruptible_all :: "'a ksys_scheme \<Rightarrow> ulong" where
  "nr_uninterruptible_all s =
     (let sum = nr_uninterruptible (rq s) in if sum <s 0 then 0 else sum)"

definition nr_context_switches :: "'a ksys_scheme \<Rightarrow> u64" where
  "nr_context_switches s = nr_switches (rq s)"

definition nr_iowait_all :: "'a ksys_scheme \<Rightarrow> ulong" where
  "nr_iowait_all s = of_int (nr_iowait (rq s))"

definition nr_iowait_cpu :: "'a ksys_scheme \<Rightarrow> ulong" where
  "nr_iowait_cpu s = of_int (nr_iowait (rq s))"

definition this_cpu_load :: "'a ksys_scheme \<Rightarrow> ulong" where
  "this_cpu_load s = cpu_load (rq s) ! 0"

section \<open>Global load average\<close>

definition FSHIFT :: nat where "FSHIFT = 11"
definition FIXED_1 :: ulong where "FIXED_1 = push_bit FSHIFT 1"
definition LOAD_FREQ :: "kenv \<Rightarrow> ulong" where "LOAD_FREQ env = of_nat (5 * HZ env + 1)"
definition EXP_1 :: ulong where "EXP_1 = 1884"
definition EXP_5 :: ulong where "EXP_5 = 2014"
definition EXP_15 :: ulong where "EXP_15 = 2037"

text \<open>\<^verbatim>\<open>time_before\<close> of \<^verbatim>\<open><linux/jiffies.h>\<close>.\<close>

definition time_before :: "ulong \<Rightarrow> ulong \<Rightarrow> bool" where
  "time_before a b \<longleftrightarrow> a - b <s 0"

definition get_avenrun :: "ulong \<Rightarrow> nat \<Rightarrow> 'a ksys_scheme \<Rightarrow> ulong list" where
  "get_avenrun offset shift s =
     [push_bit shift (avenrun s ! 0 + offset), push_bit shift (avenrun s ! 1 + offset),
      push_bit shift (avenrun s ! 2 + offset)]"

definition calc_load_fold_active :: "'a ksys_scheme \<Rightarrow> ulong \<times> 'a ksys_scheme" where
  "calc_load_fold_active s =
     (let nr_active = nr_running (rq s) + nr_uninterruptible (rq s) in
      if nr_active \<noteq> calc_load_active (rq s)
      then (nr_active - calc_load_active (rq s), upd_rq (\<lambda>r. r\<lparr>calc_load_active := nr_active\<rparr>) s)
      else (0, s))"

definition calc_load :: "ulong \<Rightarrow> ulong \<Rightarrow> ulong \<Rightarrow> ulong" where
  "calc_load load ex active =
     (let load = load * ex;
          load = load + active * (FIXED_1 - ex);
          load = load + push_bit (FSHIFT - 1) 1
      in drop_bit FSHIFT load)"

definition calc_load_write_idx :: "'a ksys_scheme \<Rightarrow> nat" where
  "calc_load_write_idx s =
     (let idx = calc_load_idx s;
          idx = (if \<not> time_before (jiffies s) (calc_load_update s) then idx + 1 else idx)
      in unat (idx AND 1))"

definition calc_load_read_idx :: "'a ksys_scheme \<Rightarrow> nat" where
  "calc_load_read_idx s = unat (calc_load_idx s AND 1)"

definition calc_load_enter_idle :: "'a ksys_scheme \<Rightarrow> 'a ksys_scheme" where
  "calc_load_enter_idle s =
     (let (delta, s) = calc_load_fold_active s in
      if delta \<noteq> 0 then
        let idx = calc_load_write_idx s
        in s\<lparr>calc_load_idle := (calc_load_idle s)[idx := calc_load_idle s ! idx + delta]\<rparr>
      else s)"

definition calc_load_exit_idle :: "kenv \<Rightarrow> 'a ksys_scheme \<Rightarrow> 'a ksys_scheme" where
  "calc_load_exit_idle env s =
     (if time_before (jiffies s) (calc_load_update_rq (rq s)) then s
      else
        let s = upd_rq (\<lambda>r. r\<lparr>calc_load_update_rq := calc_load_update s\<rparr>) s
        in if time_before (jiffies s) (calc_load_update_rq (rq s) + 10)
           then upd_rq (\<lambda>r. r\<lparr>calc_load_update_rq := calc_load_update_rq r + LOAD_FREQ env\<rparr>) s
           else s)"

definition calc_load_fold_idle :: "'a ksys_scheme \<Rightarrow> ulong \<times> 'a ksys_scheme" where
  "calc_load_fold_idle s =
     (let idx = calc_load_read_idx s in
      if calc_load_idle s ! idx \<noteq> 0
      then (calc_load_idle s ! idx, s\<lparr>calc_load_idle := (calc_load_idle s)[idx := 0]\<rparr>)
      else (0, s))"

text \<open>
  The loop of \<^verbatim>\<open>fixed_power_int\<close>; it is entered with \<open>n \<noteq> 0\<close> and ends because
  \<open>n\<close> is halved. \<^verbatim>\<open>frac_bits\<close> is positive at its one call.
\<close>

definition fixed_round :: "nat \<Rightarrow> ulong \<Rightarrow> ulong" where
  "fixed_round frac_bits x = drop_bit frac_bits (x + push_bit (frac_bits - 1) 1)"

lemma unat_half: "unat (drop_bit (Suc 0) (n :: 'a :: len word)) = unat n div 2"
  by (simp only: unat_drop_bit_eq) (simp add: drop_bit_eq_div)

lemma unat_half_less: "n \<noteq> 0 \<Longrightarrow> unat (drop_bit (Suc 0) (n :: 'a :: len word)) < unat n"
  by (simp only: unat_half) (simp add: unat_gt_0)

function fixed_power_loop :: "ulong \<Rightarrow> nat \<Rightarrow> u32 \<Rightarrow> ulong \<Rightarrow> ulong" where
  "fixed_power_loop x frac_bits n result =
     (let result = (if n AND 1 \<noteq> 0 then fixed_round frac_bits (result * x) else result);
          n = drop_bit 1 n
      in if n = 0 then result
         else fixed_power_loop (fixed_round frac_bits (x * x)) frac_bits n result)"
  by pat_completeness auto
termination
  by (relation "measure (\<lambda>(x, f, n, r). unat n)")
    (auto intro!: unat_half_less)

declare fixed_power_loop.simps [simp del]

definition fixed_power_int :: "ulong \<Rightarrow> nat \<Rightarrow> u32 \<Rightarrow> ulong" where
  "fixed_power_int x frac_bits n =
     (let result = push_bit frac_bits 1
      in if n \<noteq> 0 then fixed_power_loop x frac_bits n result else result)"

definition calc_load_n :: "ulong \<Rightarrow> ulong \<Rightarrow> ulong \<Rightarrow> u32 \<Rightarrow> ulong" where
  "calc_load_n load ex active n = calc_load load (fixed_power_int ex FSHIFT n) active"

text \<open>The number of active tasks in fixed point, from the signed counter.\<close>

definition active_fixed :: "ulong \<Rightarrow> ulong" where
  "active_fixed active = (if 0 <s active then active * FIXED_1 else 0)"

definition calc_global_nohz :: "kenv \<Rightarrow> 'a ksys_scheme \<Rightarrow> 'a ksys_scheme" where
  "calc_global_nohz env s =
     (let s =
        (if \<not> time_before (jiffies s) (calc_load_update s + 10) then
           let delta = jiffies s - calc_load_update s - 10;
               n = 1 + of_int (sint delta sdiv sint (LOAD_FREQ env)) :: ulong;
               active = active_fixed (calc_load_tasks s);
               s = s\<lparr>avenrun := [calc_load_n (avenrun s ! 0) EXP_1 active n,
                                 calc_load_n (avenrun s ! 1) EXP_5 active n,
                                 calc_load_n (avenrun s ! 2) EXP_15 active n]\<rparr>
           in s\<lparr>calc_load_update := calc_load_update s + n * LOAD_FREQ env\<rparr>
         else s)
      in s\<lparr>calc_load_idx := calc_load_idx s + 1\<rparr>)"

definition calc_global_load :: "kenv \<Rightarrow> 'a ksys_scheme \<Rightarrow> 'a ksys_scheme" where
  "calc_global_load env s =
     (if time_before (jiffies s) (calc_load_update s + 10) then s
      else
        let (delta, s) = calc_load_fold_idle s;
            s = (if delta \<noteq> 0 then s\<lparr>calc_load_tasks := calc_load_tasks s + delta\<rparr> else s);
            active = active_fixed (calc_load_tasks s);
            s = s\<lparr>avenrun := [calc_load (avenrun s ! 0) EXP_1 active,
                              calc_load (avenrun s ! 1) EXP_5 active,
                              calc_load (avenrun s ! 2) EXP_15 active]\<rparr>;
            s = s\<lparr>calc_load_update := calc_load_update s + LOAD_FREQ env\<rparr>
        in calc_global_nohz env s)"

definition calc_load_account_active :: "kenv \<Rightarrow> 'a ksys_scheme \<Rightarrow> 'a ksys_scheme" where
  "calc_load_account_active env s =
     (if time_before (jiffies s) (calc_load_update_rq (rq s)) then s
      else
        let (delta, s) = calc_load_fold_active s;
            s = (if delta \<noteq> 0 then s\<lparr>calc_load_tasks := calc_load_tasks s + delta\<rparr> else s)
        in upd_rq (\<lambda>r. r\<lparr>calc_load_update_rq := calc_load_update_rq r + LOAD_FREQ env\<rparr>) s)"

section \<open>Load of the processor\<close>

definition CPU_LOAD_IDX_MAX :: nat where "CPU_LOAD_IDX_MAX = 5"
definition DEGRADE_SHIFT :: nat where "DEGRADE_SHIFT = 7"

definition degrade_zero_ticks :: "u8 list" where
  "degrade_zero_ticks = [0, 8, 32, 64, 128]"

text \<open>C fills the rows of the table up to their eight columns with zeros.\<close>

definition degrade_factor :: "u8 list list" where
  "degrade_factor =
     [[0, 0, 0, 0, 0, 0, 0, 0],
      [64, 32, 8, 0, 0, 0, 0, 0],
      [96, 72, 40, 12, 1, 0, 0, 0],
      [112, 98, 75, 43, 15, 1, 0, 0],
      [120, 112, 98, 76, 45, 16, 2, 0]]"

text \<open>
  The loop over the bits of \<^verbatim>\<open>missed_updates\<close>; a read of the table outside its bounds
  is \<open>None\<close>.
\<close>

definition table_at :: "u8 list list \<Rightarrow> nat \<Rightarrow> nat \<Rightarrow> ulong option" where
  "table_at t i j =
     (if i < length t \<and> j < length (t ! i) then Some (ucast (t ! i ! j)) else None)"

function decay_loop :: "ulong \<Rightarrow> ulong \<Rightarrow> nat \<Rightarrow> nat \<Rightarrow> ulong option" where
  "decay_loop load missed idx j =
     (if missed = 0 then Some load
      else if missed mod 2 \<noteq> 0 then
        (case table_at degrade_factor idx j of
           None \<Rightarrow> None
         | Some d \<Rightarrow> decay_loop (drop_bit DEGRADE_SHIFT (load * d)) (drop_bit 1 missed) idx (j + 1))
      else decay_loop load (drop_bit 1 missed) idx (j + 1))"
  by pat_completeness auto
termination
  by (relation "measure (\<lambda>(l, m, i, j). unat m)")
    (auto intro!: unat_half_less)

declare decay_loop.simps [simp del]

definition decay_load_missed :: "ulong \<Rightarrow> ulong \<Rightarrow> nat \<Rightarrow> ulong option" where
  "decay_load_missed load missed_updates idx =
     (if missed_updates = 0 then Some load
      else if idx \<ge> length degrade_zero_ticks then None
      else if missed_updates \<ge> ucast (degrade_zero_ticks ! idx) then Some 0
      else if idx = 1 then Some (drop_bit (unat missed_updates) load)
      else decay_loop load missed_updates idx 0)"

text \<open>One entry of the array, and the loop over the indices 1 to 4.\<close>

definition cpu_load_entry :: "ulong \<Rightarrow> ulong \<Rightarrow> nat \<Rightarrow> ulong \<Rightarrow> ulong option" where
  "cpu_load_entry this_load pending i old =
     (case decay_load_missed old (pending - 1) i of
        None \<Rightarrow> None
      | Some old_load \<Rightarrow>
          let scale = push_bit i 1;
              new_load = (if this_load > old_load then this_load + (scale - 1) else this_load)
          in Some (drop_bit i (old_load * (scale - 1) + new_load)))"

primrec cpu_load_loop :: "nat \<Rightarrow> ulong \<Rightarrow> ulong \<Rightarrow> ulong list \<Rightarrow> ulong list option" where
  "cpu_load_loop 0 this_load pending cl = Some cl"
| "cpu_load_loop (Suc k) this_load pending cl =
     (let i = CPU_LOAD_IDX_MAX - Suc k in
      case cpu_load_entry this_load pending i (cl ! i) of
        None \<Rightarrow> None
      | Some l \<Rightarrow> cpu_load_loop k this_load pending (cl[i := l]))"

definition update_cpu_load :: "'a ksys_scheme \<Rightarrow> 'a ksys_scheme option" where
  "update_cpu_load s =
     (let this_load = lw_weight (rq_load (rq s));
          curr_jiffies = jiffies s;
          s = upd_rq (\<lambda>r. r\<lparr>nr_load_updates := nr_load_updates r + 1\<rparr>) s
      in
        if curr_jiffies = last_load_update_tick (rq s) then Some s
        else
          let pending_updates = curr_jiffies - last_load_update_tick (rq s);
              s = upd_rq (\<lambda>r. r\<lparr>last_load_update_tick := curr_jiffies\<rparr>) s;
              s = upd_rq (\<lambda>r. r\<lparr>cpu_load := (cpu_load r)[0 := this_load]\<rparr>) s
          in
            case cpu_load_loop (CPU_LOAD_IDX_MAX - 1) this_load pending_updates (cpu_load (rq s)) of
              None \<Rightarrow> None
            | Some cl \<Rightarrow> Some (upd_rq (\<lambda>r. r\<lparr>cpu_load := cl\<rparr>) s))"

definition update_cpu_load_active :: "kenv \<Rightarrow> 'a ksys_scheme \<Rightarrow> 'a ksys_scheme option" where
  "update_cpu_load_active env s =
     (case update_cpu_load s of None \<Rightarrow> None | Some s \<Rightarrow> Some (calc_load_account_active env s))"

section \<open>Fixed-point arithmetic\<close>

lemma FIXED_1_nat: "unat FIXED_1 = 2048"
  by (simp add: FIXED_1_def FSHIFT_def)

lemma unat_mult_small: "unat x * unat y < 2 ^ LENGTH('a) \<Longrightarrow> unat (x * y :: 'a :: len word) = unat x * unat y"
  by (simp add: unat_word_ariths)

lemma unat_add_small: "unat x + unat y < 2 ^ LENGTH('a) \<Longrightarrow> unat (x + y :: 'a :: len word) = unat x + unat y"
  by (simp add: unat_word_ariths)

text \<open>The load average stays below this bound, for which the products fit in a word.\<close>

definition load_ok :: "ulong \<Rightarrow> bool" where
  "load_ok l \<longleftrightarrow> unat l < 2 ^ 21"

definition mix :: "nat \<Rightarrow> nat \<Rightarrow> nat \<Rightarrow> nat" where
  "mix e a b = (a * e + b * (2048 - e) + 1024) div 2048"

lemma mix_sum_le: "e \<le> 2048 \<Longrightarrow> a \<le> m \<Longrightarrow> b \<le> m \<Longrightarrow> a * e + b * (2048 - e) \<le> m * (2048 :: nat)"
proof -
  assume h: "e \<le> 2048" "a \<le> m" "b \<le> m"
  then have "a * e + b * (2048 - e) \<le> m * e + m * (2048 - e)" by (intro add_mono mult_right_mono) auto
  also have "\<dots> = m * 2048" using h(1) by (simp add: add_mult_distrib2 [symmetric])
  finally show ?thesis .
qed

lemma mix_sum_ge: "e \<le> 2048 \<Longrightarrow> m \<le> a \<Longrightarrow> m \<le> b \<Longrightarrow> m * (2048 :: nat) \<le> a * e + b * (2048 - e)"
proof -
  assume h: "e \<le> 2048" "m \<le> a" "m \<le> b"
  have "m * 2048 = m * e + m * (2048 - e)" using h(1) by (simp add: add_mult_distrib2 [symmetric])
  also have "\<dots> \<le> a * e + b * (2048 - e)" using h by (intro add_mono mult_right_mono) auto
  finally show ?thesis .
qed

lemma mix_between:
  assumes "e \<le> 2048"
  shows "min a b \<le> mix e a b" "mix e a b \<le> max a b"
proof -
  have "min a b * 2048 \<le> a * e + b * (2048 - e)" using assms by (intro mix_sum_ge) auto
  then show "min a b \<le> mix e a b" unfolding mix_def by linarith
  have "a * e + b * (2048 - e) \<le> max a b * 2048" using assms by (intro mix_sum_le) auto
  then show "mix e a b \<le> max a b" unfolding mix_def by linarith
qed

lemma unat_calc_load:
  assumes "load_ok load" "load_ok active" "unat ex \<le> 2048"
  shows "unat (calc_load load ex active) = mix (unat ex) (unat load) (unat active)"
proof -
  let ?m = "2 ^ 21 - 1 :: nat"
  have sub: "unat (FIXED_1 - ex) = 2048 - unat ex"
    using assms(3) by (subst unat_sub) (simp_all add: FIXED_1_nat word_le_nat_alt)
  have sum: "unat load * unat ex + unat active * (2048 - unat ex) \<le> ?m * 2048"
    using assms by (intro mix_sum_le) (auto simp: load_ok_def)
  have p1: "unat (load * ex) = unat load * unat ex" using sum by (intro unat_mult_small) simp
  have p2: "unat (active * (FIXED_1 - ex)) = unat active * (2048 - unat ex)"
    using sum by (subst unat_mult_small) (simp_all add: sub)
  have p3: "unat (load * ex + active * (FIXED_1 - ex)) = unat load * unat ex + unat active * (2048 - unat ex)"
    using sum by (subst unat_add_small) (simp_all add: p1 p2)
  have p4: "unat (load * ex + active * (FIXED_1 - ex) + 1024) =
      unat load * unat ex + unat active * (2048 - unat ex) + 1024"
    using sum by (subst unat_add_small) (simp_all add: p3)
  show ?thesis
    by (simp add: calc_load_def FSHIFT_def unat_drop_bit_eq drop_bit_eq_div unat_div p4 mix_def
        push_bit_eq_mult)
qed

section \<open>The power function\<close>

text \<open>The value of a fixed-point number with \<open>f\<close> fractional bits, and half a unit in its last place.\<close>

definition fx :: "nat \<Rightarrow> nat \<Rightarrow> real" where
  "fx f n = real n / 2 ^ f"

definition half_ulp :: "nat \<Rightarrow> real" where
  "half_ulp f = 1 / 2 ^ (f + 1)"

lemma fx_range: "n \<le> 2 ^ f \<Longrightarrow> 0 \<le> fx f n \<and> fx f n \<le> 1"
  using of_nat_mono [of n "2 ^ f", where 'a = real] by (simp add: fx_def divide_le_eq_1)

lemma real_div_bounds:
  assumes "0 < d"
  shows "real (n div d) \<le> real n / real d" "real n / real d - 1 < real (n div d)"
proof -
  have n: "real n = real (n div d) * real d + real (n mod d)"
    by (metis div_mult_mod_eq of_nat_add of_nat_mult)
  with assms show "real (n div d) \<le> real n / real d"
    by (simp add: le_divide_eq)
  have "real (n mod d) < real d" using assms by simp
  with n assms show "real n / real d - 1 < real (n div d)"
    by (simp add: divide_less_eq field_simps)
qed

lemma unat_one_bit: "k < 32 \<Longrightarrow> unat (2 ^ k :: ulong) = 2 ^ k"
proof -
  assume "k < 32"
  then have "(2 :: nat) ^ k < 2 ^ 32" by (rule power_strict_increasing) simp
  moreover have "(2 ^ k :: ulong) = of_nat (2 ^ k)" by simp
  ultimately show ?thesis by (simp only: unat_of_nat) simp
qed

text \<open>Multiplication rounded to the nearest representable number, on naturals.\<close>

definition rmul :: "nat \<Rightarrow> nat \<Rightarrow> nat \<Rightarrow> nat" where
  "rmul f a b = (a * b + 2 ^ (f - 1)) div 2 ^ f"

lemma rmul_le:
  assumes "1 \<le> f" "a \<le> 2 ^ f" "b \<le> 2 ^ f"
  shows "rmul f a b \<le> 2 ^ f"
proof -
  have "a * b \<le> 2 ^ f * 2 ^ f" using assms by (intro mult_mono) auto
  moreover have "(2 :: nat) ^ (f - 1) < 2 ^ f" using assms(1) by (intro power_strict_increasing) auto
  ultimately have "a * b + 2 ^ (f - 1) < 2 ^ f * 2 ^ f + 2 ^ f" by (rule add_le_less_mono)
  then have "a * b + 2 ^ (f - 1) < Suc (2 ^ f) * 2 ^ f" by simp
  then have "rmul f a b < Suc (2 ^ f)" unfolding rmul_def by (rule less_mult_imp_div_less)
  then show ?thesis by simp
qed

lemma rmul_error:
  assumes "1 \<le> f"
  shows "\<bar>real (rmul f a b) - real (a * b) / 2 ^ f\<bar> \<le> 1 / 2"
proof -
  obtain k where k: "f = Suc k" using assms by (cases f) auto
  have "real (a * b + 2 ^ k) / real (2 ^ f) = real (a * b) / 2 ^ f + 1 / 2"
    by (simp add: k add_divide_distrib)
  then have "real ((a * b + 2 ^ k) div 2 ^ f) \<le> real (a * b) / 2 ^ f + 1 / 2"
    "real (a * b) / 2 ^ f + 1 / 2 - 1 < real ((a * b + 2 ^ k) div 2 ^ f)"
    using real_div_bounds [of "2 ^ f" "a * b + 2 ^ k"] by simp_all
  then show ?thesis unfolding rmul_def k diff_Suc_1 by (intro abs_leI) linarith+
qed

lemma fixed_round_mult:
  assumes "1 \<le> f" "f \<le> 15" "unat x \<le> 2 ^ f" "unat y \<le> 2 ^ f"
  shows "unat (fixed_round f (x * y)) = rmul f (unat x) (unat y)"
proof -
  let ?p = "unat x * unat y"
  have "?p \<le> 2 ^ 15 * 2 ^ 15"
    using assms power_increasing [of f 15 "2 :: nat"] by (intro mult_mono) auto
  then have p: "?p \<le> 2 ^ 30" by simp
  have "(2 :: nat) ^ (f - 1) \<le> 2 ^ 14" using assms(2) by (intro power_increasing) auto
  moreover have "unat (x * y) = ?p" using p by (intro unat_mult_small) simp
  ultimately have "unat (x * y + push_bit (f - 1) 1) = ?p + 2 ^ (f - 1)"
    using p assms(2) by (subst unat_add_small) (simp_all add: unat_one_bit)
  then show ?thesis
    by (simp only: fixed_round_def unat_drop_bit_eq) (simp only: drop_bit_eq_div rmul_def)
qed

lemma rmul_fx_error:
  assumes "1 \<le> f"
  shows "\<bar>fx f (rmul f a b) - fx f a * fx f b\<bar> \<le> half_ulp f"
proof -
  have "fx f (rmul f a b) - fx f a * fx f b = (real (rmul f a b) - real (a * b) / 2 ^ f) / 2 ^ f"
    by (simp add: fx_def diff_divide_distrib)
  also have "\<bar>\<dots>\<bar> \<le> 1 / 2 / 2 ^ f"
    unfolding abs_divide by (intro frac_le rmul_error assms(1)) auto
  finally show ?thesis by (simp add: half_ulp_def)
qed

lemma mult_error:
  fixes x X y Y :: real
  assumes "\<bar>x - X\<bar> \<le> a" "\<bar>y - Y\<bar> \<le> b" "0 \<le> x" "x \<le> 1" "0 \<le> Y" "Y \<le> 1"
  shows "\<bar>x * y - X * Y\<bar> \<le> a + b"
proof -
  have "x * y - X * Y = x * (y - Y) + (x - X) * Y" by (simp add: algebra_simps)
  also have "\<bar>\<dots>\<bar> \<le> \<bar>x\<bar> * \<bar>y - Y\<bar> + \<bar>x - X\<bar> * \<bar>Y\<bar>"
    by (metis abs_mult abs_triangle_ineq)
  also have "\<dots> \<le> 1 * b + a * 1"
    using assms by (intro add_mono mult_mono) auto
  finally show ?thesis by simp
qed

lemma rmul_track:
  assumes "1 \<le> f" "x \<le> 2 ^ f" "\<bar>fx f x - X\<bar> \<le> a" "\<bar>fx f y - Y\<bar> \<le> b" "0 \<le> Y" "Y \<le> 1"
  shows "\<bar>fx f (rmul f x y) - X * Y\<bar> \<le> a + b + half_ulp f"
  using mult_error [OF assms(3,4) _ _ assms(5,6)] fx_range [OF assms(2)]
    rmul_fx_error [OF assms(1), of x y] by linarith

lemma odd_unat: "odd (unat (n :: u32)) \<longleftrightarrow> odd n"
  by (simp only: bit_0 [symmetric] bit_unsigned_iff) simp

lemma word_odd_half:
  "unat n = (if odd n then 1 else 0) + 2 * unat (drop_bit (Suc 0) (n :: u32))"
  by (simp only: unat_half odd_unat [symmetric]) (auto elim!: oddE)

lemma fixed_power_loop_step:
  "fixed_power_loop x f n r =
     (let r' = (if odd n then fixed_round f (r * x) else r) in
      if drop_bit (Suc 0) n = 0 then r'
      else fixed_power_loop (fixed_round f (x * x)) f (drop_bit (Suc 0) n) r')"
  by (subst fixed_power_loop.simps) (simp add: Let_def and_one_eq odd_iff_mod_2_eq_one)

lemma fixed_power_loop_bounds:
  assumes "1 \<le> f" "f \<le> 15" "unat x \<le> 2 ^ f" "unat r \<le> 2 ^ f" "n \<noteq> 0"
    and "\<bar>fx f (unat x) - X\<bar> \<le> a" "\<bar>fx f (unat r) - R\<bar> \<le> b" "0 \<le> X" "X \<le> 1" "0 \<le> R" "R \<le> 1"
  shows "unat (fixed_power_loop x f n r) \<le> 2 ^ f \<and>
    \<bar>fx f (unat (fixed_power_loop x f n r)) - R * X ^ unat n\<bar> \<le> b + unat n * (a + half_ulp f)"
  using assms
proof (induction x f n r arbitrary: X R a b rule: fixed_power_loop.induct)
  case (1 x f n r)
  let ?n = "drop_bit (Suc 0) n" and ?x = "fixed_round f (x * x)"
  let ?r = "if odd n then fixed_round f (r * x) else r"
  let ?R = "if odd n then R * X else R" and ?b = "if odd n then b + a + half_ulp f else b"
  have r: "unat ?r \<le> 2 ^ f" "\<bar>fx f (unat ?r) - ?R\<bar> \<le> ?b" "0 \<le> ?R" "?R \<le> 1"
    using "1.prems" rmul_track [OF "1.prems"(1,4,7,6,8,9)]
    by (auto simp: fixed_round_mult rmul_le mult_le_one)
  have x: "unat ?x \<le> 2 ^ f" "\<bar>fx f (unat ?x) - X * X\<bar> \<le> a + a + half_ulp f" "0 \<le> X * X" "X * X \<le> 1"
    using "1.prems" rmul_track [OF "1.prems"(1,3,6,6,8,9)]
    by (auto simp: fixed_round_mult rmul_le mult_le_one)
  have n: "unat n = (if odd n then 1 else 0) + 2 * unat ?n" by (rule word_odd_half)
  show ?case
  proof (cases "?n = 0")
    case True
    then have "odd n" using n "1.prems"(5) unat_eq_zero [of n] by (auto split: if_splits)
    with True n r show ?thesis
      by (subst (1 2) fixed_power_loop_step) (simp add: algebra_simps)
  next
    case False
    have step: "fixed_power_loop x f n r = fixed_power_loop ?x f ?n ?r"
      using False by (subst fixed_power_loop_step) (simp add: Let_def)
    have pow: "R * X ^ unat n = ?R * (X * X) ^ unat ?n"
      by (subst n) (simp add: power_add power_mult power2_eq_square)
    have err: "b + unat n * (a + half_ulp f) = ?b + unat ?n * (a + a + half_ulp f + half_ulp f)"
      by (subst n) (simp add: algebra_simps)
    show ?thesis
      unfolding step pow err
      by (rule "1.IH" [OF _ _ _ "1.prems"(1,2) x(1) r(1) False x(2) r(2) x(3,4) r(3,4)])
        (use False in \<open>simp_all add: and_one_eq odd_iff_mod_2_eq_one\<close>)
  qed
qed

lemma fixed_power_int_bounds:
  assumes "1 \<le> f" "f \<le> 15" "unat x \<le> 2 ^ f"
  shows "unat (fixed_power_int x f n) \<le> 2 ^ f \<and>
    \<bar>fx f (unat (fixed_power_int x f n)) - fx f (unat x) ^ unat n\<bar> \<le> unat n * half_ulp f"
proof -
  have one: "unat (push_bit f 1 :: ulong) = 2 ^ f" using assms(2) unat_one_bit [of f] by simp
  have v: "fx f (2 ^ f) = 1" by (simp add: fx_def)
  show ?thesis
  proof (cases "n = 0")
    case True
    then show ?thesis using one v by (simp add: fixed_power_int_def)
  next
    case False
    have "0 \<le> fx f (unat x)" "fx f (unat x) \<le> 1" using fx_range [OF assms(3)] by auto
    then show ?thesis
      using False one v fixed_power_loop_bounds [OF assms, of "push_bit f 1" n "fx f (unat x)" 0 1 0]
      by (simp add: fixed_power_int_def)
  qed
qed

section \<open>Bookkeeping of the active tasks\<close>

text \<open>
  What the global counter and the two idle counters hold together is what the processor
  last reported.
\<close>

definition load_inv :: "'a ksys_scheme \<Rightarrow> bool" where
  "load_inv s \<longleftrightarrow> length (calc_load_idle s) = 2 \<and>
     calc_load_tasks s + sum_list (calc_load_idle s) = calc_load_active (rq s)"

lemma load_inv_length [simp]: "load_inv s \<Longrightarrow> length (calc_load_idle s) = 2"
  by (simp add: load_inv_def)

lemma unat_and_1_less: "unat (w AND 1 :: u32) < 2"
  by (simp add: and_one_eq mod_2_eq_odd)

lemma idle_idx_less: "calc_load_write_idx s < 2" "calc_load_read_idx s < 2"
  by (simp_all only: calc_load_write_idx_def calc_load_read_idx_def Let_def unat_and_1_less)

lemma sum_list_update_group:
  fixes xs :: "'b :: ab_group_add list"
  shows "k < length xs \<Longrightarrow> sum_list (xs[k := v]) = sum_list xs + (v - xs ! k)"
  by (induction xs arbitrary: k) (auto simp: algebra_simps split: nat.splits)

lemma calc_load_fold_active_eq:
  "calc_load_fold_active s =
     (nr_running (rq s) + nr_uninterruptible (rq s) - calc_load_active (rq s),
      upd_rq (\<lambda>r. r\<lparr>calc_load_active := nr_running (rq s) + nr_uninterruptible (rq s)\<rparr>) s)"
  by (simp add: calc_load_fold_active_def Let_def upd_rq_def)

lemma load_inv_enter_idle [kinv_intros]:
  assumes "load_inv s"
  shows "load_inv (calc_load_enter_idle s)"
proof -
  have "calc_load_write_idx t < length (calc_load_idle s)" for t :: "'a ksys_scheme"
    using assms idle_idx_less(1) by (simp add: load_inv_def)
  with assms show ?thesis
    by (auto simp: calc_load_enter_idle_def calc_load_fold_active_eq load_inv_def Let_def
        sum_list_update_group algebra_simps)
qed

lemma load_inv_exit_idle [kinv_intros]: "load_inv s \<Longrightarrow> load_inv (calc_load_exit_idle env s)"
  by (simp add: calc_load_exit_idle_def load_inv_def Let_def)

lemma load_inv_account [kinv_intros]: "load_inv s \<Longrightarrow> load_inv (calc_load_account_active env s)"
  by (auto simp: calc_load_account_active_def calc_load_fold_active_eq load_inv_def Let_def algebra_simps)

lemma calc_global_nohz_frame [simp]:
  "calc_load_idle (calc_global_nohz env s) = calc_load_idle s"
  "calc_load_tasks (calc_global_nohz env s) = calc_load_tasks s"
  "rq (calc_global_nohz env s) = rq s"
  "jiffies (calc_global_nohz env s) = jiffies s"
  by (simp_all add: calc_global_nohz_def Let_def)

lemma load_inv_global [kinv_intros]:
  assumes "load_inv s"
  shows "load_inv (calc_global_load env s)"
proof -
  have "calc_load_read_idx s < length (calc_load_idle s)"
    using assms idle_idx_less(2) by (simp add: load_inv_def)
  with assms show ?thesis
    by (auto simp: calc_global_load_def calc_load_fold_idle_def load_inv_def Let_def
        sum_list_update_group algebra_simps)
qed

section \<open>Catching up\<close>

lemma of_int_sint_word: "of_int (sint (w :: ulong)) = w"
  by simp

lemma sint_LOAD_FREQ:
  "5 * HZ env + 1 < 2 ^ 31 \<Longrightarrow> sint (LOAD_FREQ env) = 5 * int (HZ env) + 1"
  using sint_of_int_small [of "int (5 * HZ env + 1)"] by (simp add: LOAD_FREQ_def)

lemma catch_up:
  assumes "\<not> d <s 0" "0 < sint (F :: ulong)"
  shows "d - (1 + of_int (sint d sdiv sint F)) * F <s 0"
proof -
  let ?d = "sint d" and ?F = "sint F"
  have d: "0 \<le> ?d" using assms(1) by (simp add: word_sless_alt)
  then have "?d sdiv ?F = ?d div ?F" using assms(2) by (cases "?d = 0") (simp_all add: signed_divide_int_def)
  then have "d - (1 + of_int (?d sdiv ?F)) * F = of_int (?d - (1 + ?d div ?F) * ?F)"
    by (simp add: of_int_sint_word)
  also have "?d - (1 + ?d div ?F) * ?F = ?d mod ?F - ?F"
    by (simp add: minus_div_mult_eq_mod [symmetric] algebra_simps)
  finally have e: "d - (1 + of_int (?d sdiv ?F)) * F = of_int (?d mod ?F - ?F)" .
  have "?F < 2 ^ 31" using sint_lt [of F] by simp
  moreover have "0 \<le> ?d mod ?F" "?d mod ?F < ?F" using assms(2) by simp_all
  ultimately have "sint (of_int (?d mod ?F - ?F) :: ulong) = ?d mod ?F - ?F"
    by (intro sint_of_int_small) auto
  then show ?thesis using e \<open>?d mod ?F < ?F\<close> by (simp add: word_sless_alt)
qed

lemma calc_global_nohz_catches_up:
  assumes "5 * HZ env + 1 < 2 ^ 31"
  shows "time_before (jiffies s) (calc_load_update (calc_global_nohz env s) + 10)"
proof (cases "time_before (jiffies s) (calc_load_update s + 10)")
  case True
  then show ?thesis by (simp add: calc_global_nohz_def)
next
  case False
  have F: "0 < sint (LOAD_FREQ env)" by (simp add: sint_LOAD_FREQ [OF assms])
  let ?d = "jiffies s - calc_load_update s - 10"
  have "\<not> ?d <s 0" using False by (simp add: time_before_def algebra_simps)
  from catch_up [OF this F] False show ?thesis
    by (simp add: calc_global_nohz_def time_before_def Let_def algebra_simps)
qed

section \<open>Decay of the processor load\<close>

lemma table_at_degrade:
  assumes "i < 5" "j < 8"
  shows "\<exists>d. table_at degrade_factor i j = Some d \<and> unat d \<le> 120"
proof -
  have "list_all (\<lambda>i. list_all (\<lambda>j. case table_at degrade_factor i j of
      None \<Rightarrow> False | Some d \<Rightarrow> unat d \<le> 120) [0..<8]) [0..<5]"
    by code_simp
  then have "case table_at degrade_factor i j of None \<Rightarrow> False | Some d \<Rightarrow> unat d \<le> 120"
    using assms by (simp only: list_all_iff set_upt) auto
  then show ?thesis by (simp split: option.splits)
qed

lemma decay_step_le:
  assumes "unat d \<le> 120" "unat load < 2 ^ 25"
  shows "unat (drop_bit DEGRADE_SHIFT (load * d :: ulong)) \<le> unat load"
proof -
  have le: "unat load * unat d \<le> unat load * 120" using assms(1) by (rule mult_le_mono2)
  also have "\<dots> < 2 ^ LENGTH(32)" using assms(2) by simp
  finally have "unat (load * d) = unat load * unat d" by (rule unat_mult_small)
  moreover have "unat load * unat d div 128 \<le> unat load" using le by linarith
  ultimately show ?thesis
    by (simp only: DEGRADE_SHIFT_def unat_drop_bit_eq) (simp add: drop_bit_eq_div)
qed

lemma decay_loop_le:
  assumes "idx < 5" "j \<le> 7" "unat m < 2 ^ (7 - j)" "unat load < 2 ^ 25"
  shows "\<exists>l. decay_loop load m idx j = Some l \<and> unat l \<le> unat load"
  using assms
proof (induction load m idx j rule: decay_loop.induct)
  case (1 load m idx j)
  show ?case
  proof (cases "m = 0")
    case True
    then show ?thesis by (simp add: decay_loop.simps)
  next
    case False
    with "1.prems"(2,3) have j: "j < 7" by (cases "j = 7") (auto simp: unat_eq_zero)
    then have "(2 :: nat) ^ (7 - j) = 2 * 2 ^ (7 - (j + 1))"
      by (metis Suc_diff_Suc Suc_eq_plus1 power_Suc)
    then have h: "unat (drop_bit 1 m) < 2 ^ (7 - (j + 1))"
      using "1.prems"(3) by (simp only: One_nat_def unat_half)
    obtain d where d: "table_at degrade_factor idx j = Some d" "unat d \<le> 120"
      using table_at_degrade [OF "1.prems"(1), of j] j by auto
    show ?thesis
    proof (cases "m mod 2 = 0")
      case True
      have "decay_loop load m idx j = decay_loop load (drop_bit 1 m) idx (j + 1)"
        using False True by (subst decay_loop.simps) simp
      with "1.IH"(2) [OF False _ "1.prems"(1) _ h "1.prems"(4)] True j show ?thesis by simp
    next
      case odd: False
      let ?l = "drop_bit DEGRADE_SHIFT (load * d)"
      have le: "unat ?l \<le> unat load" by (rule decay_step_le [OF d(2) "1.prems"(4)])
      have "decay_loop load m idx j = decay_loop ?l (drop_bit 1 m) idx (j + 1)"
        using False odd d by (subst decay_loop.simps) simp
      with "1.IH"(1) [OF False odd d(1) "1.prems"(1) _ h] le "1.prems"(4) j show ?thesis by fastforce
    qed
  qed
qed

lemma degrade_zero_ticks_le:
  assumes "i < 5"
  shows "unat (ucast (degrade_zero_ticks ! i) :: ulong) \<le> 128"
proof -
  have "list_all (\<lambda>i. unat (ucast (degrade_zero_ticks ! i) :: ulong) \<le> 128) [0..<5]"
    by code_simp
  with assms show ?thesis by (simp only: list_all_iff set_upt) auto
qed

lemma decay_load_missed_le:
  assumes "idx < 5" "unat load < 2 ^ 25"
  shows "\<exists>l. decay_load_missed load missed idx = Some l \<and> unat l \<le> unat load"
proof -
  have len: "length degrade_zero_ticks = 5" by (simp add: degrade_zero_ticks_def)
  show ?thesis
  proof (cases "ucast (degrade_zero_ticks ! idx) \<le> missed")
    case True
    then show ?thesis using assms by (auto simp: decay_load_missed_def len)
  next
    case False
    then have "unat missed < unat (ucast (degrade_zero_ticks ! idx) :: ulong)"
      by (simp add: word_less_nat_alt [symmetric] not_le)
    then have m: "unat missed < 2 ^ (7 - 0)" using degrade_zero_ticks_le [OF assms(1)] by simp
    have s: "unat (drop_bit (unat missed) load) \<le> unat load"
      by (simp only: unat_drop_bit_eq) (simp add: drop_bit_eq_div)
    show ?thesis
      using decay_loop_le [OF assms(1) _ m assms(2)] s assms(1) False
      by (auto simp: decay_load_missed_def len)
  qed
qed

lemma entry_nat:
  assumes "1 \<le> i" "i \<le> 4" "unat old < 2 ^ 25" "unat this < 2 ^ 25"
  shows "unat (drop_bit i (old * (2 ^ i - 1) +
           (if this > old then this + (2 ^ i - 1) else this) :: ulong)) =
         (unat old * (2 ^ i - 1) + unat this + (if unat old < unat this then 2 ^ i - 1 else 0)) div 2 ^ i"
proof -
  have le: "(2 :: nat) ^ i \<le> 2 ^ 4" using assms(2) by (intro power_increasing) auto
  have one: "unat (2 ^ i :: ulong) = 2 ^ i" using assms(2) by (intro unat_one_bit) simp
  then have sc: "unat (2 ^ i - 1 :: ulong) = 2 ^ i - 1"
    by (subst unat_sub) (simp_all add: word_le_nat_alt)
  have "unat old * (2 ^ i - 1) \<le> unat old * 15" using le by (intro mult_le_mono2) simp
  also have "\<dots> < 2 ^ 25 * 15" using assms(3) by simp
  finally have p: "unat old * (2 ^ i - 1) < 2 ^ 25 * 15" .
  then have m: "unat (old * (2 ^ i - 1)) = unat old * (2 ^ i - 1)"
    by (subst unat_mult_small) (simp_all add: sc)
  let ?new = "if this > old then this + (2 ^ i - 1) else this"
  have n: "unat ?new = unat this + (if unat old < unat this then 2 ^ i - 1 else 0)"
    using assms(4) le by (auto simp: word_less_nat_alt unat_add_small sc)
  have "unat ?new \<le> 2 ^ 25 + 15" using n assms(4) le by auto
  then have "unat (old * (2 ^ i - 1) + ?new) = unat old * (2 ^ i - 1) + unat ?new"
    using p by (subst unat_add_small) (simp_all add: m)
  then show ?thesis by (simp only: unat_drop_bit_eq n) (simp only: drop_bit_eq_div add.assoc)
qed

text \<open>The rounded average lies between its arguments and, when they differ, is not the old one.\<close>

lemma average_between:
  fixes a b d :: nat
  assumes "2 \<le> d"
  defines "r \<equiv> (a * (d - 1) + b + (if a < b then d - 1 else 0)) div d"
  shows "min a b \<le> r" "r \<le> max a b" "a \<noteq> b \<Longrightarrow> r \<noteq> a"
proof -
  obtain k where k: "d = Suc k" "1 \<le> k" using assms(1) by (cases d) auto
  consider "a < b" | "a = b" | "b < a" by linarith
  then have "min a b \<le> r \<and> r \<le> max a b \<and> (a \<noteq> b \<longrightarrow> r \<noteq> a)"
  proof cases
    case 1
    then obtain c where c: "b = a + Suc c" using less_imp_Suc_add by fastforce
    have r: "r = (a * k + b + k) div d" using 1 k by (simp add: r_def)
    have "(a + 1) * d \<le> a * k + b + k" using c k by simp
    then have "a + 1 \<le> r" unfolding r using k by (simp add: less_eq_div_iff_mult_less_eq)
    moreover have "a * k + b + k < (b + 1) * d" using c k by (simp add: algebra_simps)
    then have "r < b + 1" unfolding r by (simp add: less_mult_imp_div_less)
    ultimately show ?thesis using 1 by simp
  next
    case 2
    then have "a * (d - 1) + b = b * d" using k by simp
    then have "r = b * d div d" using 2 by (simp add: r_def)
    then have "r = b" using k(1) by (simp only: nonzero_mult_div_cancel_right)
    then show ?thesis using 2 by simp
  next
    case 3
    then obtain c where c: "a = b + Suc c" using less_imp_Suc_add by fastforce
    have r: "r = (a * k + b) div d" using 3 k by (simp add: r_def)
    have "a * k + b < a * d" using c k by simp
    then have "r < a" unfolding r by (simp add: less_mult_imp_div_less)
    moreover have "b * d \<le> a * k + b" using c k by (simp add: algebra_simps)
    then have "b \<le> r" unfolding r using k by (simp add: less_eq_div_iff_mult_less_eq)
    ultimately show ?thesis using 3 by simp
  qed
  then show "min a b \<le> r" "r \<le> max a b" "a \<noteq> b \<Longrightarrow> r \<noteq> a" by auto
qed

lemma cpu_load_entry_between:
  assumes "1 \<le> i" "i \<le> 4" "unat old < 2 ^ 25" "unat this < 2 ^ 25"
  shows "\<exists>l. cpu_load_entry this pending i old = Some l \<and> unat l \<le> max (unat old) (unat this) \<and>
    (pending = 1 \<longrightarrow> min (unat old) (unat this) \<le> unat l \<and> (l = old \<longleftrightarrow> old = this))"
proof -
  obtain o' where o': "decay_load_missed old (pending - 1) i = Some o'" "unat o' \<le> unat old"
    using decay_load_missed_le [of i old] assms by auto
  have "unat o' < 2 ^ 25" using o'(2) assms(3) by simp
  note e = entry_nat [OF assms(1,2) this assms(4)]
  let ?l = "drop_bit i (o' * (2 ^ i - 1) +
      (if this > o' then this + (2 ^ i - 1) else this) :: ulong)"
  have two: "2 \<le> (2 :: nat) ^ i" using assms(1) power_increasing [of 1 i "2 :: nat"] by simp
  note b = average_between [OF two, of "unat o'" "unat this", folded e]
  have "cpu_load_entry this pending i old = Some ?l" by (simp only: cpu_load_entry_def o' option.case Let_def push_bit_of_1)
  moreover have "unat ?l \<le> max (unat old) (unat this)" using b(2) o'(2) by linarith
  moreover have "min (unat old) (unat this) \<le> unat ?l \<and> (?l = old \<longleftrightarrow> old = this)" if "pending = 1"
  proof -
    have eq: "o' = old" using that o'(1) by (simp add: decay_load_missed_def)
    have "?l = old \<longleftrightarrow> unat ?l = unat old" by (simp only: word_unat_eq_iff)
    also have "\<dots> \<longleftrightarrow> unat old = unat this" using b eq by (metis max.idem min.idem order_antisym)
    finally show ?thesis using b(1) unfolding eq word_unat_eq_iff by blast
  qed
  ultimately show ?thesis by blast
qed

text \<open>How an entry \<open>l\<close> follows its old value, in word order.\<close>

definition follows :: "ulong \<Rightarrow> bool \<Rightarrow> ulong \<Rightarrow> ulong \<Rightarrow> bool" where
  "follows this exact old l \<longleftrightarrow> l \<le> max old this \<and>
     (exact \<longrightarrow> min old this \<le> l \<and> (l = old \<longleftrightarrow> old = this))"

lemma cpu_load_entry_follows:
  assumes "1 \<le> i" "i \<le> 4" "unat old < 2 ^ 25" "unat this < 2 ^ 25"
  shows "\<exists>l. cpu_load_entry this pending i old = Some l \<and> follows this (pending = 1) old l"
proof -
  have "unat (max old this) = max (unat old) (unat this)" "unat (min old this) = min (unat old) (unat this)"
    by (simp_all add: max_def min_def word_le_nat_alt)
  with cpu_load_entry_between [OF assms, of pending] show ?thesis
    by (simp add: follows_def word_le_nat_alt)
qed

lemma cpu_load_loop_eq:
  assumes "length cl = 5" "\<And>i. 1 \<le> i \<Longrightarrow> i \<le> 4 \<Longrightarrow> cpu_load_entry this pending i (cl ! i) = Some (g i)"
  shows "cpu_load_loop (CPU_LOAD_IDX_MAX - 1) this pending cl = Some (cl ! 0 # map g [1, 2, 3, 4])"
proof -
  obtain a b c d e where "cl = [a, b, c, d, e]"
    using assms(1) by (auto simp: numeral_eq_Suc length_Suc_conv)
  then show ?thesis
    using assms(2) [of 1] assms(2) [of 2] assms(2) [of 3] assms(2) [of 4]
    by (simp add: CPU_LOAD_IDX_MAX_def numeral_eq_Suc)
qed

end
