(* ===== verification/Load_Avg_Correct.thy ===== *)
theory Load_Avg_Correct
  imports Load_Avg
begin

text \<open>
  Correctness of the load statistics: accuracy of the fixed-point power, range of the
  load average, conservation of the active count across the tick-less idle counters,
  catching up with missed periods, and the behaviour of the processor load array.
\<close>

section \<open>Reachable states of the load bookkeeping\<close>

text \<open>
  Between the calls, tasks come and go, time advances, and the processor's next update
  may be set.
\<close>

inductive load_step :: "kenv \<Rightarrow> 'a ksys_scheme \<Rightarrow> 'a ksys_scheme \<Rightarrow> bool" for env where
  ld_tasks: "load_step env s
     (upd_rq (\<lambda>r. r\<lparr>nr_running := a, nr_uninterruptible := b\<rparr>) s)"
| ld_time: "load_step env s (s\<lparr>jiffies := j\<rparr>)"
| ld_enter_idle: "load_step env s (calc_load_enter_idle s)"
| ld_exit_idle: "load_step env s (calc_load_exit_idle env s)"
| ld_account: "load_step env s (calc_load_account_active env s)"
| ld_global: "load_step env s (calc_global_load env s)"

inductive load_reachable :: "kenv \<Rightarrow> 'a ksys_scheme \<Rightarrow> bool" for env where
  ld_init: "calc_load_tasks s = 0 \<Longrightarrow> calc_load_idle s = [0, 0] \<Longrightarrow>
     calc_load_active (rq s) = 0 \<Longrightarrow> load_reachable env s"
| ld_step: "load_reachable env s \<Longrightarrow> load_step env s s' \<Longrightarrow> load_reachable env s'"

lemma load_step_inv: "load_step env s s' \<Longrightarrow> load_inv s \<Longrightarrow> load_inv s'"
proof (induction rule: load_step.induct)
  case (ld_tasks s a b)
  then show ?case by (simp add: load_inv_def)
next
  case (ld_time s j)
  then show ?case by (simp add: load_inv_def)
qed (auto intro: kinv_intros)

lemma load_reachable_inv: "load_reachable env s \<Longrightarrow> load_inv s"
proof (induction rule: load_reachable.induct)
  case (ld_init s)
  then show ?case by (simp add: load_inv_def)
qed (auto intro: load_step_inv)

section \<open>Properties\<close>

text \<open>
  C27. The logarithmic power of fixed-point numbers is accurate: for a base of at most 1.0
  with up to 15 fractional bits, no intermediate product overflows and the result differs
  from the exact power by at most \<open>n\<close> halves of a unit in the last place.
\<close>

theorem fixed_power_int_accurate:
  assumes "1 \<le> f" "f \<le> 15" "unat x \<le> 2 ^ f"
  shows "unat (fixed_power_int x f n) \<le> 2 ^ f \<and>
         \<bar>real (unat (fixed_power_int x f n)) - (real (unat x) / 2 ^ f) ^ unat n * 2 ^ f\<bar>
           \<le> real (unat n) / 2"
proof -
  let ?p = "real (unat (fixed_power_int x f n))" and ?q = "(real (unat x) / 2 ^ f) ^ unat n"
  have "\<bar>?p / 2 ^ f - ?q\<bar> \<le> real (unat n) * (1 / 2 ^ (f + 1))"
    using fixed_power_int_bounds [OF assms, of n] unfolding fx_def half_ulp_def by blast
  then have "\<bar>?p / 2 ^ f - ?q\<bar> * 2 ^ f \<le> real (unat n) * (1 / 2 ^ (f + 1)) * 2 ^ f"
    by (rule mult_right_mono) simp
  also have "\<bar>?p / 2 ^ f - ?q\<bar> * 2 ^ f = \<bar>(?p / 2 ^ f - ?q) * 2 ^ f\<bar>" by (simp only: abs_mult) simp
  also have "(?p / 2 ^ f - ?q) * 2 ^ f = ?p - ?q * 2 ^ f" by (simp only: left_diff_distrib) simp
  also have "real (unat n) * (1 / 2 ^ (f + 1)) * 2 ^ f = real (unat n) / 2" by simp
  finally show ?thesis using fixed_power_int_bounds [OF assms, of n] by blast
qed

theorem fixed_power_int_accurate_witness:
  "unat (fixed_power_int EXP_1 FSHIFT 12) = 751 \<and>
   \<bar>real (unat (fixed_power_int EXP_1 FSHIFT 12)) - (1884 / 2048) ^ 12 * 2048\<bar> \<le> 6"
proof -
  have "unat EXP_1 \<le> 2 ^ 11" by (simp add: EXP_1_def)
  from fixed_power_int_accurate [OF _ _ this, of 12] show ?thesis
    by (simp add: EXP_1_def FSHIFT_def fixed_power_int_def fixed_power_loop.simps fixed_round_def)
qed

text \<open>
  C28. One step of the load average computes the rounded weighted mean of the old value and
  the active count without overflow, for values below \<open>2 ^ 21\<close> (1023 active tasks), so it
  lies between the two.
\<close>

theorem calc_load_mean:
  assumes "unat load < 2 ^ 21" "unat active < 2 ^ 21" "unat ex \<le> 2048"
  shows "unat (calc_load load ex active) =
           (unat load * unat ex + unat active * (2048 - unat ex) + 1024) div 2048 \<and>
         min (unat load) (unat active) \<le> unat (calc_load load ex active) \<and>
         unat (calc_load load ex active) \<le> max (unat load) (unat active)"
  using unat_calc_load [of load active ex] mix_between [OF assms(3), of "unat load" "unat active"]
    assms(1,2) assms(3)
  by (simp add: load_ok_def mix_def)

theorem calc_load_mean_witness:
  "unat (calc_load 0 EXP_1 2048) = 164 \<and> unat (calc_load 0 EXP_1 2048) \<le> 2048"
  using calc_load_mean [of 0 2048 EXP_1] by (simp add: EXP_1_def)

text \<open>
  C10. No active task is lost or counted twice by the tick-less idle scheme: after any
  sequence of idle entries and exits, ticks, folds and changes of the run queue, a
  periodic update that is due leaves the global counter plus the two idle counters equal
  to the running and uninterruptible tasks of the processor.
\<close>

theorem calc_load_conserved:
  assumes "load_reachable env s" "\<not> time_before (jiffies s) (calc_load_update_rq (rq s))"
  defines "s' \<equiv> calc_load_account_active env s"
  shows "calc_load_tasks s' + calc_load_idle s' ! 0 + calc_load_idle s' ! 1 =
           nr_running (rq s) + nr_uninterruptible (rq s)"
proof -
  have "load_inv s'" unfolding s'_def by (rule load_inv_account [OF load_reachable_inv [OF assms(1)]])
  moreover have "calc_load_active (rq s') = nr_running (rq s) + nr_uninterruptible (rq s)"
    using assms(2) by (auto simp: s'_def calc_load_account_active_def calc_load_fold_active_eq Let_def)
  moreover obtain a b where "calc_load_idle s' = [a, b]"
    using \<open>load_inv s'\<close> by (auto simp: load_inv_def length_Suc_conv numeral_eq_Suc)
  ultimately show ?thesis by (simp add: load_inv_def add.assoc)
qed

text \<open>Three tasks became active, then the processor went idle, and one task came back.\<close>

definition ex_load :: ksys where
  "ex_load =
     upd_rq (\<lambda>r. r\<lparr>nr_running := 1, nr_uninterruptible := 0\<rparr>)
       (calc_load_enter_idle
         (upd_rq (\<lambda>r. r\<lparr>nr_running := 2, nr_uninterruptible := 1\<rparr>) ex_ksys))"

lemma ex_load_reachable: "load_reachable env ex_load"
  unfolding ex_load_def
  by (rule ld_step [OF ld_step [OF ld_step [OF ld_init ld_tasks] ld_enter_idle] ld_tasks])
    (simp_all add: ex_defs)

lemma ex_load_eval:
  "jiffies ex_load = 0" "calc_load_update_rq (rq ex_load) = 0" "nr_running (rq ex_load) = 1"
  "nr_uninterruptible (rq ex_load) = 0"
  by (simp_all add: ex_load_def calc_load_enter_idle_def calc_load_fold_active_eq ex_defs Let_def)

theorem calc_load_conserved_witness:
  "load_reachable ex_env ex_load \<and>
   calc_load_tasks (calc_load_account_active ex_env ex_load) +
     calc_load_idle (calc_load_account_active ex_env ex_load) ! 0 +
     calc_load_idle (calc_load_account_active ex_env ex_load) ! 1 = 1"
  using calc_load_conserved [OF ex_load_reachable, of ex_env] ex_load_reachable
  by (simp add: ex_load_eval time_before_def)

text \<open>
  C30. After \<^verbatim>\<open>calc_global_load\<close> the next update lies in the future: however many
  periods were missed, one call catches up with all of them.
\<close>

theorem calc_global_load_catches_up:
  assumes "5 * HZ env + 1 < 2 ^ 31"
  shows "time_before (jiffies s) (calc_load_update (calc_global_load env s) + 10)"
proof (cases "time_before (jiffies s) (calc_load_update s + 10)")
  case True
  then show ?thesis by (simp add: calc_global_load_def)
next
  case False
  have "\<exists>t. calc_global_load env s = calc_global_nohz env t \<and> jiffies t = jiffies s"
    using False by (auto simp: calc_global_load_def calc_load_fold_idle_def Let_def)
  then obtain t where "calc_global_load env s = calc_global_nohz env t" "jiffies t = jiffies s"
    by blast
  then show ?thesis using calc_global_nohz_catches_up [OF assms, of t] by simp
qed

theorem calc_global_load_catches_up_witness:
  "time_before 100000 (calc_load_update (calc_global_load ex_env (ex_ksys\<lparr>jiffies := 100000\<rparr>)) + 10)"
  using calc_global_load_catches_up [of ex_env "ex_ksys\<lparr>jiffies := 100000\<rparr>"] by (simp add: ex_env_def)

text \<open>
  The decay over missed ticks never reads outside its tables, never increases a load
  below \<open>2 ^ 25\<close>, is 0 from the tabulated number of ticks on, and is exact halving for the
  first index.
\<close>

lemma decay_load_missed_safe:
  assumes "idx < 5" "unat load < 2 ^ 25"
  shows "\<exists>l. decay_load_missed load missed idx = Some l \<and> unat l \<le> unat load \<and>
         (missed \<noteq> 0 \<and> ucast (degrade_zero_ticks ! idx) \<le> missed \<longrightarrow> l = 0) \<and>
         (idx = 1 \<longrightarrow> unat l = (if unat missed < 8 then unat load div 2 ^ unat missed else 0))"
proof -
  obtain l where l: "decay_load_missed load missed idx = Some l" "unat l \<le> unat load"
    using decay_load_missed_le [OF assms] by blast
  have len: "length degrade_zero_ticks = 5" by (simp add: degrade_zero_ticks_def)
  have z: "missed \<noteq> 0 \<and> ucast (degrade_zero_ticks ! idx) \<le> missed \<longrightarrow> l = 0"
    using l(1) assms(1) by (auto simp: decay_load_missed_def len)
  have "unat l = (if unat missed < 8 then unat load div 2 ^ unat missed else 0)" if "idx = 1"
  proof -
    have "missed < 8 \<longleftrightarrow> unat missed < 8" by (simp add: word_less_nat_alt)
    moreover have "unat (drop_bit (unat missed) load) = unat load div 2 ^ unat missed"
      by (simp only: unat_drop_bit_eq) (simp only: drop_bit_eq_div)
    ultimately show ?thesis
      using l(1) that
      by (auto simp: decay_load_missed_def degrade_zero_ticks_def not_le split: if_splits)
  qed
  with l z show ?thesis by blast
qed




end
