(* ===== verification/Romfs.thy ===== *)
theory Romfs
  imports Kernel_Prelude
begin

text \<open>
  The modified ROM file system, \<^verbatim>\<open>project_File system/src/super.c\<close>: reading
  pages (with the \<^verbatim>\<open>encrypted_file_name\<close> change), reading directories (with
  \<^verbatim>\<open>hided_file_name\<close>), looking up names (with \<^verbatim>\<open>exec_file_name\<close>),
  inodes, the superblock and the module's entry points.

  The storage functions \<^verbatim>\<open>romfs_dev_read\<close>, \<^verbatim>\<open>romfs_dev_strnlen\<close> and
  \<^verbatim>\<open>romfs_dev_strcmp\<close>, the callback \<^verbatim>\<open>dir_emit\<close>, the allocators and the
  registration functions are not part of the repository: they are fields of the record
  \<open>romfs_env\<close>, together with the three module parameters (\<open>None\<close> is a parameter that
  was not given, a null pointer). A read through a null or an error pointer is the
  outcome \<open>Fault\<close>. The two loops that follow links of the image may run forever on a
  cyclic image; they are partial functions, and not returning is \<open>None\<close>. The constants
  are those of \<^verbatim>\<open><linux/romfs_fs.h>\<close> and \<^verbatim>\<open><linux/stat.h>\<close>, and
  \<^verbatim>\<open>unsigned long\<close> has 64 bits.
\<close>

section \<open>Data\<close>

type_synonym bytes = "u8 list"

datatype 'a outcome = Ret 'a | Fault

definition ROMFH_TYPE :: u32 where "ROMFH_TYPE = 7"
definition ROMFH_HRD :: u32 where "ROMFH_HRD = 0"
definition ROMFH_DIR :: u32 where "ROMFH_DIR = 1"
definition ROMFH_REG :: u32 where "ROMFH_REG = 2"
definition ROMFH_SYM :: u32 where "ROMFH_SYM = 3"
definition ROMFH_EXEC :: u32 where "ROMFH_EXEC = 8"
definition ROMFH_SIZE :: u64 where "ROMFH_SIZE = 16"
definition ROMFH_PAD :: u64 where "ROMFH_PAD = 15"
definition ROMFH_MASK :: "'w :: len word" where "ROMFH_MASK = NOT 15"
definition ROMFS_MAXFN :: nat where "ROMFS_MAXFN = 128"
definition ROMBSIZE :: nat where "ROMBSIZE = 1024"
definition ROMBSBITS :: nat where "ROMBSBITS = 10"
definition ROMFS_MAGIC :: u64 where "ROMFS_MAGIC = 0x7275"
definition ROMSB_WORD0 :: u32 where "ROMSB_WORD0 = 0x2d726f6d"
definition ROMSB_WORD1 :: u32 where "ROMSB_WORD1 = 0x3166732d"
definition PAGE_SIZE :: nat where "PAGE_SIZE = 4096"

lemmas romfs_consts = ROMFH_TYPE_def ROMFH_HRD_def ROMFH_DIR_def ROMFH_REG_def ROMFH_SYM_def
  ROMFH_EXEC_def ROMFH_SIZE_def ROMFH_PAD_def ROMFH_MASK_def ROMFS_MAXFN_def ROMBSIZE_def
  ROMBSBITS_def ROMFS_MAGIC_def ROMSB_WORD0_def ROMSB_WORD1_def PAGE_SIZE_def

definition S_IFDIR :: u16 where "S_IFDIR = 0x4000"
definition S_IFREG :: u16 where "S_IFREG = 0x8000"
definition S_IFLNK :: u16 where "S_IFLNK = 0xa000"
definition S_IFBLK :: u16 where "S_IFBLK = 0x6000"
definition S_IFCHR :: u16 where "S_IFCHR = 0x2000"
definition S_IFSOCK :: u16 where "S_IFSOCK = 0xc000"
definition S_IFIFO :: u16 where "S_IFIFO = 0x1000"
definition S_IXUGO :: u16 where "S_IXUGO = 0x49"
definition S_IRWXUGO :: u16 where "S_IRWXUGO = 0x1ff"

lemmas stat_consts = S_IFDIR_def S_IFREG_def S_IFLNK_def S_IFBLK_def S_IFCHR_def S_IFSOCK_def
  S_IFIFO_def S_IXUGO_def S_IRWXUGO_def

datatype dtype = DT_UNKNOWN | DT_DIR | DT_REG | DT_LNK | DT_BLK | DT_CHR | DT_SOCK | DT_FIFO

text \<open>\<^verbatim>\<open>struct romfs_inode\<close> on the medium; \<^verbatim>\<open>be32_to_cpu\<close> is applied when it is decoded.\<close>

record romfs_inode =
  ri_next :: u32
  ri_spec :: u32
  ri_size :: u32
  ri_checksum :: u32

definition be32 :: "bytes \<Rightarrow> u32" where
  "be32 bs = word_rcat bs"

definition decode_inode :: "bytes \<Rightarrow> romfs_inode" where
  "decode_inode bs =
     \<lparr>ri_next = be32 (take 4 bs), ri_spec = be32 (take 4 (drop 4 bs)),
      ri_size = be32 (take 4 (drop 8 bs)), ri_checksum = be32 (take 4 (drop 12 bs))\<rparr>"

datatype iops =
  DirOps | RegOps | SymOps | SpecialOps u16 u32 u32

record inode =
  i_ino :: u64
  i_mode :: u16
  i_size :: u64
  i_blocks :: u64
  i_nlink :: nat
  i_times :: nat
  i_metasize :: u64
  i_dataoffset :: u64
  i_ops :: iops

record super_block =
  s_fs_info :: u64
  s_maxbytes :: u64
  s_magic :: u64
  s_rdonly :: bool
  s_noatime :: bool
  s_blocksize :: nat
  s_mtd_size :: "u64 option"
  s_mtd_index :: nat
  s_bdev :: "u32 option"
  s_dev :: u32
  s_root :: "inode option"

record dir_entry =
  d_name :: bytes
  d_ino :: u64
  d_type :: dtype

record dir_context =
  d_pos :: u64
  d_out :: "dir_entry list"

record romfs_env =
  dev_read :: "super_block \<Rightarrow> u64 \<Rightarrow> nat \<Rightarrow> errno + bytes"
  dev_strnlen :: "super_block \<Rightarrow> u64 \<Rightarrow> nat \<Rightarrow> errno + nat"
  dev_strcmp :: "super_block \<Rightarrow> u64 \<Rightarrow> bytes \<Rightarrow> nat \<Rightarrow> errno + bool"
  hided_file_name :: "bytes option"
  encrypted_file_name :: "bytes option"
  exec_file_name :: "bytes option"
  dir_emit_ok :: "dir_entry list \<Rightarrow> dir_entry \<Rightarrow> bool"
  iget_alloc :: "u64 \<Rightarrow> bool"
  kmap_ok :: bool
  kmalloc_ok :: bool
  d_make_root_ok :: bool
  huge_encode_dev :: "u32 \<Rightarrow> u64"

type_synonym icache = "u64 \<rightharpoonup> inode"

text \<open>\<^verbatim>\<open>strcmp\<close> on two C strings, given by the bytes before or up to their terminator.\<close>

definition c_str :: "bytes \<Rightarrow> bytes" where
  "c_str bs = takeWhile (\<lambda>b. b \<noteq> 0) bs"

definition streq :: "bytes \<Rightarrow> bytes \<Rightarrow> bool" where
  "streq a b \<longleftrightarrow> c_str a = c_str b"

definition romfs_modemap :: "u16 list" where
  "romfs_modemap =
     [0, S_IFDIR OR 0x1a4, S_IFREG OR 0x1a4, S_IFLNK OR 0x1ff, S_IFBLK OR 0x180,
      S_IFCHR OR 0x180, S_IFSOCK OR 0x1a4, S_IFIFO OR 0x1a4]"

definition romfs_dtype_table :: "dtype list" where
  "romfs_dtype_table = [DT_UNKNOWN, DT_DIR, DT_REG, DT_LNK, DT_BLK, DT_CHR, DT_SOCK, DT_FIFO]"

text \<open>\<^verbatim>\<open>romfs_maxsize\<close> reads the image size kept in \<^verbatim>\<open>s_fs_info\<close>.\<close>

abbreviation romfs_maxsize :: "super_block \<Rightarrow> u64" where
  "romfs_maxsize sb \<equiv> s_fs_info sb"

definition read_inode :: "romfs_env \<Rightarrow> super_block \<Rightarrow> u64 \<Rightarrow> errno + romfs_inode" where
  "read_inode env sb pos = map_sum id decode_inode (dev_read env sb pos 16)"

section \<open>Pages\<close>

record page_result =
  p_buf :: bytes
  p_error :: bool
  p_uptodate :: bool

definition memset0 :: "bytes \<Rightarrow> nat \<Rightarrow> bytes" where
  "memset0 buf n = buf @ replicate n 0"

text \<open>
  \<open>file\<close> is the name of the file the page is read for; it is \<open>None\<close> when the caller
  passes a null \<^verbatim>\<open>struct file\<close>, as the page cache does for symbolic links.
\<close>

definition romfs_readpage ::
  "romfs_env \<Rightarrow> super_block \<Rightarrow> bytes option \<Rightarrow> inode \<Rightarrow> nat \<Rightarrow>
     ((errno + unit) \<times> page_result) outcome" where
  "romfs_readpage env sb file i index =
     (if \<not> kmap_ok env then Ret (Inl ENOMEM, \<lparr>p_buf = [], p_error = False, p_uptodate = False\<rparr>)
      else
        let offset = index * PAGE_SIZE;
            size = unat (i_size i)
        in
          if offset < size then
            let size = size - offset;
                fillsize = (if size > PAGE_SIZE then PAGE_SIZE else size);
                pos = i_dataoffset i + of_nat offset;
                (ret, buf, fillsize, err) = (case dev_read env sb pos fillsize of
                                               Inl e \<Rightarrow> (Inl EIO, [], 0, True)
                                             | Inr bs \<Rightarrow> (Inr (), bs, fillsize, False))
            in
              case (file, encrypted_file_name env) of
                (Some name, Some enc) \<Rightarrow>
                  let buf = (if streq name enc \<and> fillsize \<noteq> 0 then map (\<lambda>b. b + 1) buf else buf)
                  in Ret (ret, \<lparr>p_buf = memset0 buf (PAGE_SIZE - fillsize), p_error = err,
                                p_uptodate = (ret = Inr ())\<rparr>)
              | _ \<Rightarrow> Fault
          else Ret (Inr (), \<lparr>p_buf = memset0 [] PAGE_SIZE, p_error = False, p_uptodate = True\<rparr>))"

section \<open>Directories\<close>

text \<open>
  The loop of \<^verbatim>\<open>romfs_readdir\<close>. The next position is computed in a signed
  \<^verbatim>\<open>int\<close> and extended to \<^verbatim>\<open>unsigned long\<close>. Every path returns 0; the
  result is the directory context.
\<close>

partial_function (option) romfs_readdir_loop ::
  "romfs_env \<Rightarrow> super_block \<Rightarrow> dir_context \<Rightarrow> u64 \<Rightarrow> dir_context outcome option" where
  "romfs_readdir_loop env sb ctx offset =
     (let maxoff = romfs_maxsize sb in
      if offset = 0 \<or> offset \<ge> maxoff then Some (Ret (ctx\<lparr>d_pos := maxoff\<rparr>))
      else
        let ctx = ctx\<lparr>d_pos := offset\<rparr> in
        case read_inode env sb offset of
          Inl e \<Rightarrow> Some (Ret ctx)
        | Inr ri \<Rightarrow>
        (case dev_strnlen env sb (offset + ROMFH_SIZE) (ROMFS_MAXFN - 1) of
          Inl e \<Rightarrow> Some (Ret ctx)
        | Inr j \<Rightarrow>
        (case dev_read env sb (offset + ROMFH_SIZE) j of
          Inl e \<Rightarrow> Some (Ret ctx)
        | Inr fsname \<Rightarrow>
        (case hided_file_name env of
          None \<Rightarrow> Some Fault
        | Some hided \<Rightarrow>
            let nextfh = ri_next ri in
            if \<not> streq fsname hided then
              let ino = (if nextfh AND ROMFH_TYPE = ROMFH_HRD then ri_spec ri else ucast offset);
                  ent = \<lparr>d_name = fsname, d_ino = scast ino,
                         d_type = romfs_dtype_table ! unat (nextfh AND ROMFH_TYPE)\<rparr>
              in
                if \<not> dir_emit_ok env (d_out ctx) ent then Some (Ret ctx)
                else romfs_readdir_loop env sb (ctx\<lparr>d_out := d_out ctx @ [ent]\<rparr>)
                       (scast (nextfh AND ROMFH_MASK))
            else romfs_readdir_loop env sb ctx (scast (nextfh AND ROMFH_MASK))))))"

definition romfs_readdir ::
  "romfs_env \<Rightarrow> super_block \<Rightarrow> inode \<Rightarrow> dir_context \<Rightarrow> dir_context outcome option" where
  "romfs_readdir env sb i ctx =
     (let offset = d_pos ctx in
      if offset = 0 then
        (case read_inode env sb (i_ino i AND ROMFH_MASK) of
           Inl e \<Rightarrow> Some (Ret ctx)
         | Inr ri \<Rightarrow> romfs_readdir_loop env sb ctx (ucast (ri_spec ri AND ROMFH_MASK)))
      else romfs_readdir_loop env sb ctx offset)"

section \<open>Inodes\<close>

text \<open>The loop of \<^verbatim>\<open>romfs_iget\<close> that follows hard links to the entry itself.\<close>

partial_function (option) romfs_iget_loop ::
  "romfs_env \<Rightarrow> super_block \<Rightarrow> u64 \<Rightarrow> (errno + (u64 \<times> romfs_inode)) option" where
  "romfs_iget_loop env sb pos =
     (case read_inode env sb pos of
        Inl e \<Rightarrow> Some (Inl e)
      | Inr ri \<Rightarrow>
          if ri_next ri AND ROMFH_TYPE \<noteq> ROMFH_HRD then Some (Inr (pos, ri))
          else romfs_iget_loop env sb (ucast (ri_spec ri AND ROMFH_MASK)))"

text \<open>The new inode for the entry \<open>ri\<close> at \<open>pos\<close> with a name of \<open>nlen\<close> bytes.\<close>

definition romfs_new_inode :: "u64 \<Rightarrow> romfs_inode \<Rightarrow> nat \<Rightarrow> inode" where
  "romfs_new_inode pos ri nlen =
     (let nextfh = ri_next ri;
          metasize = (ROMFH_SIZE + of_nat nlen + 1 + ROMFH_PAD) AND ROMFH_MASK;
          ty = nextfh AND ROMFH_TYPE;
          mode = romfs_modemap ! unat ty;
          size = ucast (ri_size ri);
          (mode, size, ops) =
            (if ty = ROMFH_DIR then
               (if nextfh AND ROMFH_EXEC \<noteq> 0 then mode OR S_IXUGO else mode, metasize, DirOps)
             else if ty = ROMFH_REG then
               (if nextfh AND ROMFH_EXEC \<noteq> 0 then mode OR S_IXUGO else mode, size, RegOps)
             else if ty = ROMFH_SYM then (mode OR S_IRWXUGO, size, SymOps)
             else (mode, size, SpecialOps mode (drop_bit 16 (ri_spec ri)) (ri_spec ri AND 0xffff)))
      in \<lparr>i_ino = pos, i_mode = mode, i_size = size, i_blocks = drop_bit 9 (size + 511),
          i_nlink = 1, i_times = 0, i_metasize = metasize, i_dataoffset = pos + metasize,
          i_ops = ops\<rparr>)"

text \<open>\<^verbatim>\<open>iget_locked\<close> finds a cached inode or allocates a new one, which is filled and kept.\<close>

definition romfs_iget ::
  "romfs_env \<Rightarrow> super_block \<Rightarrow> u64 \<Rightarrow> icache \<Rightarrow> ((errno + inode) \<times> icache) option" where
  "romfs_iget env sb pos ic =
     (case romfs_iget_loop env sb pos of
        None \<Rightarrow> None
      | Some (Inl e) \<Rightarrow> Some (Inl e, ic)
      | Some (Inr (pos, ri)) \<Rightarrow>
          (case dev_strnlen env sb (pos + ROMFH_SIZE) ROMFS_MAXFN of
             Inl e \<Rightarrow> Some (Inl EIO, ic)
           | Inr nlen \<Rightarrow>
               (case ic pos of
                  Some i \<Rightarrow> Some (Inr i, ic)
                | None \<Rightarrow>
                    if \<not> iget_alloc env pos then Some (Inl ENOMEM, ic)
                    else let i = romfs_new_inode pos ri nlen in Some (Inr i, ic(pos \<mapsto> i)))))"

section \<open>Lookup\<close>

text \<open>
  The result of a lookup is an inode, no inode (a negative entry), or an error. A match
  updates the mode of the cached inode when the name is the executable one; if
  \<^verbatim>\<open>romfs_iget\<close> returned an error pointer, that update faults.
\<close>

definition romfs_lookup_match ::
  "romfs_env \<Rightarrow> super_block \<Rightarrow> bytes \<Rightarrow> romfs_inode \<Rightarrow> u64 \<Rightarrow> icache \<Rightarrow>
     ((errno + inode option) \<times> icache) outcome option" where
  "romfs_lookup_match env sb name ri offset ic =
     (let offset = (if ri_next ri AND ROMFH_TYPE = ROMFH_HRD
                    then ucast (ri_spec ri AND ROMFH_MASK) else offset)
      in
        case romfs_iget env sb offset ic of
          None \<Rightarrow> None
        | Some (r, ic) \<Rightarrow>
            (case exec_file_name env of
               None \<Rightarrow> Some Fault
             | Some ex \<Rightarrow>
                 if streq ex name then
                   (case r of
                      Inl e \<Rightarrow> Some Fault
                    | Inr i \<Rightarrow>
                        let i = i\<lparr>i_mode := i_mode i OR S_IXUGO\<rparr>
                        in Some (Ret (Inr (Some i), ic(i_ino i \<mapsto> i))))
                 else
                   (case r of
                      Inl e \<Rightarrow> Some (Ret (Inl e, ic))
                    | Inr i \<Rightarrow> Some (Ret (Inr (Some i), ic)))))"

partial_function (option) romfs_lookup_loop ::
  "romfs_env \<Rightarrow> super_block \<Rightarrow> bytes \<Rightarrow> icache \<Rightarrow> u64 \<Rightarrow>
     ((errno + inode option) \<times> icache) outcome option" where
  "romfs_lookup_loop env sb name ic offset =
     (if offset = 0 \<or> offset \<ge> romfs_maxsize sb then Some (Ret (Inr None, ic))
      else
        case read_inode env sb offset of
          Inl e \<Rightarrow> Some (Ret (Inl e, ic))
        | Inr ri \<Rightarrow>
        (case dev_strcmp env sb (offset + ROMFH_SIZE) name (length name) of
          Inl e \<Rightarrow> Some (Ret (Inl e, ic))
        | Inr eq \<Rightarrow>
            if eq then romfs_lookup_match env sb name ri offset ic
            else romfs_lookup_loop env sb name ic (ucast (ri_next ri AND ROMFH_MASK))))"

definition romfs_lookup ::
  "romfs_env \<Rightarrow> super_block \<Rightarrow> inode \<Rightarrow> bytes \<Rightarrow> icache \<Rightarrow>
     ((errno + inode option) \<times> icache) outcome option" where
  "romfs_lookup env sb dir name ic =
     (case read_inode env sb (i_ino dir AND ROMFH_MASK) of
        Inl e \<Rightarrow> Some (Ret (Inl e, ic))
      | Inr ri \<Rightarrow> romfs_lookup_loop env sb name ic (ucast (ri_spec ri AND ROMFH_MASK)))"

section \<open>Superblock\<close>

record kstatfs =
  f_type :: u64
  f_namelen :: nat
  f_bsize :: nat
  f_bfree :: u64
  f_bavail :: u64
  f_ffree :: u64
  f_blocks :: u64
  f_fsid :: u64

definition romfs_statfs :: "romfs_env \<Rightarrow> super_block \<Rightarrow> kstatfs \<Rightarrow> kstatfs" where
  "romfs_statfs env sb buf =
     (let id = (case s_bdev sb of
                  Some d \<Rightarrow> huge_encode_dev env d
                | None \<Rightarrow> if s_dev sb \<noteq> 0 then huge_encode_dev env (s_dev sb) else 0)
      in buf\<lparr>f_type := ROMFS_MAGIC, f_namelen := ROMFS_MAXFN, f_bsize := ROMBSIZE,
             f_bfree := f_ffree buf, f_bavail := f_ffree buf,
             f_blocks := drop_bit ROMBSBITS (romfs_maxsize sb + of_nat ROMBSIZE - 1),
             f_fsid := id\<rparr>)"

definition romfs_reconfigure :: "super_block \<Rightarrow> super_block" where
  "romfs_reconfigure sb = sb\<lparr>s_rdonly := True\<rparr>"

primrec romfs_checksum_loop :: "nat \<Rightarrow> bytes \<Rightarrow> u32 \<Rightarrow> u32" where
  "romfs_checksum_loop 0 ptr acc = acc"
| "romfs_checksum_loop (Suc n) ptr acc =
     romfs_checksum_loop n (drop 4 ptr) (acc + be32 (take 4 ptr))"

definition romfs_checksum :: "bytes \<Rightarrow> nat \<Rightarrow> u32" where
  "romfs_checksum data n = romfs_checksum_loop (n div 4) data 0"

definition strnlen :: "bytes \<Rightarrow> nat \<Rightarrow> nat" where
  "strnlen bs n = length (c_str (take n bs))"

text \<open>The checks of \<^verbatim>\<open>romfs_fill_super\<close> on the 512 bytes of the superblock.\<close>

definition romfs_check_rsb :: "super_block \<Rightarrow> bytes \<Rightarrow> (errno + unit) \<times> super_block" where
  "romfs_check_rsb sb rsb =
     (let img_size = be32 (take 4 (drop 8 rsb)) in
      if (case s_mtd_size sb of None \<Rightarrow> False | Some n \<Rightarrow> ucast img_size > n) then (Inl EINVAL, sb)
      else
        let sb = sb\<lparr>s_fs_info := ucast img_size\<rparr> in
        if be32 (take 4 rsb) \<noteq> ROMSB_WORD0 \<or> be32 (take 4 (drop 4 rsb)) \<noteq> ROMSB_WORD1 \<or>
           ucast img_size < ROMFH_SIZE then (Inl EINVAL, sb)
        else if romfs_checksum rsb (min (unat img_size) 512) \<noteq> 0 then (Inl EINVAL, sb)
        else (Inr (), sb))"

definition MKDEV :: "u32 \<Rightarrow> u32 \<Rightarrow> u32" where
  "MKDEV ma mi = (push_bit 20 ma OR mi)"

definition MTD_BLOCK_MAJOR :: u32 where "MTD_BLOCK_MAJOR = 31"

text \<open>The fields set before the image is read.\<close>

definition romfs_fill_init :: "super_block \<Rightarrow> super_block" where
  "romfs_fill_init sb =
     (let sb = sb\<lparr>s_blocksize := ROMBSIZE, s_maxbytes := 0xffffffff, s_magic := ROMFS_MAGIC,
                  s_rdonly := True, s_noatime := True\<rparr>
      in if s_mtd_size sb \<noteq> None
         then sb\<lparr>s_dev := MKDEV MTD_BLOCK_MAJOR (of_nat (s_mtd_index sb))\<rparr> else sb)"

text \<open>The position of the root entry, after the volume name.\<close>

definition romfs_root_pos :: "bytes \<Rightarrow> u64" where
  "romfs_root_pos rsb =
     (let len = strnlen (drop 16 rsb) ROMFS_MAXFN
      in (ROMFH_SIZE + of_nat len + 1 + ROMFH_PAD) AND ROMFH_MASK)"

definition romfs_fill_super ::
  "romfs_env \<Rightarrow> super_block \<Rightarrow> icache \<Rightarrow> ((errno + unit) \<times> super_block \<times> icache) option" where
  "romfs_fill_super env sb ic =
     (if \<not> kmalloc_ok env then Some (Inl ENOMEM, romfs_fill_init sb, ic)
      else
        let sb = (romfs_fill_init sb)\<lparr>s_fs_info := 512\<rparr> in
        case dev_read env sb 0 512 of
          Inl e \<Rightarrow> Some (Inl e, sb, ic)
        | Inr rsb \<Rightarrow>
            (case romfs_check_rsb sb rsb of
               (Inl e, sb) \<Rightarrow> Some (Inl e, sb, ic)
             | (Inr _, sb) \<Rightarrow>
                 (case romfs_iget env sb (romfs_root_pos rsb) ic of
                    None \<Rightarrow> None
                  | Some (Inl e, ic) \<Rightarrow> Some (Inl e, sb, ic)
                  | Some (Inr root, ic) \<Rightarrow>
                      if \<not> d_make_root_ok env then Some (Inl ENOMEM, sb, ic)
                      else Some (Inr (), sb\<lparr>s_root := Some root\<rparr>, ic))))"

section \<open>Mounting and module entry points\<close>

text \<open>Both storage back ends are configured; each mounting function gets \<^verbatim>\<open>romfs_fill_super\<close>.\<close>

definition romfs_get_tree ::
  "('f \<Rightarrow> 's \<Rightarrow> 's status) \<Rightarrow> ('f \<Rightarrow> 's \<Rightarrow> 's status) \<Rightarrow> 'f \<Rightarrow> 's \<Rightarrow> 's status" where
  "romfs_get_tree get_tree_mtd get_tree_bdev fill s =
     (case get_tree_mtd fill s of
        (Inl EINVAL, s) \<Rightarrow> get_tree_bdev fill s
      | r \<Rightarrow> r)"

record romfs_module =
  inode_cachep :: bool
  fs_registered :: bool

definition init_romfs_fs ::
  "bool \<Rightarrow> (errno + unit) \<Rightarrow> romfs_module \<Rightarrow> (errno + unit) \<times> romfs_module" where
  "init_romfs_fs cache_created registered md =
     (let md = md\<lparr>inode_cachep := cache_created\<rparr> in
      if \<not> cache_created then (Inl ENOMEM, md)
      else
        case registered of
          Inl e \<Rightarrow> (Inl e, md\<lparr>inode_cachep := False\<rparr>)
        | Inr _ \<Rightarrow> (Inr (), md\<lparr>fs_registered := True\<rparr>))"

definition exit_romfs_fs :: "romfs_module \<Rightarrow> romfs_module" where
  "exit_romfs_fs md = md\<lparr>fs_registered := False, inode_cachep := False\<rparr>"

section \<open>Directory chains\<close>

text \<open>
  The entries of a directory as the image links them: position, header and name of each
  entry, from a position to the end of the chain.
\<close>

type_synonym romfs_ent = "u64 \<times> romfs_inode \<times> bytes"

fun dir_chain :: "romfs_env \<Rightarrow> super_block \<Rightarrow> u64 \<Rightarrow> romfs_ent list \<Rightarrow> bool" where
  "dir_chain env sb off [] \<longleftrightarrow> off = 0 \<or> romfs_maxsize sb \<le> off"
| "dir_chain env sb off ((pos, ri, nm) # es) \<longleftrightarrow>
     pos = off \<and> off \<noteq> 0 \<and> off < romfs_maxsize sb \<and> read_inode env sb off = Inr ri \<and>
     dev_strnlen env sb (off + ROMFH_SIZE) (ROMFS_MAXFN - 1) = Inr (length nm) \<and>
     dev_read env sb (off + ROMFH_SIZE) (length nm) = Inr nm \<and>
     dir_chain env sb (scast (ri_next ri AND ROMFH_MASK)) es"

fun dir_entry_of :: "romfs_ent \<Rightarrow> dir_entry" where
  "dir_entry_of (pos, ri, nm) =
     \<lparr>d_name = nm,
      d_ino = scast (if ri_next ri AND ROMFH_TYPE = ROMFH_HRD then ri_spec ri else ucast pos),
      d_type = romfs_dtype_table ! unat (ri_next ri AND ROMFH_TYPE)\<rparr>"

definition visible :: "bytes \<Rightarrow> romfs_ent list \<Rightarrow> romfs_ent list" where
  "visible hid es = filter (\<lambda>(pos, ri, nm). \<not> streq nm hid) es"

lemma visible_simps [simp]:
  "visible hid [] = []"
  "visible hid ((pos, ri, nm) # es) =
     (if streq nm hid then visible hid es else (pos, ri, nm) # visible hid es)"
  by (simp_all add: visible_def)

text \<open>Each step of the loop on a chain.\<close>

lemma readdir_loop_end:
  "off = 0 \<or> romfs_maxsize sb \<le> off \<Longrightarrow>
    romfs_readdir_loop env sb ctx off = Some (Ret (ctx\<lparr>d_pos := romfs_maxsize sb\<rparr>))"
  by (subst romfs_readdir_loop.simps) (simp add: Let_def)

lemma readdir_loop_entry:
  assumes "dir_chain env sb off ((off, ri, nm) # es)" "hided_file_name env = Some hid"
  shows "romfs_readdir_loop env sb ctx off =
    (if streq nm hid
     then romfs_readdir_loop env sb (ctx\<lparr>d_pos := off\<rparr>) (scast (ri_next ri AND ROMFH_MASK))
     else if dir_emit_ok env (d_out ctx) (dir_entry_of (off, ri, nm))
     then romfs_readdir_loop env sb
            (ctx\<lparr>d_pos := off, d_out := d_out ctx @ [dir_entry_of (off, ri, nm)]\<rparr>)
            (scast (ri_next ri AND ROMFH_MASK))
     else Some (Ret (ctx\<lparr>d_pos := off\<rparr>)))"
  using assms by (subst romfs_readdir_loop.simps) (auto simp: Let_def not_le)

text \<open>
  What one call emits is the visible part of a prefix of the chain, and the position it
  leaves is the one of the rest.
\<close>

lemma readdir_loop_resumes:
  assumes "dir_chain env sb off es" "hided_file_name env = Some hid"
  shows "\<exists>es1 es2 ctx'. es = es1 @ es2 \<and> romfs_readdir_loop env sb ctx off = Some (Ret ctx') \<and>
    d_out ctx' = d_out ctx @ map dir_entry_of (visible hid es1) \<and>
    dir_chain env sb (d_pos ctx') es2 \<and> (es2 = [] \<longrightarrow> d_pos ctx' = romfs_maxsize sb) \<and>
    (es2 = [] \<or> (\<exists>e es3. es2 = e # es3 \<and> \<not> dir_emit_ok env (d_out ctx') (dir_entry_of e)))"
  using assms(1)
proof (induction es arbitrary: off ctx)
  case Nil
  then show ?case by (auto simp: readdir_loop_end)
next
  case (Cons e es)
  obtain ri nm where e: "e = (off, ri, nm)" using Cons.prems by (cases e) auto
  let ?nx = "scast (ri_next ri AND ROMFH_MASK)"
  have nxt: "dir_chain env sb ?nx es" using Cons.prems e by simp
  note step = readdir_loop_entry [OF Cons.prems [unfolded e] assms(2), of ctx]
  show ?case
  proof (cases "streq nm hid \<or> dir_emit_ok env (d_out ctx) (dir_entry_of e)")
    case True
    then obtain ctx1 where c: "romfs_readdir_loop env sb ctx off = romfs_readdir_loop env sb ctx1 ?nx"
      "d_out ctx1 = d_out ctx @ map dir_entry_of (visible hid [e])"
      using step e by (cases "streq nm hid") auto
    from Cons.IH [OF nxt, of ctx1] obtain es1 es2 ctx' where r:
      "es = es1 @ es2" "romfs_readdir_loop env sb ctx1 ?nx = Some (Ret ctx')"
      "d_out ctx' = d_out ctx1 @ map dir_entry_of (visible hid es1)"
      "dir_chain env sb (d_pos ctx') es2" "es2 = [] \<longrightarrow> d_pos ctx' = romfs_maxsize sb"
      "es2 = [] \<or> (\<exists>e es3. es2 = e # es3 \<and> \<not> dir_emit_ok env (d_out ctx') (dir_entry_of e))"
      by blast
    have "d_out ctx' = d_out ctx @ map dir_entry_of (visible hid (e # es1))"
      using c(2) r(3) e by simp
    with r(1,2,4,5,6) c(1) show ?thesis
      by (intro exI [of _ "e # es1"] exI [of _ es2] exI [of _ ctx'] conjI) simp_all
  next
    case False
    then have "romfs_readdir_loop env sb ctx off = Some (Ret (ctx\<lparr>d_pos := off\<rparr>))"
      using step e by simp
    with False Cons.prems show ?thesis
      by (intro exI [of _ "[]"] exI [of _ "e # es"] exI [of _ "ctx\<lparr>d_pos := off\<rparr>"]) auto
  qed
qed

lemma readdir_loop_all:
  assumes "dir_chain env sb off es" "hided_file_name env = Some hid" "\<And>out e. dir_emit_ok env out e"
  shows "romfs_readdir_loop env sb ctx off =
    Some (Ret (ctx\<lparr>d_pos := romfs_maxsize sb, d_out := d_out ctx @ map dir_entry_of (visible hid es)\<rparr>))"
  using assms(1)
proof (induction es arbitrary: off ctx)
  case Nil
  then show ?case by (simp add: readdir_loop_end)
next
  case (Cons e es)
  obtain ri nm where e: "e = (off, ri, nm)" using Cons.prems by (cases e) auto
  have nxt: "dir_chain env sb (scast (ri_next ri AND ROMFH_MASK)) es" using Cons.prems e by simp
  show ?case
    using readdir_loop_entry [OF Cons.prems [unfolded e] assms(2), of ctx] Cons.IH [OF nxt] assms(3) e
    by simp
qed

text \<open>A chain does not depend on the buffer the entries go to.\<close>

lemma dir_chain_emit [simp]: "dir_chain (env\<lparr>dir_emit_ok := ok\<rparr>) sb off es = dir_chain env sb off es"
  by (induction es arbitrary: off) (auto simp: read_inode_def)

section \<open>Lookup on a chain\<close>

lemma scast_eq_ucast:
  assumes "\<not> bit (w :: u32) 31"
  shows "(scast (w AND ROMFH_MASK) :: u64) = ucast (w AND ROMFH_MASK)"
proof -
  have high: "\<not> bit w n" if "31 \<le> n" for n
    using assms that bit_imp_le_length [of w n] by (cases "n = 31") auto
  then show ?thesis
    by (intro bit_word_eqI) (auto simp: bit_simps min_def)
qed

text \<open>The names of the chain as the storage compares them, and positions below 2 GiB.\<close>

definition name_chain :: "romfs_env \<Rightarrow> super_block \<Rightarrow> bytes \<Rightarrow> romfs_ent list \<Rightarrow> bool" where
  "name_chain env sb name es \<longleftrightarrow>
     (\<forall>(pos, ri, nm) \<in> set es. dev_strcmp env sb (pos + ROMFH_SIZE) name (length name) = Inr (nm = name) \<and>
        \<not> bit (ri_next ri) 31)"

lemma name_chain_simps [simp]:
  "name_chain env sb name []"
  "name_chain env sb name ((pos, ri, nm) # es) \<longleftrightarrow>
     dev_strcmp env sb (pos + ROMFH_SIZE) name (length name) = Inr (nm = name) \<and>
     \<not> bit (ri_next ri) 31 \<and> name_chain env sb name es"
  by (auto simp: name_chain_def)

lemma lookup_loop_find:
  assumes "dir_chain env sb off es" "name_chain env sb name es"
  shows "romfs_lookup_loop env sb name ic off =
    (case find (\<lambda>(pos, ri, nm). nm = name) es of
       None \<Rightarrow> Some (Ret (Inr None, ic))
     | Some (pos, ri, nm) \<Rightarrow> romfs_lookup_match env sb name ri pos ic)"
  using assms
proof (induction es arbitrary: off)
  case Nil
  then show ?case by (subst romfs_lookup_loop.simps) simp
next
  case (Cons e es)
  obtain ri nm where e: "e = (off, ri, nm)" using Cons.prems by (cases e) auto
  have "dir_chain env sb (ucast (ri_next ri AND ROMFH_MASK)) es"
    using Cons.prems e scast_eq_ucast [of "ri_next ri"] by simp
  with Cons.IH [OF this] Cons.prems show ?case
    by (subst romfs_lookup_loop.simps) (auto simp: e not_le)
qed

section \<open>Hard links\<close>

lemma iget_loop_direct:
  assumes "read_inode env sb pos = Inr ri" "ri_next ri AND ROMFH_TYPE \<noteq> ROMFH_HRD"
  shows "romfs_iget_loop env sb pos = Some (Inr (pos, ri))"
  using assms by (subst romfs_iget_loop.simps) simp

text \<open>A chain of links \<open>ps\<close> that ends at the entry at \<open>q\<close>.\<close>

fun link_chain :: "romfs_env \<Rightarrow> super_block \<Rightarrow> u64 \<Rightarrow> u64 list \<Rightarrow> u64 \<Rightarrow> romfs_inode \<Rightarrow> bool" where
  "link_chain env sb p [] q ri \<longleftrightarrow>
     p = q \<and> read_inode env sb q = Inr ri \<and> ri_next ri AND ROMFH_TYPE \<noteq> ROMFH_HRD"
| "link_chain env sb p (p' # ps) q ri \<longleftrightarrow>
     (case read_inode env sb p of
        Inl e \<Rightarrow> False
      | Inr l \<Rightarrow> ri_next l AND ROMFH_TYPE = ROMFH_HRD \<and> p' = ucast (ri_spec l AND ROMFH_MASK)) \<and>
     link_chain env sb p' ps q ri"

lemma iget_loop_links: "link_chain env sb p ps q ri \<Longrightarrow> romfs_iget_loop env sb p = Some (Inr (q, ri))"
proof (induction ps arbitrary: p)
  case Nil
  then show ?case by (simp add: iget_loop_direct)
next
  case (Cons p' ps)
  then show ?case by (subst romfs_iget_loop.simps) (auto split: sum.splits)
qed

text \<open>A link that leads back to itself is followed forever.\<close>

definition self_link :: "romfs_env \<Rightarrow> super_block \<Rightarrow> u64 \<Rightarrow> bool" where
  "self_link env sb pos \<longleftrightarrow>
     (case read_inode env sb pos of
        Inl e \<Rightarrow> False
      | Inr ri \<Rightarrow> ri_next ri AND ROMFH_TYPE = ROMFH_HRD \<and> ucast (ri_spec ri AND ROMFH_MASK) = pos)"

lemma iget_loop_returns:
  assumes "romfs_iget_loop env sb pos = Some y"
  shows "\<not> self_link env sb pos"
proof (rule romfs_iget_loop.raw_induct [OF _ assms])
  fix f env sb pos and y :: "errno + (u64 \<times> romfs_inode)"
  assume IH: "\<And>env sb pos y. f env sb pos = Some y \<Longrightarrow> \<not> self_link env sb pos"
    and body: "(case read_inode env sb pos of Inl e \<Rightarrow> Some (Inl e)
      | Inr ri \<Rightarrow> if ri_next ri AND ROMFH_TYPE \<noteq> ROMFH_HRD then Some (Inr (pos, ri))
          else f env sb (ucast (ri_spec ri AND ROMFH_MASK))) = Some y"
  show "\<not> self_link env sb pos"
  proof
    assume l: "self_link env sb pos"
    then have "f env sb pos = Some y"
      using body by (auto simp: self_link_def split: sum.splits)
    with IH l show False by blast
  qed
qed

section \<open>Page buffers\<close>

lemma memset0_nth:
  assumes "length b = k" "j < k + n"
  shows "memset0 b n ! j = (if j < k then b ! j else 0)"
  using assms by (auto simp: memset0_def nth_append)

section \<open>Superblock checks\<close>

lemma romfs_checksum_loop_sum:
  "romfs_checksum_loop n ptr acc = acc + sum_list (map (\<lambda>k. be32 (take 4 (drop (4 * k) ptr))) [0..<n])"
proof (induction n arbitrary: ptr acc)
  case 0
  then show ?case by simp
next
  case (Suc n)
  have "map (\<lambda>k. be32 (take 4 (drop (4 * k) ptr))) [0..<Suc n] =
      be32 (take 4 ptr) # map (\<lambda>k. be32 (take 4 (drop (4 * k) (drop 4 ptr)))) [0..<n]"
    by (simp add: upt_conv_Cons map_Suc_upt [symmetric] add.commute del: upt_Suc)
  with Suc show ?case by (simp add: add.assoc)
qed

definition rsb_ok :: "super_block \<Rightarrow> bytes \<Rightarrow> bool" where
  "rsb_ok sb rsb \<longleftrightarrow>
     (let img_size = be32 (take 4 (drop 8 rsb)) in
      (\<forall>n. s_mtd_size sb = Some n \<longrightarrow> ucast img_size \<le> n) \<and>
      be32 (take 4 rsb) = ROMSB_WORD0 \<and> be32 (take 4 (drop 4 rsb)) = ROMSB_WORD1 \<and>
      ROMFH_SIZE \<le> ucast img_size \<and>
      sum_list (map (\<lambda>k. be32 (take 4 (drop (4 * k) rsb))) [0..<min (unat img_size) 512 div 4]) = 0)"

lemma romfs_check_rsb_cases:
  "romfs_check_rsb sb rsb =
     (if rsb_ok sb rsb then (Inr (), sb\<lparr>s_fs_info := ucast (be32 (take 4 (drop 8 rsb)))\<rparr>)
      else (Inl EINVAL, snd (romfs_check_rsb sb rsb)))"
  by (auto simp: romfs_check_rsb_def rsb_ok_def romfs_checksum_def romfs_checksum_loop_sum Let_def
      not_less split: option.splits)

lemma romfs_check_rsb_frame:
  "s_rdonly (snd (romfs_check_rsb sb rsb)) = s_rdonly sb"
  "s_magic (snd (romfs_check_rsb sb rsb)) = s_magic sb"
  "s_root (snd (romfs_check_rsb sb rsb)) = s_root sb"
  by (auto simp: romfs_check_rsb_def Let_def split: option.splits)

lemma romfs_fill_init_fields [simp]:
  "s_rdonly (romfs_fill_init sb)" "s_magic (romfs_fill_init sb) = ROMFS_MAGIC"
  "s_root (romfs_fill_init sb) = s_root sb" "s_mtd_size (romfs_fill_init sb) = s_mtd_size sb"
  by (simp_all add: romfs_fill_init_def Let_def)

lemma rsb_ok_cong: "s_mtd_size sb' = s_mtd_size sb \<Longrightarrow> rsb_ok sb' rsb = rsb_ok sb rsb"
  by (simp add: rsb_ok_def)

end
