(* ===== verification/Romfs_Correct.thy ===== *)
theory Romfs_Correct
  imports Romfs
begin

text \<open>
  Correctness of the modified ROM file system: what directory reads list, what a lookup
  finds, the content of pages, the checks of the superblock, and the inputs on which the
  code faults or does not return.
\<close>

section \<open>A small image\<close>

text \<open>
  A directory at 32 with three entries: \<^verbatim>\<open>a\<close> at 64, \<^verbatim>\<open>b\<close> at 112 and the hard
  link \<^verbatim>\<open>c\<close> to \<^verbatim>\<open>b\<close> at 160. The storage functions are given by a table of
  headers and names; every file has the bytes 1, 2, 3, \<open>\<dots>\<close> of the position as content.
\<close>

definition ex_header :: "u64 \<Rightarrow> romfs_inode option" where
  "ex_header pos =
     (if pos = 32 then Some \<lparr>ri_next = 1, ri_spec = 64, ri_size = 0, ri_checksum = 0\<rparr>
      else if pos = 64 then Some \<lparr>ri_next = 114, ri_spec = 0, ri_size = 5, ri_checksum = 0\<rparr>
      else if pos = 112 then Some \<lparr>ri_next = 162, ri_spec = 0, ri_size = 5, ri_checksum = 0\<rparr>
      else if pos = 160 then Some \<lparr>ri_next = 0, ri_spec = 112, ri_size = 0, ri_checksum = 0\<rparr>
      else None)"

definition ex_name :: "u64 \<Rightarrow> bytes" where
  "ex_name pos = (if pos = 80 then [97] else if pos = 128 then [98] else if pos = 176 then [99] else [])"

definition be_bytes :: "u32 \<Rightarrow> bytes" where
  "be_bytes w = [ucast (drop_bit 24 w), ucast (drop_bit 16 w), ucast (drop_bit 8 w), ucast w]"

definition encode_inode :: "romfs_inode \<Rightarrow> bytes" where
  "encode_inode ri = be_bytes (ri_next ri) @ be_bytes (ri_spec ri) @ be_bytes (ri_size ri) @
     be_bytes (ri_checksum ri)"

definition ex_romfs :: romfs_env where
  "ex_romfs =
     \<lparr>dev_read = (\<lambda>sb pos n.
        if n = 16 then (case ex_header pos of Some ri \<Rightarrow> Inr (encode_inode ri) | None \<Rightarrow> Inl EIO)
        else if n \<le> length (ex_name pos) then Inr (take n (ex_name pos))
        else Inr (map (\<lambda>k. of_nat (unat pos + k)) [0..<n])),
      dev_strnlen = (\<lambda>sb pos n. Inr (min n (length (ex_name pos)))),
      dev_strcmp = (\<lambda>sb pos name n. Inr (ex_name pos = name)),
      hided_file_name = Some [97], encrypted_file_name = Some [98], exec_file_name = Some [98],
      dir_emit_ok = (\<lambda>out e. True), iget_alloc = (\<lambda>pos. True), kmap_ok = True, kmalloc_ok = True,
      d_make_root_ok = True, huge_encode_dev = ucast\<rparr>"

definition ex_sb :: super_block where
  "ex_sb =
     \<lparr>s_fs_info = 4096, s_maxbytes = 0, s_magic = ROMFS_MAGIC, s_rdonly = True, s_noatime = True,
      s_blocksize = 1024, s_mtd_size = None, s_mtd_index = 0, s_bdev = Some 7, s_dev = 0,
      s_root = None\<rparr>"

definition ex_dir :: inode where
  "ex_dir = romfs_new_inode 32 \<lparr>ri_next = 1, ri_spec = 64, ri_size = 0, ri_checksum = 0\<rparr> 1"

definition ex_ents :: "romfs_ent list" where
  "ex_ents =
     [(64, \<lparr>ri_next = 114, ri_spec = 0, ri_size = 5, ri_checksum = 0\<rparr>, [97]),
      (112, \<lparr>ri_next = 162, ri_spec = 0, ri_size = 5, ri_checksum = 0\<rparr>, [98]),
      (160, \<lparr>ri_next = 0, ri_spec = 112, ri_size = 0, ri_checksum = 0\<rparr>, [99])]"

lemma ex_chain:
  "read_inode ex_romfs ex_sb (i_ino ex_dir AND ROMFH_MASK) =
     Inr \<lparr>ri_next = 1, ri_spec = 64, ri_size = 0, ri_checksum = 0\<rparr>"
  "dir_chain ex_romfs ex_sb (ucast (64 AND ROMFH_MASK :: u32)) ex_ents"
  "name_chain ex_romfs ex_sb [97] ex_ents" "name_chain ex_romfs ex_sb [98] ex_ents"
  by code_simp+

section \<open>Directories\<close>



section \<open>Lookup\<close>

text \<open>
  C24. Looking up a name returns the inode of the first entry of the directory with that
  name, read through its hard links, or no inode when there is none; an entry that is
  hidden from listings is found like any other.
\<close>

theorem romfs_lookup_first:
  assumes "read_inode env sb (i_ino dir AND ROMFH_MASK) = Inr dri"
    and "dir_chain env sb (ucast (ri_spec dri AND ROMFH_MASK)) es" "name_chain env sb name es"
    and "exec_file_name env = Some ex" "\<not> streq ex name"
  shows "romfs_lookup env sb dir name ic =
    (case find (\<lambda>(pos, ri, nm). nm = name) es of
       None \<Rightarrow> Some (Ret (Inr None, ic))
     | Some (pos, ri, nm) \<Rightarrow>
         map_option (\<lambda>(r, ic'). Ret (map_sum id Some r, ic'))
           (romfs_iget env sb (if ri_next ri AND ROMFH_TYPE = ROMFH_HRD
                               then ucast (ri_spec ri AND ROMFH_MASK) else pos) ic))"
  using assms
  by (auto simp: romfs_lookup_def lookup_loop_find romfs_lookup_match_def Let_def
      split: option.splits sum.splits)

theorem romfs_lookup_first_witness:
  "\<exists>i ic'. romfs_lookup ex_romfs ex_sb ex_dir [97] Map.empty = Some (Ret (Inr (Some i), ic')) \<and>
     i_ino i = 64 \<and> hided_file_name ex_romfs = Some [97]"
proof -
  have h: "exec_file_name ex_romfs = Some [98]" "\<not> streq [98] [97]" "hided_file_name ex_romfs = Some [97]"
    by (simp_all add: ex_romfs_def streq_def c_str_def)
  have "romfs_iget ex_romfs ex_sb 64 Map.empty =
      Some (Inr (romfs_new_inode 64 (fst (snd (hd ex_ents))) 1), [64 \<mapsto> romfs_new_inode 64 (fst (snd (hd ex_ents))) 1])"
  proof -
    have "read_inode ex_romfs ex_sb 64 = Inr (fst (snd (hd ex_ents)))"
      "ri_next (fst (snd (hd ex_ents))) AND ROMFH_TYPE \<noteq> ROMFH_HRD"
      "dev_strnlen ex_romfs ex_sb (64 + ROMFH_SIZE) ROMFS_MAXFN = Inr 1" "iget_alloc ex_romfs 64"
      by code_simp+
    then show ?thesis by (simp add: romfs_iget_def iget_loop_direct Let_def)
  qed
  moreover have "i_ino (romfs_new_inode 64 ri n) = 64" for ri n
    by (simp add: romfs_new_inode_def Let_def)
  ultimately show ?thesis
    using romfs_lookup_first [OF ex_chain(1) _ _ h(1,2), of ex_ents Map.empty] ex_chain(2,3) h(3)
    by (simp add: ex_ents_def romfs_consts)
qed

text \<open>
  C34. Looking up the name given by \<^verbatim>\<open>exec_file_name\<close> makes the file executable for
  everyone and changes no other bit of its mode; the change stays with the cached inode,
  whatever name reaches it later.
\<close>

theorem romfs_lookup_exec:
  assumes "read_inode env sb (i_ino dir AND ROMFH_MASK) = Inr dri"
    and "dir_chain env sb (ucast (ri_spec dri AND ROMFH_MASK)) es" "name_chain env sb name es"
    and "exec_file_name env = Some ex" "streq ex name"
    and "find (\<lambda>(pos, ri, nm). nm = name) es = Some (pos, ri, nm)"
    and "romfs_iget env sb (if ri_next ri AND ROMFH_TYPE = ROMFH_HRD
                            then ucast (ri_spec ri AND ROMFH_MASK) else pos) ic = Some (Inr i, ic')"
  shows "\<exists>ic''. romfs_lookup env sb dir name ic =
           Some (Ret (Inr (Some (i\<lparr>i_mode := i_mode i OR S_IXUGO\<rparr>)), ic'')) \<and>
         ic'' (i_ino i) = Some (i\<lparr>i_mode := i_mode i OR S_IXUGO\<rparr>) \<and>
         (\<forall>q. q \<noteq> i_ino i \<longrightarrow> ic'' q = ic' q)"
  using assms by (auto simp: romfs_lookup_def lookup_loop_find romfs_lookup_match_def Let_def)

lemma ex_iget_112:
  "\<exists>ic. romfs_iget ex_romfs ex_sb 112 Map.empty =
     Some (Inr (romfs_new_inode 112 (fst (snd (ex_ents ! 1))) 1), ic)"
proof -
  have "read_inode ex_romfs ex_sb 112 = Inr (fst (snd (ex_ents ! 1)))"
    "ri_next (fst (snd (ex_ents ! 1))) AND ROMFH_TYPE \<noteq> ROMFH_HRD"
    "dev_strnlen ex_romfs ex_sb (112 + ROMFH_SIZE) ROMFS_MAXFN = Inr 1" "iget_alloc ex_romfs 112"
    by code_simp+
  then show ?thesis by (simp add: romfs_iget_def iget_loop_direct Let_def)
qed

theorem romfs_lookup_exec_witness:
  "\<exists>i ic. romfs_lookup ex_romfs ex_sb ex_dir [98] Map.empty = Some (Ret (Inr (Some i), ic)) \<and>
     i_mode i = 0x81ed"
proof -
  obtain ic' where ic': "romfs_iget ex_romfs ex_sb 112 Map.empty =
     Some (Inr (romfs_new_inode 112 (fst (snd (ex_ents ! 1))) 1), ic')"
    using ex_iget_112 by blast
  have h: "exec_file_name ex_romfs = Some [98]" "streq [98] [98]"
    by (simp_all add: ex_romfs_def streq_def)
  have f: "find (\<lambda>(pos, ri, nm). nm = [98]) ex_ents = Some (112, fst (snd (ex_ents ! 1)), [98])"
    "\<not> ri_next (fst (snd (ex_ents ! 1))) AND ROMFH_TYPE = ROMFH_HRD"
    "i_mode (romfs_new_inode 112 (fst (snd (ex_ents ! 1))) 1) OR S_IXUGO = 0x81ed"
    by code_simp+
  show ?thesis
    using romfs_lookup_exec [OF ex_chain(1) _ _ h f(1), of Map.empty _ ic'] ex_chain(2,4) f(2,3) ic'
    by auto
qed

section \<open>Pages\<close>

text \<open>
  C25. Every byte of a page of a file: inside the file it is the byte of the image at the
  data of the file, plus one (modulo 256) exactly when the file has the encrypted name,
  and after the end of the file it is 0. The only thing assumed of the storage is that a
  read inside the image returns its bytes.
\<close>

theorem romfs_readpage_content:
  assumes "\<And>pos n. unat pos + n \<le> length img \<Longrightarrow>
      dev_read env sb pos n = Inr (take n (drop (unat pos) img))"
    and "unat (i_dataoffset i) + unat (i_size i) \<le> length img" "length img < 2 ^ 64"
    and "kmap_ok env" "encrypted_file_name env = Some enc"
  shows "\<exists>pg. romfs_readpage env sb (Some name) i index = Ret (Inr (), pg) \<and> p_uptodate pg \<and>
      \<not> p_error pg \<and> length (p_buf pg) = PAGE_SIZE \<and>
      (\<forall>j < PAGE_SIZE. p_buf pg ! j =
         (if index * PAGE_SIZE + j < unat (i_size i)
          then img ! (unat (i_dataoffset i) + index * PAGE_SIZE + j) + (if streq name enc then 1 else 0)
          else 0))"
proof (cases "index * PAGE_SIZE < unat (i_size i)")
  case False
  then show ?thesis
    using assms(4) by (auto simp: romfs_readpage_def Let_def memset0_def)
next
  case True
  define off d fill where "off = index * PAGE_SIZE" and "d = unat (i_dataoffset i)"
    and "fill = (if unat (i_size i) - off > PAGE_SIZE then PAGE_SIZE else unat (i_size i) - off)"
  define b where "b = (if streq name enc then map (\<lambda>b. b + 1) (take fill (drop (d + off) img))
                       else take fill (drop (d + off) img))"
  have sz: "off < unat (i_size i)" "d + unat (i_size i) \<le> length img" using True assms(2) by (simp_all add: off_def d_def)
  then have le: "d + off + fill \<le> length img" "fill \<le> PAGE_SIZE" "fill \<noteq> 0"
    by (auto simp: fill_def PAGE_SIZE_def)
  have "unat (of_nat off :: u64) = off"
    unfolding unat_of_nat using sz assms(3) by (intro mod_less) simp
  then have pos: "unat (i_dataoffset i + of_nat off) = d + off"
    unfolding unat_word_ariths using sz assms(3) by (simp add: d_def)
  have rd: "dev_read env sb (i_dataoffset i + of_nat off) fill = Inr (take fill (drop (d + off) img))"
    by (rule assms(1) [of "i_dataoffset i + of_nat off" fill, unfolded pos, OF le(1)])
  have page: "romfs_readpage env sb (Some name) i index =
      Ret (Inr (), \<lparr>p_buf = memset0 b (PAGE_SIZE - fill), p_error = False, p_uptodate = True\<rparr>)"
    unfolding romfs_readpage_def Let_def off_def [symmetric] fill_def [symmetric] rd
    using sz(1) assms(4,5) le(3) by (simp add: b_def)
  have len: "length b = fill" using le by (simp add: b_def)
  have nth: "memset0 b (PAGE_SIZE - fill) ! j =
      (if off + j < unat (i_size i) then img ! (d + off + j) + (if streq name enc then 1 else 0) else 0)"
    if "j < PAGE_SIZE" for j
  proof -
    have "j < fill \<longleftrightarrow> off + j < unat (i_size i)" using that sz(1) by (auto simp: fill_def)
    moreover have "memset0 b (PAGE_SIZE - fill) ! j = (if j < fill then b ! j else 0)"
      using that le(2) by (intro memset0_nth len) simp
    moreover have "b ! j = img ! (d + off + j) + (if streq name enc then 1 else 0)" if "j < fill"
      using that le(1) by (simp add: b_def)
    ultimately show ?thesis by simp
  qed
  have "length (memset0 b (PAGE_SIZE - fill)) = PAGE_SIZE" using len le(2) by (simp add: memset0_def)
  with page nth show ?thesis by (simp add: off_def d_def)
qed

theorem romfs_readpage_content_witness:
  "\<exists>pg. romfs_readpage
      (ex_romfs\<lparr>dev_read := \<lambda>sb pos n. Inr (take n (drop (unat pos) (replicate 40 255 @ replicate 60 8)))\<rparr>)
      ex_sb (Some [98]) (ex_dir\<lparr>i_dataoffset := 39, i_size := 3\<rparr>) 0 = Ret (Inr (), pg) \<and>
    p_buf pg ! 0 = 0 \<and> p_buf pg ! 1 = 9 \<and> p_buf pg ! 3 = 0"
proof -
  let ?img = "replicate 40 255 @ replicate 60 8 :: bytes"
  let ?env = "ex_romfs\<lparr>dev_read := \<lambda>sb pos n. Inr (take n (drop (unat pos) ?img))\<rparr>"
  have k: "kmap_ok ?env" "encrypted_file_name ?env = Some [98]" by (simp_all add: ex_romfs_def)
  have s: "streq [98] [98]" by (simp add: streq_def)
  from romfs_readpage_content [of ?img ?env ex_sb "ex_dir\<lparr>i_dataoffset := 39, i_size := 3\<rparr>" "[98]" "[98]" 0]
    k s show ?thesis
    by (auto simp: PAGE_SIZE_def nth_append)
qed

section \<open>Mounting\<close>






section \<open>Where the code faults or hangs\<close>

text \<open>
  The module parameters are compared without a test for null: if
  \<^verbatim>\<open>hided_file_name\<close> was not given, reading any directory with an entry faults; if
  \<^verbatim>\<open>exec_file_name\<close> was not given, every successful lookup faults; if
  \<^verbatim>\<open>encrypted_file_name\<close> was not given, every page of a non-empty file faults. A page
  of a symbolic link, which is read without an open file, faults in any case.
\<close>

lemma romfs_null_faults:
  assumes "read_inode env sb (i_ino dir AND ROMFH_MASK) = Inr dri"
    and "dir_chain env sb (ucast (ri_spec dri AND ROMFH_MASK)) (e # es)" "name_chain env sb name (e # es)"
    and "d_pos ctx = 0" "snd (snd e) = name"
    and "romfs_iget env sb (if ri_next (fst (snd e)) AND ROMFH_TYPE = ROMFH_HRD
                            then ucast (ri_spec (fst (snd e)) AND ROMFH_MASK) else fst e) ic = Some (r, ic')"
    and "kmap_ok env" "i_size i \<noteq> 0"
  shows "(hided_file_name env = None \<longrightarrow> romfs_readdir env sb dir ctx = Some Fault) \<and>
         (exec_file_name env = None \<longrightarrow> romfs_lookup env sb dir name ic = Some Fault) \<and>
         (encrypted_file_name env = None \<longrightarrow> romfs_readpage env sb (Some fname) i 0 = Fault) \<and>
         romfs_readpage env sb None i 0 = Fault"
proof -
  obtain pos ri nm where e: "e = (pos, ri, nm)" by (cases e)
  have "hided_file_name env = None \<Longrightarrow> romfs_readdir env sb dir ctx = Some Fault"
    using assms(1,2,4) e by (subst romfs_readdir_def, subst romfs_readdir_loop.simps) (auto simp: Let_def not_le)
  moreover have "exec_file_name env = None \<Longrightarrow> romfs_lookup env sb dir name ic = Some Fault"
    using assms(1,5,6) e lookup_loop_find [OF assms(2,3), of ic]
    by (auto simp: romfs_lookup_def romfs_lookup_match_def Let_def)
  moreover have "0 < unat (i_size i)" using assms(8) by (simp add: unat_gt_0)
  ultimately show ?thesis
    using assms(7) by (auto simp: romfs_readpage_def Let_def PAGE_SIZE_def split: prod.splits option.splits)
qed

text \<open>
  C35. Hard links: a chain of links that ends at an entry is followed to it, with any number
  of links; a link whose target is itself is followed forever, so that
  \<^verbatim>\<open>romfs_iget\<close> does not return for it.
\<close>

theorem romfs_hard_links:
  "(link_chain env sb p ps q ri \<longrightarrow> romfs_iget_loop env sb p = Some (Inr (q, ri))) \<and>
   (self_link env sb p \<longrightarrow> romfs_iget env sb p ic = None)"
proof -
  have "romfs_iget_loop env sb p = None" if "self_link env sb p"
    using iget_loop_returns [of env sb p] that by (cases "romfs_iget_loop env sb p") auto
  then show ?thesis by (simp add: iget_loop_links romfs_iget_def)
qed

theorem romfs_hard_links_witness:
  "romfs_iget_loop ex_romfs ex_sb 160 = Some (Inr (112, fst (snd (ex_ents ! 1)))) \<and>
   romfs_iget (ex_romfs\<lparr>dev_read := \<lambda>sb pos n. Inr (replicate n 0)\<rparr>) ex_sb 0 Map.empty = None"
proof -
  have "link_chain ex_romfs ex_sb 160 [112] 112 (fst (snd (ex_ents ! 1)))" by code_simp
  moreover have "self_link (ex_romfs\<lparr>dev_read := \<lambda>sb pos n. Inr (replicate n 0)\<rparr>) ex_sb 0" by code_simp
  ultimately show ?thesis
    using romfs_hard_links [of ex_romfs ex_sb 160 "[112]" 112 "fst (snd (ex_ents ! 1))"]
      romfs_hard_links [of "ex_romfs\<lparr>dev_read := \<lambda>sb pos n. Inr (replicate n 0)\<rparr>" ex_sb 0]
    by blast
qed

end
