(* ===== verification/Task_Group.thy ===== *)
theory Task_Group
  imports Sched_Types
begin

text \<open>
  Task groups and their real-time bandwidth, from \<^verbatim>\<open>sched/core.c\<close>: the iterative
  walk over the group tree, the schedulability test it is used for, and the functions
  that set the bandwidth of a group and the global limits.

  The system state is extended by the children of each group, in the order of their
  list, the list of all threads, and the default bandwidth. The parent of a group is
  \<open>butlast\<close> of its path.
\<close>

section \<open>The group tree\<close>

record gsys = ksys +
  tg_children :: "tgid \<Rightarrow> tgid list"
  threads :: "tid list"
  def_rt_bandwidth :: rt_bandwidth

definition tg_parent :: "tgid \<Rightarrow> tgid option" where
  "tg_parent g = (if g = [] then None else Some (butlast g))"

text \<open>A visitor may change the state and may stop the walk with an error.\<close>

type_synonym 's tg_visitor = "tgid \<Rightarrow> 's \<Rightarrow> 's status"

definition tg_nop :: "'s tg_visitor" where
  "tg_nop g s = (Inr (), s)"

text \<open>
  The walk jumps between two places: entering a group (\<open>WDown\<close>) and leaving it when its
  children are done (\<open>WUp\<close>).
\<close>

datatype walk_pc = WDown tgid | WUp tgid

fun next_sibling :: "'b \<Rightarrow> 'b list \<Rightarrow> 'b option" where
  "next_sibling x [] = None"
| "next_sibling x (y # ys) =
     (if x = y then (case ys of [] \<Rightarrow> None | z # zs \<Rightarrow> Some z) else next_sibling x ys)"

partial_function (option) walk_loop ::
  "(tgid \<Rightarrow> tgid list) \<Rightarrow> tgid \<Rightarrow> 's tg_visitor \<Rightarrow> 's tg_visitor \<Rightarrow> walk_pc \<Rightarrow> 's \<Rightarrow> 's status option" where
  "walk_loop children from down up pc s =
     (case pc of
        WDown parent \<Rightarrow>
          (case down parent s of
             (Inl e, s) \<Rightarrow> Some (Inl e, s)
           | (Inr _, s) \<Rightarrow>
               (case children parent of
                  child # _ \<Rightarrow> walk_loop children from down up (WDown child) s
                | [] \<Rightarrow> walk_loop children from down up (WUp parent) s))
      | WUp parent \<Rightarrow>
          (case up parent s of
             (Inl e, s) \<Rightarrow> Some (Inl e, s)
           | (Inr _, s) \<Rightarrow>
               if parent = from then Some (Inr (), s)
               else
                 (case tg_parent parent of
                    None \<Rightarrow> Some (Inr (), s)
                  | Some p \<Rightarrow>
                      (case next_sibling parent (children p) of
                         Some child \<Rightarrow> walk_loop children from down up (WDown child) s
                       | None \<Rightarrow> walk_loop children from down up (WUp p) s))))"

definition walk_tg_tree_from ::
  "(tgid \<Rightarrow> tgid list) \<Rightarrow> tgid \<Rightarrow> 's tg_visitor \<Rightarrow> 's tg_visitor \<Rightarrow> 's \<Rightarrow> 's status option" where
  "walk_tg_tree_from children from down up s = walk_loop children from down up (WDown from) s"

section \<open>Real-time bandwidth\<close>

definition NSEC_PER_USEC :: u64 where "NSEC_PER_USEC = 1000"

definition to_ratio :: "u64 \<Rightarrow> u64 \<Rightarrow> ulong" where
  "to_ratio period runtime =
     (if runtime = RUNTIME_INF then ucast (push_bit 20 1 :: u64)
      else ucast (push_bit 20 runtime div period))"

definition global_rt_period :: "'a ksys_scheme \<Rightarrow> u64" where
  "global_rt_period s = of_int (sysctl_sched_rt_period s) * NSEC_PER_USEC"

definition global_rt_runtime :: "'a ksys_scheme \<Rightarrow> u64" where
  "global_rt_runtime s =
     (if sysctl_sched_rt_runtime s < 0 then RUNTIME_INF
      else of_int (sysctl_sched_rt_runtime s) * NSEC_PER_USEC)"

text \<open>
  \<^verbatim>\<open>task_rq(p)->rt\<close> is the run queue of the processor itself, which
  \<^verbatim>\<open>sched_init\<close> gives to the root group.
\<close>

definition rq_rt_tg :: tgid where "rq_rt_tg = []"

definition tg_has_rt_tasks :: "tgid \<Rightarrow> 'a gsys_scheme \<Rightarrow> bool" where
  "tg_has_rt_tasks tg s = list_ex (\<lambda>p. rt_task (task s p) \<and> rq_rt_tg = tg) (threads s)"

record rt_schedulable_data =
  rsd_tg :: "tgid option"
  rsd_period :: u64
  rsd_runtime :: u64

definition tg_bandwidth :: "rt_schedulable_data \<Rightarrow> tgid \<Rightarrow> 'a gsys_scheme \<Rightarrow> u64 \<times> u64" where
  "tg_bandwidth d tg s =
     (if Some tg = rsd_tg d then (rsd_period d, rsd_runtime d)
      else (rt_period (rt_bws s tg), rtb_runtime (rt_bws s tg)))"

definition tg_rt_schedulable :: "rt_schedulable_data \<Rightarrow> 'a gsys_scheme tg_visitor" where
  "tg_rt_schedulable d tg s =
     (let (period, runtime) = tg_bandwidth d tg s in
      if runtime > period \<and> runtime \<noteq> RUNTIME_INF then (Inl EINVAL, s)
      else if rt_bandwidth_enabled s \<and> runtime = 0 \<and> tg_has_rt_tasks tg s then (Inl EBUSY, s)
      else
        let total = to_ratio period runtime in
        if total > to_ratio (global_rt_period s) (global_rt_runtime s) then (Inl EINVAL, s)
        else
          let sum = foldl (\<lambda>acc child. acc + (case tg_bandwidth d child s of (p, r) \<Rightarrow> to_ratio p r))
                      0 (tg_children s tg)
          in if sum > total then (Inl EINVAL, s) else (Inr (), s))"

definition rt_schedulable ::
  "tgid option \<Rightarrow> u64 \<Rightarrow> u64 \<Rightarrow> 'a gsys_scheme \<Rightarrow> 'a gsys_scheme status option" where
  "rt_schedulable tg period runtime s =
     (let data = \<lparr>rsd_tg = tg, rsd_period = period, rsd_runtime = runtime\<rparr>
      in walk_tg_tree_from (tg_children s) [] (tg_rt_schedulable data) tg_nop s)"

definition set_bandwidth :: "tgid \<Rightarrow> u64 \<Rightarrow> u64 \<Rightarrow> 'a gsys_scheme \<Rightarrow> 'a gsys_scheme" where
  "set_bandwidth tg period runtime s =
     upd_rt_rq tg (\<lambda>r. r\<lparr>rt_runtime := runtime\<rparr>)
       (s\<lparr>rt_bws := (rt_bws s)(tg := (rt_bws s tg)\<lparr>rt_period := period, rtb_runtime := runtime\<rparr>)\<rparr>)"

definition tg_set_rt_bandwidth ::
  "tgid \<Rightarrow> u64 \<Rightarrow> u64 \<Rightarrow> 'a gsys_scheme \<Rightarrow> 'a gsys_scheme status option" where
  "tg_set_rt_bandwidth tg period runtime s =
     (case rt_schedulable (Some tg) period runtime s of
        None \<Rightarrow> None
      | Some (Inl e, s) \<Rightarrow> Some (Inl e, s)
      | Some (Inr _, s) \<Rightarrow> Some (Inr (), set_bandwidth tg period runtime s))"

definition sched_group_set_rt_runtime ::
  "tgid \<Rightarrow> int \<Rightarrow> 'a gsys_scheme \<Rightarrow> 'a gsys_scheme status option" where
  "sched_group_set_rt_runtime tg rt_runtime_us s =
     (let period = rt_period (rt_bws s tg);
          runtime = of_int rt_runtime_us * NSEC_PER_USEC;
          runtime = (if rt_runtime_us < 0 then RUNTIME_INF else runtime)
      in tg_set_rt_bandwidth tg period runtime s)"

text \<open>The result is converted to a signed \<^verbatim>\<open>long\<close>.\<close>

definition sched_group_rt_runtime :: "tgid \<Rightarrow> 'a gsys_scheme \<Rightarrow> int" where
  "sched_group_rt_runtime tg s =
     (if rtb_runtime (rt_bws s tg) = RUNTIME_INF then - 1
      else sint (ucast (rtb_runtime (rt_bws s tg) div NSEC_PER_USEC) :: ulong))"

definition sched_group_set_rt_period ::
  "tgid \<Rightarrow> int \<Rightarrow> 'a gsys_scheme \<Rightarrow> 'a gsys_scheme status option" where
  "sched_group_set_rt_period tg rt_period_us s =
     (let period = of_int rt_period_us * NSEC_PER_USEC;
          runtime = rtb_runtime (rt_bws s tg)
      in if period = 0 then Some (Inl EINVAL, s) else tg_set_rt_bandwidth tg period runtime s)"

definition sched_group_rt_period :: "tgid \<Rightarrow> 'a gsys_scheme \<Rightarrow> int" where
  "sched_group_rt_period tg s = sint (ucast (rt_period (rt_bws s tg) div NSEC_PER_USEC) :: ulong)"

definition sched_rt_global_constraints :: "'a gsys_scheme \<Rightarrow> 'a gsys_scheme status option" where
  "sched_rt_global_constraints s =
     (if sysctl_sched_rt_period s \<le> 0 then Some (Inl EINVAL, s)
      else
        let runtime = global_rt_runtime s; period = global_rt_period s in
        if runtime > period \<and> runtime \<noteq> RUNTIME_INF then Some (Inl EINVAL, s)
        else rt_schedulable None 0 0 s)"

definition sched_rt_can_attach :: "tgid \<Rightarrow> tid \<Rightarrow> 'a gsys_scheme \<Rightarrow> bool" where
  "sched_rt_can_attach tg p s = (\<not> (rt_task (task s p) \<and> rtb_runtime (rt_bws s tg) = 0))"

text \<open>
  \<^verbatim>\<open>proc_dointvec\<close> reads or writes the two variables; its result and the values it
  leaves are arguments.
\<close>

definition sched_rt_handler ::
  "(errno + unit) \<Rightarrow> int \<Rightarrow> int \<Rightarrow> bool \<Rightarrow> 'a gsys_scheme \<Rightarrow> 'a gsys_scheme status option" where
  "sched_rt_handler dointvec period' runtime' write s =
     (let old_period = sysctl_sched_rt_period s;
          old_runtime = sysctl_sched_rt_runtime s;
          s = s\<lparr>sysctl_sched_rt_period := period', sysctl_sched_rt_runtime := runtime'\<rparr>
      in
        if dointvec = Inr () \<and> write then
          (case sched_rt_global_constraints s of
             None \<Rightarrow> None
           | Some (Inl e, s) \<Rightarrow>
               Some (Inl e, s\<lparr>sysctl_sched_rt_period := old_period,
                              sysctl_sched_rt_runtime := old_runtime\<rparr>)
           | Some (Inr _, s) \<Rightarrow>
               Some (Inr (), s\<lparr>def_rt_bandwidth := (def_rt_bandwidth s)
                 \<lparr>rtb_runtime := global_rt_runtime s, rt_period := global_rt_period s\<rparr>\<rparr>))
        else Some (dointvec, s))"

section \<open>The walk as a depth-first traversal\<close>

datatype tg_tree = TgNode tgid "tg_tree list"

fun tg_root :: "tg_tree \<Rightarrow> tgid" where
  "tg_root (TgNode g ts) = g"

text \<open>The tree is laid out in the children lists and parent pointers.\<close>

fun represents :: "(tgid \<Rightarrow> tgid list) \<Rightarrow> tg_tree \<Rightarrow> bool" where
  "represents children (TgNode g ts) \<longleftrightarrow>
     children g = map tg_root ts \<and> distinct (map tg_root ts) \<and>
     list_all (\<lambda>t. tg_parent (tg_root t) = Some g \<and> represents children t) ts"

fun dfs :: "'s tg_visitor \<Rightarrow> 's tg_visitor \<Rightarrow> tg_tree \<Rightarrow> 's \<Rightarrow> 's status"
  and dfs_list :: "'s tg_visitor \<Rightarrow> 's tg_visitor \<Rightarrow> tg_tree list \<Rightarrow> 's \<Rightarrow> 's status" where
  "dfs down up (TgNode g ts) s =
     (case down g s of
        (Inl e, s) \<Rightarrow> (Inl e, s)
      | (Inr _, s) \<Rightarrow>
          (case dfs_list down up ts s of
             (Inl e, s) \<Rightarrow> (Inl e, s)
           | (Inr _, s) \<Rightarrow> up g s))"
| "dfs_list down up [] s = (Inr (), s)"
| "dfs_list down up (t # ts) s =
     (case dfs down up t s of
        (Inl e, s) \<Rightarrow> (Inl e, s)
      | (Inr _, s) \<Rightarrow> dfs_list down up ts s)"

lemma next_sibling_append:
  "distinct (xs @ x # ys) \<Longrightarrow>
    next_sibling x (xs @ x # ys) = (case ys of [] \<Rightarrow> None | z # zs \<Rightarrow> Some z)"
  by (induction xs) auto

text \<open>What the walk does after it left a group without an error.\<close>

definition walk_after ::
  "(tgid \<Rightarrow> tgid list) \<Rightarrow> tgid \<Rightarrow> 's tg_visitor \<Rightarrow> 's tg_visitor \<Rightarrow> tgid \<Rightarrow> 's \<Rightarrow> 's status option" where
  "walk_after children from down up g s =
     (if g = from then Some (Inr (), s)
      else case tg_parent g of
        None \<Rightarrow> Some (Inr (), s)
      | Some p \<Rightarrow>
          (case next_sibling g (children p) of
             Some c \<Rightarrow> walk_loop children from down up (WDown c) s
           | None \<Rightarrow> walk_loop children from down up (WUp p) s))"

abbreviation continue :: "'s status \<Rightarrow> ('s \<Rightarrow> 's status option) \<Rightarrow> 's status option" where
  "continue r k \<equiv> (case r of (Inl e, s) \<Rightarrow> Some (Inl e, s) | (Inr _, s) \<Rightarrow> k s)"

lemma walk_loop_down:
  "walk_loop children from down up (WDown g) s =
     continue (down g s) (\<lambda>s. case children g of
        [] \<Rightarrow> walk_loop children from down up (WUp g) s
      | c # cs \<Rightarrow> walk_loop children from down up (WDown c) s)"
  by (subst walk_loop.simps) (auto split: prod.splits sum.splits list.splits)

lemma walk_loop_up:
  "walk_loop children from down up (WUp g) s =
     continue (up g s) (walk_after children from down up g)"
  by (subst walk_loop.simps)
    (auto simp: walk_after_def split: prod.splits sum.splits option.splits)

lemma tg_parent_length: "tg_parent c = Some g \<Longrightarrow> length c = Suc (length g)"
  by (auto simp: tg_parent_def split: if_splits)

lemma walk_after_child:
  assumes "children h = map tg_root (us @ v # vs)" "distinct (children h)"
    and "tg_parent (tg_root v) = Some h" "length from \<le> length h"
  shows "walk_after children from down up (tg_root v) s =
    (case vs of [] \<Rightarrow> walk_loop children from down up (WUp h) s
     | w # ws \<Rightarrow> walk_loop children from down up (WDown (tg_root w)) s)"
proof -
  have "tg_root v \<noteq> from" using tg_parent_length [OF assms(3)] assms(4) by auto
  moreover have "next_sibling (tg_root v) (children h) = (case vs of [] \<Rightarrow> None | w # ws \<Rightarrow> Some (tg_root w))"
    using next_sibling_append [of "map tg_root us" "tg_root v" "map tg_root vs"] assms(1,2)
    by (simp split: list.splits)
  ultimately show ?thesis using assms(3) by (simp add: walk_after_def split: list.splits)
qed

lemma walk_dfs:
  "represents children t \<Longrightarrow> length from \<le> length (tg_root t) \<Longrightarrow>
     walk_loop children from down up (WDown (tg_root t)) s =
     continue (dfs down up t s) (walk_after children from down up (tg_root t))"
proof (induction t arbitrary: s)
  case (TgNode h ts)
  have ch: "children h = map tg_root ts" "distinct (children h)" "length from \<le> length h"
    using TgNode.prems by simp_all
  have subs: "walk_loop children from down up (WDown (tg_root (hd vs))) s =
      continue (dfs_list down up vs s) (walk_loop children from down up (WUp h))"
    if "ts = us @ vs" "vs \<noteq> []" for us vs s
    using that
  proof (induction vs arbitrary: us s)
    case Nil
    then show ?case by simp
  next
    case (Cons v vs)
    have v: "v \<in> set ts" "represents children v" "tg_parent (tg_root v) = Some h"
      using Cons.prems TgNode.prems by (simp_all add: list_all_iff)
    have IHv: "walk_loop children from down up (WDown (tg_root v)) s =
        continue (dfs down up v s) (walk_after children from down up (tg_root v))"
      using TgNode.IH [OF v(1,2)] tg_parent_length [OF v(3)] ch(3) by simp
    have after: "walk_after children from down up (tg_root v) s' =
        (case vs of [] \<Rightarrow> walk_loop children from down up (WUp h) s'
         | w # ws \<Rightarrow> walk_loop children from down up (WDown (tg_root w)) s')" for s'
      using walk_after_child [of children h us v vs "from"] v(3) ch Cons.prems(1) by simp
    show ?case
    proof (cases vs)
      case Nil
      then show ?thesis using IHv after by (auto split: prod.splits sum.splits)
    next
      case (Cons w ws)
      then show ?thesis
        using IHv after Cons.IH [of "us @ [v]"] Cons.prems(1) by (auto split: prod.splits sum.splits)
    qed
  qed
  show ?case
  proof (cases ts)
    case Nil
    then show ?thesis using ch(1)
      by (simp add: walk_loop_down walk_loop_up split: prod.splits sum.splits)
  next
    case (Cons t ts')
    have kids: "(case children h of [] \<Rightarrow> walk_loop children from down up (WUp h) s'
        | c # cs \<Rightarrow> walk_loop children from down up (WDown c) s') =
        continue (dfs_list down up ts s') (walk_loop children from down up (WUp h))" for s'
      using subs [of "[]" ts s'] Cons ch(1) by simp
    show ?thesis
      by (simp add: walk_loop_down kids walk_loop_up split: prod.splits sum.splits)
  qed
qed

lemma walk_tg_tree_from_dfs:
  assumes "represents children t" "tg_root t = from"
  shows "walk_tg_tree_from children from down up s = Some (dfs down up t s)"
proof -
  obtain r s' where d: "dfs down up t s = (r, s')" by (cases "dfs down up t s")
  with walk_dfs [OF assms(1), of "from" down up s] assms(2) show ?thesis
    by (cases r) (auto simp: walk_tg_tree_from_def walk_after_def)
qed

section \<open>Schedulability\<close>

lemma status_error: "r \<noteq> Inr () \<Longrightarrow> \<exists>e. r = Inl e" for r :: "'e + unit"
  by (cases r) auto

fun tg_nodes :: "tg_tree \<Rightarrow> tgid list" where
  "tg_nodes (TgNode g ts) = g # concat (map tg_nodes ts)"

text \<open>The condition the test puts on one group, for a bandwidth of every group.\<close>

definition rt_group_ok :: "(tgid \<Rightarrow> u64 \<times> u64) \<Rightarrow> 'a gsys_scheme \<Rightarrow> tgid \<Rightarrow> bool" where
  "rt_group_ok bw s g \<longleftrightarrow>
     (let ratio = (\<lambda>g. to_ratio (fst (bw g)) (snd (bw g))) in
      (snd (bw g) \<le> fst (bw g) \<or> snd (bw g) = RUNTIME_INF) \<and>
      \<not> (rt_bandwidth_enabled s \<and> snd (bw g) = 0 \<and> tg_has_rt_tasks g s) \<and>
      ratio g \<le> to_ratio (global_rt_period s) (global_rt_runtime s) \<and>
      sum_list (map ratio (tg_children s g)) \<le> ratio g)"

lemma foldl_plus: "foldl (\<lambda>acc x. acc + f x) a xs = a + sum_list (map f xs)" for a :: "'b :: monoid_add"
  by (induction xs arbitrary: a) (simp_all add: add.assoc)

lemma tg_rt_schedulable_ok:
  "snd (tg_rt_schedulable d g s) = s"
  "fst (tg_rt_schedulable d g s) = Inr () \<longleftrightarrow> rt_group_ok (\<lambda>g. tg_bandwidth d g s) s g"
  by (auto simp: tg_rt_schedulable_def rt_group_ok_def Let_def foldl_plus case_prod_beta)

text \<open>A walk that changes nothing stops with the error of the first group, in pre-order, that has one.\<close>

definition first_error :: "(tgid \<Rightarrow> errno + unit) \<Rightarrow> tgid list \<Rightarrow> errno + unit" where
  "first_error f gs = (case find (\<lambda>g. f g \<noteq> Inr ()) gs of None \<Rightarrow> Inr () | Some g \<Rightarrow> f g)"

lemma first_error_simps [simp]:
  "first_error f [] = Inr ()"
  "first_error f (g # gs) = (if f g = Inr () then first_error f gs else f g)"
  "first_error f (xs @ ys) = (if first_error f xs = Inr () then first_error f ys else first_error f xs)"
proof -
  show "first_error f [] = Inr ()" "first_error f (g # gs) = (if f g = Inr () then first_error f gs else f g)"
    for g gs by (simp_all add: first_error_def)
  then show "first_error f (xs @ ys) = (if first_error f xs = Inr () then first_error f ys else first_error f xs)"
    by (induction xs) simp_all
qed

lemma first_error_ok: "first_error f gs = Inr () \<longleftrightarrow> (\<forall>g \<in> set gs. f g = Inr ())"
  by (induction gs) auto

lemma dfs_readonly:
  assumes "\<And>g. snd (down g s) = s"
  shows "dfs down tg_nop t s = (first_error (\<lambda>g. fst (down g s)) (tg_nodes t), s)"
proof (induction t)
  case (TgNode h ts)
  have eq: "down g s = (fst (down g s), s)" for g using assms [of g] by (metis prod.collapse)
  have "dfs_list down tg_nop ts s = (first_error (\<lambda>g. fst (down g s)) (concat (map tg_nodes ts)), s)"
    using TgNode by (induction ts) (auto split: sum.splits)
  then show ?case
    by (subst dfs.simps, subst eq) (auto simp: tg_nop_def split: sum.splits)
qed

text \<open>Every group of the tree meets its condition with its current bandwidth.\<close>

definition rt_feasible :: "tg_tree \<Rightarrow> 'a gsys_scheme \<Rightarrow> bool" where
  "rt_feasible t s \<longleftrightarrow>
     (\<forall>g \<in> set (tg_nodes t). rt_group_ok (\<lambda>g. (rt_period (rt_bws s g), rtb_runtime (rt_bws s g))) s g)"

lemma rt_schedulable_eq:
  assumes "represents (tg_children s) t" "tg_root t = []"
  shows "rt_schedulable tg p r s =
    Some (first_error (\<lambda>g. fst (tg_rt_schedulable \<lparr>rsd_tg = tg, rsd_period = p, rsd_runtime = r\<rparr> g s))
            (tg_nodes t), s)"
  by (simp add: rt_schedulable_def walk_tg_tree_from_dfs [OF assms]
      dfs_readonly [OF tg_rt_schedulable_ok(1)])

lemma set_bandwidth_fields [simp]:
  "tg_children (set_bandwidth tg p r s) = tg_children s" "threads (set_bandwidth tg p r s) = threads s"
  "task (set_bandwidth tg p r s) = task s"
  "sysctl_sched_rt_period (set_bandwidth tg p r s) = sysctl_sched_rt_period s"
  "sysctl_sched_rt_runtime (set_bandwidth tg p r s) = sysctl_sched_rt_runtime s"
  "rt_bws (set_bandwidth tg p r s) =
     (rt_bws s)(tg := (rt_bws s tg)\<lparr>rt_period := p, rtb_runtime := r\<rparr>)"
  by (simp_all add: set_bandwidth_def upd_rt_rq_def)

lemma rt_group_ok_cong:
  assumes "bw' = bw" "tg_children s' = tg_children s" "threads s' = threads s" "task s' = task s"
    and "sysctl_sched_rt_period s' = sysctl_sched_rt_period s"
    and "sysctl_sched_rt_runtime s' = sysctl_sched_rt_runtime s"
  shows "rt_group_ok bw' s' g = rt_group_ok bw s g"
  using assms
  by (simp add: rt_group_ok_def tg_has_rt_tasks_def rt_bandwidth_enabled_def global_rt_period_def
      global_rt_runtime_def)

lemma rt_schedulable_proposed:
  "(\<forall>g \<in> set (tg_nodes t). fst (tg_rt_schedulable \<lparr>rsd_tg = Some tg, rsd_period = p, rsd_runtime = r\<rparr> g s) = Inr ())
    \<longleftrightarrow> rt_feasible t (set_bandwidth tg p r s)"
proof -
  have "(\<lambda>g. (rt_period (rt_bws (set_bandwidth tg p r s) g), rtb_runtime (rt_bws (set_bandwidth tg p r s) g))) =
      (\<lambda>g. tg_bandwidth \<lparr>rsd_tg = Some tg, rsd_period = p, rsd_runtime = r\<rparr> g s)"
    by (auto simp: tg_bandwidth_def)
  from rt_group_ok_cong [OF this, of "set_bandwidth tg p r s" s] show ?thesis
    unfolding rt_feasible_def tg_rt_schedulable_ok(2) by simp
qed

lemma tg_set_rt_bandwidth_eq:
  assumes "represents (tg_children s) t" "tg_root t = []"
  shows "\<exists>e. tg_set_rt_bandwidth tg p r s =
    Some (if rt_feasible t (set_bandwidth tg p r s) then (Inr (), set_bandwidth tg p r s) else (Inl e, s))"
proof (cases "rt_feasible t (set_bandwidth tg p r s)")
  case True
  then have "first_error (\<lambda>g. fst (tg_rt_schedulable
      \<lparr>rsd_tg = Some tg, rsd_period = p, rsd_runtime = r\<rparr> g s)) (tg_nodes t) = Inr ()"
    using rt_schedulable_proposed [of t tg p r s] by (simp only: first_error_ok)
  with True show ?thesis
    by (simp add: tg_set_rt_bandwidth_def rt_schedulable_eq [OF assms])
next
  case False
  let ?r = "first_error (\<lambda>g. fst (tg_rt_schedulable
      \<lparr>rsd_tg = Some tg, rsd_period = p, rsd_runtime = r\<rparr> g s)) (tg_nodes t)"
  have "?r \<noteq> Inr ()" using False rt_schedulable_proposed [of t tg p r s] by (simp only: first_error_ok) simp
  then obtain e where "?r = Inl e" by (cases ?r) auto
  with False show ?thesis
    by (simp add: tg_set_rt_bandwidth_def rt_schedulable_eq [OF assms])
qed

lemma rt_group_ok_none:
  "rt_group_ok (\<lambda>g. tg_bandwidth \<lparr>rsd_tg = None, rsd_period = p, rsd_runtime = r\<rparr> g s) s g =
   rt_group_ok (\<lambda>g. (rt_period (rt_bws s g), rtb_runtime (rt_bws s g))) s g"
  by (simp add: tg_bandwidth_def)

lemma global_constraints_feasible:
  assumes "represents (tg_children s) t" "tg_root t = []"
    and "sched_rt_global_constraints s = Some (r, s')"
  shows "s' = s \<and> (r = Inr () \<longrightarrow> rt_feasible t s)"
  using assms(3)
  by (auto simp: sched_rt_global_constraints_def Let_def rt_schedulable_eq [OF assms(1,2)]
      first_error_ok tg_rt_schedulable_ok(2) rt_group_ok_none rt_feasible_def split: if_splits)

lemma rt_feasible_update:
  assumes "rt_bws s' = rt_bws s" "tg_children s' = tg_children s" "threads s' = threads s" "task s' = task s"
    and "sysctl_sched_rt_period s' = sysctl_sched_rt_period s"
    and "sysctl_sched_rt_runtime s' = sysctl_sched_rt_runtime s"
  shows "rt_feasible t s' = rt_feasible t s"
  using rt_group_ok_cong [OF _ assms(2-6)] assms(1) by (simp add: rt_feasible_def)

section \<open>Reading limits back\<close>

lemma tg_set_rt_bandwidth_sets:
  "tg_set_rt_bandwidth tg p r s = Some (Inr (), s') \<Longrightarrow>
    rt_period (rt_bws s' tg) = p \<and> rtb_runtime (rt_bws s' tg) = r"
  by (auto simp: tg_set_rt_bandwidth_def split: option.splits sum.splits)

lemma usec_word:
  assumes "0 \<le> k" "k < 2 ^ 31"
  shows "uint (of_int k * NSEC_PER_USEC) = k * 1000"
    and "sint (ucast (of_int k * NSEC_PER_USEC div NSEC_PER_USEC) :: ulong) = k"
    and "of_int k * NSEC_PER_USEC \<noteq> RUNTIME_INF"
proof -
  show u: "uint (of_int k * NSEC_PER_USEC) = k * 1000"
    using assms by (simp add: NSEC_PER_USEC_def uint_word_ariths uint_word_of_int)
  have "uint (of_int k * NSEC_PER_USEC div NSEC_PER_USEC) = k"
    unfolding uint_div u by (simp add: NSEC_PER_USEC_def)
  then have "of_int k * NSEC_PER_USEC div NSEC_PER_USEC = (of_int k :: u64)"
    by (metis word_of_int_uint of_int_uint)
  then have "(ucast (of_int k * NSEC_PER_USEC div NSEC_PER_USEC) :: ulong) = of_int k"
    using assms by (simp add: ucast_eq uint_word_of_int)
  then show "sint (ucast (of_int k * NSEC_PER_USEC div NSEC_PER_USEC) :: ulong) = k"
    using sint_of_int_small [of k] assms by simp
  have "uint RUNTIME_INF = 2 ^ 64 - 1" unfolding RUNTIME_INF_def by code_simp
  then show "of_int k * NSEC_PER_USEC \<noteq> RUNTIME_INF" using u assms by auto
qed

end
