(* ===== verification/Rt.thy ===== *)
theory Rt
  imports Task_Group
begin

text \<open>
  The real-time scheduling class, \<^verbatim>\<open>scheduler/sched/rt.c\<close>, for one processor
  with \<^verbatim>\<open>CONFIG_RT_GROUP_SCHED\<close>: the functions of the file in its order.

  An entity is a task or a task group. The run queue \<open>rt_rqs s g\<close> of a group \<open>g\<close> holds
  its tasks and its child groups in one list per priority; \<open>rt_rqs s []\<close> is the run queue
  of the processor. The links \<^verbatim>\<open>init_tg_rt_entry\<close> gives a group entity follow
  from the path of the group: it is queued on the run queue of its parent group, its own
  queue is that of the group, and the root group has no entity. The bit search of the
  architecture is the parameter \<open>sched_find_first_bit\<close>.
\<close>

section \<open>Bandwidth timer and run queue\<close>

definition upd_rt_bw ::
  "tgid \<Rightarrow> (rt_bandwidth \<Rightarrow> rt_bandwidth) \<Rightarrow> 'a ksys_scheme \<Rightarrow> 'a ksys_scheme" where
  "upd_rt_bw g f s = s\<lparr>rt_bws := (rt_bws s)(g := f (rt_bws s g))\<rparr>"

lemma upd_rt_bw_proj [simp]:
  "rt_bws (upd_rt_bw g f s) h = (if h = g then f (rt_bws s g) else rt_bws s h)"
  "task (upd_rt_bw g f s) = task s"
  "rq (upd_rt_bw g f s) = rq s"
  "rt_rqs (upd_rt_bw g f s) = rt_rqs s"
  "cpuusage (upd_rt_bw g f s) = cpuusage s"
  "jiffies (upd_rt_bw g f s) = jiffies s"
  "sclock (upd_rt_bw g f s) = sclock s"
  "sysctl_sched_rt_period (upd_rt_bw g f s) = sysctl_sched_rt_period s"
  "sysctl_sched_rt_runtime (upd_rt_bw g f s) = sysctl_sched_rt_runtime s"
  "events (upd_rt_bw g f s) = events s"
  by (simp_all add: upd_rt_bw_def)

definition RR_TIMESLICE :: "kenv \<Rightarrow> u32" where
  "RR_TIMESLICE env = of_nat (100 * HZ env div 1000)"

text \<open>
  \<^verbatim>\<open>hrtimer_init\<close> leaves the timer inactive; starting it makes it active, which
  ends the loop of \<^verbatim>\<open>start_bandwidth_timer\<close>.
\<close>

definition init_rt_bandwidth :: "tgid \<Rightarrow> u64 \<Rightarrow> u64 \<Rightarrow> 'a ksys_scheme \<Rightarrow> 'a ksys_scheme" where
  "init_rt_bandwidth g period runtime =
     upd_rt_bw g (\<lambda>b. b\<lparr>rt_period := period, rtb_runtime := runtime, rt_timer_active := False\<rparr>)"

definition start_bandwidth_timer :: "tgid \<Rightarrow> u64 \<Rightarrow> 'a ksys_scheme \<Rightarrow> 'a ksys_scheme" where
  "start_bandwidth_timer g period s =
     (if rt_timer_active (rt_bws s g) then s
      else emit (HrtimerStart g period) (upd_rt_bw g (\<lambda>b. b\<lparr>rt_timer_active := True\<rparr>) s))"

definition start_rt_bandwidth :: "tgid \<Rightarrow> 'a ksys_scheme \<Rightarrow> 'a ksys_scheme" where
  "start_rt_bandwidth g s =
     (if \<not> rt_bandwidth_enabled s \<or> rtb_runtime (rt_bws s g) = RUNTIME_INF then s
      else if rt_timer_active (rt_bws s g) then s
      else start_bandwidth_timer g (rt_period (rt_bws s g)) s)"

definition init_rt_rq :: "tgid \<Rightarrow> 'a ksys_scheme \<Rightarrow> 'a ksys_scheme" where
  "init_rt_rq g =
     upd_rt_rq g (\<lambda>r. r\<lparr>rt_queue := (\<lambda>i. if i < nat MAX_RT_PRIO then [] else rt_queue r i),
                         rt_bitmap := (\<lambda>i. if i < nat MAX_RT_PRIO then False
                                           else i = nat MAX_RT_PRIO \<or> rt_bitmap r i),
                         rt_time := 0, rt_throttled := False, rt_runtime := 0\<rparr>)"

definition destroy_rt_bandwidth :: "tgid \<Rightarrow> 'a ksys_scheme \<Rightarrow> 'a ksys_scheme" where
  "destroy_rt_bandwidth g s =
     emit (HrtimerCancel g) (upd_rt_bw g (\<lambda>b. b\<lparr>rt_timer_active := False\<rparr>) s)"

text \<open>
  \<^verbatim>\<open>has_se\<close> tells whether the array of group entities was allocated. Freed memory
  has no counterpart.
\<close>

definition free_rt_sched_group :: "bool \<Rightarrow> tgid \<Rightarrow> 'a ksys_scheme \<Rightarrow> 'a ksys_scheme" where
  "free_rt_sched_group has_se g s = (if has_se then destroy_rt_bandwidth g s else s)"

definition init_tg_rt_entry :: "tgid \<Rightarrow> 'a ksys_scheme \<Rightarrow> 'a ksys_scheme" where
  "init_tg_rt_entry g =
     upd_rt_rq g (\<lambda>r. r\<lparr>highest_prio := MAX_RT_PRIO, rt_nr_boosted := 0\<rparr>)"

definition kzalloc_rt_rq :: rt_rq where
  "kzalloc_rt_rq =
     \<lparr>rt_queue = (\<lambda>i. []), rt_bitmap = (\<lambda>i. False), rt_nr_running = 0, highest_prio = 0,
      rt_throttled = False, rt_time = 0, rt_runtime = 0, rt_nr_boosted = 0\<rparr>"

text \<open>The four allocations are arguments: which of them succeed.\<close>

definition alloc_rt_sched_group ::
  "bool \<Rightarrow> bool \<Rightarrow> bool \<Rightarrow> bool \<Rightarrow> tgid \<Rightarrow> 'a gsys_scheme \<Rightarrow> int \<times> 'a gsys_scheme" where
  "alloc_rt_sched_group rqs_ok ses_ok rq_ok se_ok g s =
     (if \<not> rqs_ok then (0, s)
      else if \<not> ses_ok then (0, s)
      else
        let s = init_rt_bandwidth g (rt_period (def_rt_bandwidth s)) 0 s in
        if \<not> rq_ok then (0, s)
        else if \<not> se_ok then (0, s)
        else
          let s = upd_rt_rq g (\<lambda>r. kzalloc_rt_rq) s;
              s = init_rt_rq g s;
              s = upd_rt_rq g (\<lambda>r. r\<lparr>rt_runtime := rtb_runtime (rt_bws s g)\<rparr>) s
          in (1, init_tg_rt_entry g s))"

section \<open>Entities\<close>

definition rt_rq_of_se :: "'a ksys_scheme \<Rightarrow> rt_ent \<Rightarrow> tgid" where
  "rt_rq_of_se s e = (case e of RtTask p \<Rightarrow> rt_rq_of (rt (task s p)) | RtGroup g \<Rightarrow> butlast g)"

definition group_rt_rq :: "rt_ent \<Rightarrow> tgid option" where
  "group_rt_rq e = (case e of RtTask p \<Rightarrow> None | RtGroup g \<Rightarrow> Some g)"

definition tg_rt_se :: "tgid \<Rightarrow> rt_ent option" where
  "tg_rt_se g = (if g = [] then None else Some (RtGroup g))"

definition rt_se_parent :: "'a ksys_scheme \<Rightarrow> rt_ent \<Rightarrow> rt_ent option" where
  "rt_se_parent s e =
     (case e of RtTask p \<Rightarrow> map_option RtGroup (rt_parent (rt (task s p)))
      | RtGroup g \<Rightarrow> tg_rt_se (butlast g))"

text \<open>
  The entities \<^verbatim>\<open>for_each_sched_rt_entity\<close> visits, in order. The loops of this
  file do not change the links they follow.
\<close>

function group_chain :: "tgid \<Rightarrow> rt_ent list" where
  "group_chain g = (if g = [] then [] else RtGroup g # group_chain (butlast g))"
  by auto
termination by (relation "measure length") auto

declare group_chain.simps [simp del]

definition rt_chain :: "'a ksys_scheme \<Rightarrow> rt_ent \<Rightarrow> rt_ent list" where
  "rt_chain s e =
     (case e of
        RtTask p \<Rightarrow> e # (case rt_parent (rt (task s p)) of None \<Rightarrow> [] | Some g \<Rightarrow> group_chain g)
      | RtGroup g \<Rightarrow> group_chain g)"

definition rt_prios :: "nat list" where
  "rt_prios = [0..<nat MAX_RT_PRIO]"

definition on_rt_rq :: "'a ksys_scheme \<Rightarrow> rt_ent \<Rightarrow> bool" where
  "on_rt_rq s e = list_ex (\<lambda>i. e \<in> set (rt_queue (rt_rqs s (rt_rq_of_se s e)) i)) rt_prios"

text \<open>The list an entity is linked in, empty when it is linked to itself.\<close>

definition rt_run_list :: "'a ksys_scheme \<Rightarrow> rt_ent \<Rightarrow> rt_ent list" where
  "rt_run_list s e =
     (let r = rt_rqs s (rt_rq_of_se s e) in
      case find (\<lambda>i. e \<in> set (rt_queue r i)) rt_prios of None \<Rightarrow> [] | Some i \<Rightarrow> rt_queue r i)"

text \<open>
  \<^verbatim>\<open>rt_rq->tg\<close> is set for every run queue by \<^verbatim>\<open>init_tg_rt_entry\<close>, so the
  test for its absence has no counterpart.
\<close>

definition sched_rt_runtime :: "tgid \<Rightarrow> 'a ksys_scheme \<Rightarrow> u64" where
  "sched_rt_runtime g s = rt_runtime (rt_rqs s g)"

definition sched_rt_period :: "tgid \<Rightarrow> 'a ksys_scheme \<Rightarrow> u64" where
  "sched_rt_period g s = rt_period (rt_bws s g)"

definition list_add_leaf_rt_rq :: "tgid \<Rightarrow> 'a ksys_scheme \<Rightarrow> 'a ksys_scheme" where
  "list_add_leaf_rt_rq g = upd_rq (\<lambda>r. r\<lparr>leaf_rt_rq_list := list_add g (leaf_rt_rq_list r)\<rparr>)"

definition list_del_leaf_rt_rq :: "tgid \<Rightarrow> 'a ksys_scheme \<Rightarrow> 'a ksys_scheme" where
  "list_del_leaf_rt_rq g = upd_rq (\<lambda>r. r\<lparr>leaf_rt_rq_list := list_del_init g (leaf_rt_rq_list r)\<rparr>)"

definition rt_rq_throttled :: "tgid \<Rightarrow> 'a ksys_scheme \<Rightarrow> bool" where
  "rt_rq_throttled g s = (rt_throttled (rt_rqs s g) \<and> rt_nr_boosted (rt_rqs s g) = 0)"

definition rt_se_boosted :: "'a ksys_scheme \<Rightarrow> rt_ent \<Rightarrow> bool" where
  "rt_se_boosted s e =
     (case e of RtGroup g \<Rightarrow> rt_nr_boosted (rt_rqs s g) \<noteq> 0
      | RtTask p \<Rightarrow> prio (task s p) \<noteq> normal_prio (task s p))"

definition rt_se_prio :: "'a ksys_scheme \<Rightarrow> rt_ent \<Rightarrow> int" where
  "rt_se_prio s e =
     (case e of RtGroup g \<Rightarrow> highest_prio (rt_rqs s g) | RtTask p \<Rightarrow> prio (task s p))"

section \<open>Enqueue and dequeue of entities\<close>

definition inc_rt_prio :: "tgid \<Rightarrow> int \<Rightarrow> 'a ksys_scheme \<Rightarrow> 'a ksys_scheme" where
  "inc_rt_prio g pr =
     upd_rt_rq g (\<lambda>r. if pr < highest_prio r then r\<lparr>highest_prio := pr\<rparr> else r)"

definition dec_rt_prio :: "kenv \<Rightarrow> tgid \<Rightarrow> int \<Rightarrow> 'a ksys_scheme \<Rightarrow> 'a ksys_scheme" where
  "dec_rt_prio env g pr =
     upd_rt_rq g (\<lambda>r.
       if rt_nr_running r \<noteq> 0 then
         (if pr = highest_prio r
          then r\<lparr>highest_prio := int (sched_find_first_bit env (rt_bitmap r))\<rparr>
          else r)
       else r\<lparr>highest_prio := MAX_RT_PRIO\<rparr>)"

definition inc_rt_group :: "rt_ent \<Rightarrow> tgid \<Rightarrow> 'a ksys_scheme \<Rightarrow> 'a ksys_scheme" where
  "inc_rt_group e g s =
     (let s = (if rt_se_boosted s e
               then upd_rt_rq g (\<lambda>r. r\<lparr>rt_nr_boosted := rt_nr_boosted r + 1\<rparr>) s else s)
      in start_rt_bandwidth g s)"

definition dec_rt_group :: "rt_ent \<Rightarrow> tgid \<Rightarrow> 'a ksys_scheme \<Rightarrow> 'a ksys_scheme" where
  "dec_rt_group e g s =
     (if rt_se_boosted s e
      then upd_rt_rq g (\<lambda>r. r\<lparr>rt_nr_boosted := rt_nr_boosted r - 1\<rparr>) s else s)"

definition inc_rt_tasks :: "rt_ent \<Rightarrow> tgid \<Rightarrow> 'a ksys_scheme \<Rightarrow> 'a ksys_scheme" where
  "inc_rt_tasks e g s =
     (let pr = rt_se_prio s e;
          s = upd_rt_rq g (\<lambda>r. r\<lparr>rt_nr_running := rt_nr_running r + 1\<rparr>) s;
          s = inc_rt_prio g pr s
      in inc_rt_group e g s)"

definition dec_rt_tasks :: "kenv \<Rightarrow> rt_ent \<Rightarrow> tgid \<Rightarrow> 'a ksys_scheme \<Rightarrow> 'a ksys_scheme" where
  "dec_rt_tasks env e g s =
     (let s = upd_rt_rq g (\<lambda>r. r\<lparr>rt_nr_running := rt_nr_running r - 1\<rparr>) s;
          s = dec_rt_prio env g (rt_se_prio s e) s
      in dec_rt_group e g s)"

text \<open>\<^verbatim>\<open>__enqueue_rt_entity\<close> and \<^verbatim>\<open>__dequeue_rt_entity\<close>.\<close>

definition link_rt_entity :: "tgid \<Rightarrow> nat \<Rightarrow> rt_ent \<Rightarrow> bool \<Rightarrow> 'a ksys_scheme \<Rightarrow> 'a ksys_scheme" where
  "link_rt_entity g i e head =
     upd_rt_rq g (\<lambda>r. r\<lparr>rt_queue := (rt_queue r)(i := (if head then list_add e (rt_queue r i)
                                                      else list_add_tail e (rt_queue r i))),
                         rt_bitmap := (rt_bitmap r)(i := True)\<rparr>)"

definition enqueue_rt_entity1 :: "bool \<Rightarrow> rt_ent \<Rightarrow> 'a ksys_scheme \<Rightarrow> 'a ksys_scheme" where
  "enqueue_rt_entity1 head e s =
     (let g = rt_rq_of_se s e;
          i = nat (rt_se_prio s e);
          skip = (case group_rt_rq e of None \<Rightarrow> False
                  | Some h \<Rightarrow> rt_rq_throttled h s \<or> rt_nr_running (rt_rqs s h) = 0)
      in if skip then s
         else
           let s = (if rt_nr_running (rt_rqs s g) = 0 then list_add_leaf_rt_rq g s else s);
               s = link_rt_entity g i e head s
           in inc_rt_tasks e g s)"

definition unlink_rt_entity :: "tgid \<Rightarrow> rt_ent \<Rightarrow> 'a ksys_scheme \<Rightarrow> 'a ksys_scheme" where
  "unlink_rt_entity g e = upd_rt_rq g (\<lambda>r. r\<lparr>rt_queue := (\<lambda>i. list_del_init e (rt_queue r i))\<rparr>)"

definition dequeue_rt_entity1 :: "kenv \<Rightarrow> rt_ent \<Rightarrow> 'a ksys_scheme \<Rightarrow> 'a ksys_scheme" where
  "dequeue_rt_entity1 env e s =
     (let g = rt_rq_of_se s e;
          s = unlink_rt_entity g e s;
          i = nat (rt_se_prio s e);
          s = (if rt_queue (rt_rqs s g) i = []
               then upd_rt_rq g (\<lambda>r. r\<lparr>rt_bitmap := (rt_bitmap r)(i := False)\<rparr>) s else s);
          s = dec_rt_tasks env e g s
      in if rt_nr_running (rt_rqs s g) = 0 then list_del_leaf_rt_rq g s else s)"

text \<open>The stack is emptied from the top: the \<^verbatim>\<open>back\<close> pointers reverse the chain.\<close>

definition dequeue_rt_stack :: "kenv \<Rightarrow> rt_ent \<Rightarrow> 'a ksys_scheme \<Rightarrow> 'a ksys_scheme" where
  "dequeue_rt_stack env e s =
     fold (\<lambda>e s. if on_rt_rq s e then dequeue_rt_entity1 env e s else s) (rev (rt_chain s e)) s"

definition enqueue_rt_entity :: "kenv \<Rightarrow> rt_ent \<Rightarrow> bool \<Rightarrow> 'a ksys_scheme \<Rightarrow> 'a ksys_scheme" where
  "enqueue_rt_entity env e head s =
     fold (enqueue_rt_entity1 head) (rt_chain s e) (dequeue_rt_stack env e s)"

definition dequeue_rt_entity :: "kenv \<Rightarrow> rt_ent \<Rightarrow> 'a ksys_scheme \<Rightarrow> 'a ksys_scheme" where
  "dequeue_rt_entity env e s =
     fold (\<lambda>e s. case group_rt_rq e of
                   None \<Rightarrow> s
                 | Some h \<Rightarrow> if rt_nr_running (rt_rqs s h) \<noteq> 0 then enqueue_rt_entity1 False e s else s)
       (rt_chain s e) (dequeue_rt_stack env e s)"

section \<open>Throttling and the period timer\<close>

definition sched_rt_rq_enqueue :: "kenv \<Rightarrow> tgid \<Rightarrow> 'a ksys_scheme \<Rightarrow> 'a ksys_scheme" where
  "sched_rt_rq_enqueue env g s =
     (if rt_nr_running (rt_rqs s g) \<noteq> 0 then
        let s = (case tg_rt_se g of
                   None \<Rightarrow> s
                 | Some e \<Rightarrow> if \<not> on_rt_rq s e then enqueue_rt_entity env e False s else s)
        in if highest_prio (rt_rqs s g) < prio (task s (curr (rq s)))
           then resched_task (curr (rq s)) s else s
      else s)"

definition sched_rt_rq_dequeue :: "kenv \<Rightarrow> tgid \<Rightarrow> 'a ksys_scheme \<Rightarrow> 'a ksys_scheme" where
  "sched_rt_rq_dequeue env g s =
     (case tg_rt_se g of
        None \<Rightarrow> s
      | Some e \<Rightarrow> if on_rt_rq s e then dequeue_rt_entity env e s else s)"

text \<open>
  The body of the loop over the processors, for the one there is; the three values are
  the new \<^verbatim>\<open>idle\<close> and \<^verbatim>\<open>throttled\<close>, and the state.
\<close>

definition do_sched_rt_period_timer :: "kenv \<Rightarrow> tgid \<Rightarrow> int \<Rightarrow> 'a ksys_scheme \<Rightarrow> bool \<times> 'a ksys_scheme" where
  "do_sched_rt_period_timer env g overrun s =
     (let (is_idle, enqueue, s) =
        (if rt_time (rt_rqs s g) \<noteq> 0 then
           let runtime = rt_runtime (rt_rqs s g);
               s = upd_rt_rq g (\<lambda>r. r\<lparr>rt_time := rt_time r - min (rt_time r) (of_int overrun * runtime)\<rparr>) s;
               (enqueue, s) =
                 (if rt_throttled (rt_rqs s g) \<and> rt_time (rt_rqs s g) < runtime then
                    let s = upd_rt_rq g (\<lambda>r. r\<lparr>rt_throttled := False\<rparr>) s;
                        s = (if rt_nr_running (rt_rqs s g) \<noteq> 0 \<and> curr (rq s) = idle (rq s)
                             then upd_rq (\<lambda>r. r\<lparr>skip_clock_update := - 1\<rparr>) s else s)
                    in (True, s)
                  else (False, s))
           in (\<not> (rt_time (rt_rqs s g) \<noteq> 0 \<or> rt_nr_running (rt_rqs s g) \<noteq> 0), enqueue, s)
         else if rt_nr_running (rt_rqs s g) \<noteq> 0 then (False, \<not> rt_rq_throttled g s, s)
         else (True, False, s));
          throttled = rt_throttled (rt_rqs s g);
          s = (if enqueue then sched_rt_rq_enqueue env g s else s)
      in if \<not> throttled \<and> (\<not> rt_bandwidth_enabled s \<or> rtb_runtime (rt_bws s g) = RUNTIME_INF)
         then (True, s) else (is_idle, s))"

text \<open>
  The values \<^verbatim>\<open>hrtimer_forward\<close> returns are an argument; the first 0 ends the
  loop. The result tells whether the timer is restarted.
\<close>

fun rt_period_loop ::
  "kenv \<Rightarrow> tgid \<Rightarrow> int list \<Rightarrow> bool \<Rightarrow> 'a ksys_scheme \<Rightarrow> bool \<times> 'a ksys_scheme" where
  "rt_period_loop env g [] was_idle s = (was_idle, s)"
| "rt_period_loop env g (overrun # os) was_idle s =
     (if overrun = 0 then (was_idle, s)
      else case do_sched_rt_period_timer env g overrun s of
             (is_idle, s) \<Rightarrow> rt_period_loop env g os is_idle s)"

definition sched_rt_period_timer ::
  "kenv \<Rightarrow> tgid \<Rightarrow> int list \<Rightarrow> 'a ksys_scheme \<Rightarrow> bool \<times> 'a ksys_scheme" where
  "sched_rt_period_timer env g overruns s =
     (case rt_period_loop env g overruns False s of (is_idle, s) \<Rightarrow> (\<not> is_idle, s))"

definition sched_rt_runtime_exceeded :: "kenv \<Rightarrow> tgid \<Rightarrow> 'a ksys_scheme \<Rightarrow> bool \<times> 'a ksys_scheme" where
  "sched_rt_runtime_exceeded env g s =
     (let runtime = sched_rt_runtime g s in
      if rt_throttled (rt_rqs s g) then (rt_rq_throttled g s, s)
      else if runtime \<ge> sched_rt_period g s then (False, s)
      else if runtime = RUNTIME_INF then (False, s)
      else if rt_time (rt_rqs s g) > runtime then
        let s = (if rtb_runtime (rt_bws s g) \<noteq> 0
                 then upd_rt_rq g (\<lambda>r. r\<lparr>rt_throttled := True\<rparr>) s
                 else upd_rt_rq g (\<lambda>r. r\<lparr>rt_time := 0\<rparr>) s)
        in if rt_rq_throttled g s then (True, sched_rt_rq_dequeue env g s) else (False, s)
      else (False, s))"

text \<open>One round of the loop of \<^verbatim>\<open>update_curr_rt\<close>.\<close>

definition charge_rt_entity ::
  "kenv \<Rightarrow> tid \<Rightarrow> u64 \<Rightarrow> rt_ent \<Rightarrow> 'a ksys_scheme \<Rightarrow> 'a ksys_scheme" where
  "charge_rt_entity env c delta_exec e s =
     (let g = rt_rq_of_se s e in
      if sched_rt_runtime g s \<noteq> RUNTIME_INF then
        let s = upd_rt_rq g (\<lambda>r. r\<lparr>rt_time := rt_time r + delta_exec\<rparr>) s;
            (exceeded, s) = sched_rt_runtime_exceeded env g s
        in if exceeded then resched_task c s else s
      else s)"

definition update_curr_rt :: "kenv \<Rightarrow> 'a ksys_scheme \<Rightarrow> 'a ksys_scheme" where
  "update_curr_rt env s =
     (let c = curr (rq s) in
      if sched_class (task s c) \<noteq> rt_sched_class then s
      else
        let delta = clock_task (rq s) - exec_start (se (task s c));
            delta_exec = (if delta <s 0 then 0 else delta);
            s = upd_se c (\<lambda>e. e\<lparr>exec_max := max (exec_max e) delta_exec\<rparr>) s;
            s = upd_se c (\<lambda>e. e\<lparr>sum_exec_runtime := sum_exec_runtime e + delta_exec\<rparr>) s;
            s = emit (AccountGroupExecRuntime c delta_exec) s;
            s = upd_se c (\<lambda>e. e\<lparr>exec_start := clock_task (rq s)\<rparr>) s;
            s = cpuacct_charge env c delta_exec s
        in if \<not> rt_bandwidth_enabled s then s
           else fold (charge_rt_entity env c delta_exec) (rt_chain s (RtTask c)) s)"

section \<open>The operations of the class\<close>

text \<open>On one processor there are no pushable tasks.\<close>

definition enqueue_task_rt :: "kenv \<Rightarrow> tid \<Rightarrow> u32 \<Rightarrow> 'a ksys_scheme \<Rightarrow> 'a ksys_scheme" where
  "enqueue_task_rt env p flags s =
     (let s = (if flags AND ENQUEUE_WAKEUP \<noteq> 0 then upd_rt_se p (\<lambda>e. e\<lparr>rt_timeout := 0\<rparr>) s else s);
          s = enqueue_rt_entity env (RtTask p) (flags AND ENQUEUE_HEAD \<noteq> 0) s
      in inc_nr_running s)"

definition dequeue_task_rt :: "kenv \<Rightarrow> tid \<Rightarrow> u32 \<Rightarrow> 'a ksys_scheme \<Rightarrow> 'a ksys_scheme" where
  "dequeue_task_rt env p flags s =
     dec_nr_running (dequeue_rt_entity env (RtTask p) (update_curr_rt env s))"

definition requeue_rt_entity :: "tgid \<Rightarrow> rt_ent \<Rightarrow> bool \<Rightarrow> 'a ksys_scheme \<Rightarrow> 'a ksys_scheme" where
  "requeue_rt_entity g e head s =
     (if on_rt_rq s e then
        let i = nat (rt_se_prio s e); s = unlink_rt_entity g e s
        in upd_rt_rq g (\<lambda>r. r\<lparr>rt_queue := (rt_queue r)(i := (if head then list_add e (rt_queue r i)
                                                     else list_add_tail e (rt_queue r i)))\<rparr>) s
      else s)"

definition requeue_task_rt :: "tid \<Rightarrow> bool \<Rightarrow> 'a ksys_scheme \<Rightarrow> 'a ksys_scheme" where
  "requeue_task_rt p head s =
     fold (\<lambda>e s. requeue_rt_entity (rt_rq_of_se s e) e head s) (rt_chain s (RtTask p)) s"

definition yield_task_rt :: "'a ksys_scheme \<Rightarrow> 'a ksys_scheme" where
  "yield_task_rt s = requeue_task_rt (curr (rq s)) False s"

definition check_preempt_curr_rt :: "tid \<Rightarrow> u32 \<Rightarrow> 'a ksys_scheme \<Rightarrow> 'a ksys_scheme" where
  "check_preempt_curr_rt p flags s =
     (if prio (task s p) < prio (task s (curr (rq s))) then resched_task (curr (rq s)) s else s)"

text \<open>
  The pick fails (\<open>None\<close>) at the \<^verbatim>\<open>BUG_ON\<close>; it also fails when the list the bitmap
  names is empty, where the code reads a structure that is not there, and when the
  descent through the groups does not end.
\<close>

definition pick_next_rt_entity :: "kenv \<Rightarrow> tgid \<Rightarrow> 'a ksys_scheme \<Rightarrow> rt_ent option" where
  "pick_next_rt_entity env g s =
     (let idx = sched_find_first_bit env (rt_bitmap (rt_rqs s g)) in
      if idx \<ge> nat MAX_RT_PRIO then None
      else case rt_queue (rt_rqs s g) idx of [] \<Rightarrow> None | e # es \<Rightarrow> Some e)"

partial_function (option) rt_pick_loop :: "kenv \<Rightarrow> tgid \<Rightarrow> 'a ksys_scheme \<Rightarrow> tid option" where
  "rt_pick_loop env g s =
     (case pick_next_rt_entity env g s of
        None \<Rightarrow> None
      | Some e \<Rightarrow> (case e of RtTask p \<Rightarrow> Some p | RtGroup h \<Rightarrow> rt_pick_loop env h s))"

definition pick_next_task_rt :: "kenv \<Rightarrow> 'a ksys_scheme \<Rightarrow> (tid option \<times> 'a ksys_scheme) option" where
  "pick_next_task_rt env s =
     (if rt_nr_running (rt_rqs s []) = 0 then Some (None, s)
      else if rt_rq_throttled [] s then Some (None, s)
      else case rt_pick_loop env [] s of
             None \<Rightarrow> None
           | Some p \<Rightarrow> Some (Some p, upd_se p (\<lambda>e. e\<lparr>exec_start := clock_task (rq s)\<rparr>) s))"

definition put_prev_task_rt :: "kenv \<Rightarrow> tid \<Rightarrow> 'a ksys_scheme \<Rightarrow> 'a ksys_scheme" where
  "put_prev_task_rt env p s = update_curr_rt env s"

definition switched_to_rt :: "tid \<Rightarrow> 'a ksys_scheme \<Rightarrow> 'a ksys_scheme" where
  "switched_to_rt p s =
     (if on_rq (task s p) \<and> curr (rq s) \<noteq> p \<and> prio (task s p) < prio (task s (curr (rq s)))
      then resched_task (curr (rq s)) s else s)"

definition prio_changed_rt :: "tid \<Rightarrow> int \<Rightarrow> 'a ksys_scheme \<Rightarrow> 'a ksys_scheme" where
  "prio_changed_rt p oldprio s =
     (if \<not> on_rq (task s p) then s
      else if curr (rq s) = p then
        (if oldprio < prio (task s p) then resched_task p s else s)
      else if prio (task s p) < prio (task s (curr (rq s))) then resched_task (curr (rq s)) s
      else s)"

definition RLIM_INFINITY :: ulong where "RLIM_INFINITY = NOT 0"

definition USEC_PER_SEC :: ulong where "USEC_PER_SEC = 1000000"

definition DIV_ROUND_UP :: "ulong \<Rightarrow> ulong \<Rightarrow> ulong" where
  "DIV_ROUND_UP n d = (n + d - 1) div d"

definition watchdog :: "kenv \<Rightarrow> tid \<Rightarrow> 'a ksys_scheme \<Rightarrow> 'a ksys_scheme" where
  "watchdog env p s =
     (let soft = rlim_cur env RLIMIT_RTTIME p;
          hard = rlim_max env RLIMIT_RTTIME p
      in if soft \<noteq> RLIM_INFINITY then
           let s = upd_rt_se p (\<lambda>e. e\<lparr>rt_timeout := rt_timeout e + 1\<rparr>) s;
               nxt = DIV_ROUND_UP (min soft hard) (USEC_PER_SEC div of_nat (HZ env))
           in if rt_timeout (rt (task s p)) > nxt
              then upd_task p (\<lambda>t. t\<lparr>sched_exp := sum_exec_runtime (se t)\<rparr>) s else s
         else s)"

definition task_tick_rt :: "kenv \<Rightarrow> tid \<Rightarrow> 'a ksys_scheme \<Rightarrow> 'a ksys_scheme" where
  "task_tick_rt env p s =
     (let s = update_curr_rt env s;
          s = watchdog env p s
      in
        if policy (task s p) \<noteq> SCHED_RR then s
        else
          let s = upd_rt_se p (\<lambda>e. e\<lparr>rt_time_slice := rt_time_slice e - 1\<rparr>) s in
          if rt_time_slice (rt (task s p)) \<noteq> 0 then s
          else
            let s = upd_rt_se p (\<lambda>e. e\<lparr>rt_time_slice := RR_TIMESLICE env\<rparr>) s in
            if list_ex (\<lambda>e. list_prev e (rt_run_list s e) \<noteq> list_next e (rt_run_list s e))
                 (rt_chain s (RtTask p))
            then set_tsk_need_resched p (requeue_task_rt p False s)
            else s)"

definition set_curr_task_rt :: "'a ksys_scheme \<Rightarrow> 'a ksys_scheme" where
  "set_curr_task_rt s =
     upd_se (curr (rq s)) (\<lambda>e. e\<lparr>exec_start := clock_task (rq s)\<rparr>) s"

definition get_rr_interval_rt :: "kenv \<Rightarrow> tid \<Rightarrow> 'a ksys_scheme \<Rightarrow> u32 option" where
  "get_rr_interval_rt env p s =
     (if policy (task s p) = SCHED_RR then Some (RR_TIMESLICE env) else Some 0)"

definition rt_sched_class_ops :: "kenv \<Rightarrow> 'a ksys_scheme sched_class_ops" where
  "rt_sched_class_ops env =
     \<lparr>cls_next = Some wrr_sched_class,
      enqueue_task_op = enqueue_task_rt env,
      dequeue_task_op = dequeue_task_rt env,
      yield_task_op = yield_task_rt,
      check_preempt_curr_op = check_preempt_curr_rt,
      pick_next_task_op = pick_next_task_rt env,
      put_prev_task_op = put_prev_task_rt env,
      set_curr_task_op = set_curr_task_rt,
      task_tick_op = task_tick_rt env,
      task_fork_op = None,
      switched_from_op = None,
      switched_to_op = switched_to_rt,
      prio_changed_op = prio_changed_rt,
      get_rr_interval_op = get_rr_interval_rt env\<rparr>"
end
