(* ===== verification/Rt_Inv.thy ===== *)
theory Rt_Inv
  imports Rt
begin

text \<open>
  The invariant of the real-time run queues and the proof that every operation of
  \<^verbatim>\<open>rt.c\<close> keeps it. The first part is about one priority array, the second about
  the hierarchy of groups.
\<close>

section \<open>One priority array\<close>

definition rt_slots :: "nat set" where "rt_slots = {..<100}"

lemma rt_slots_iff [simp]: "i \<in> rt_slots \<longleftrightarrow> i < 100"
  by (simp add: rt_slots_def)

lemma finite_rt_slots [simp]: "finite rt_slots"
  by (simp add: rt_slots_def)

lemma MAX_RT_PRIO_100: "MAX_RT_PRIO = 100"
  by (simp add: prio_defs)

lemma set_rt_prios: "set rt_prios = rt_slots"
  by (simp add: rt_prios_def MAX_RT_PRIO_100 rt_slots_def atLeast0LessThan)

definition rt_len :: "rt_rq \<Rightarrow> nat" where
  "rt_len r = (\<Sum>i\<in>rt_slots. length (rt_queue r i))"

definition rt_boosted_len :: "(rt_ent \<Rightarrow> bool) \<Rightarrow> rt_rq \<Rightarrow> nat" where
  "rt_boosted_len bf r = (\<Sum>i\<in>rt_slots. length (filter bf (rt_queue r i)))"

definition rt_ents :: "rt_rq \<Rightarrow> rt_ent set" where
  "rt_ents r = (\<Union>i\<in>rt_slots. set (rt_queue r i))"

text \<open>\<open>highest_prio\<close> is the least priority with an entry, or 100.\<close>

definition highest_ok :: "rt_rq \<Rightarrow> bool" where
  "highest_ok r \<longleftrightarrow>
     (\<forall>i<100. rt_queue r i \<noteq> [] \<longrightarrow> highest_prio r \<le> int i) \<and>
     (highest_prio r = 100 \<or> (\<exists>i<100. highest_prio r = int i \<and> rt_queue r i \<noteq> []))"

text \<open>
  A well-formed array for a priority \<open>pf\<close> and a boost flag \<open>bf\<close> of its entries: the
  bitmap shows the non-empty lists, every entry is once in the list of its priority, and
  the three counters are right.
\<close>

definition rq_wf :: "(rt_ent \<Rightarrow> int) \<Rightarrow> (rt_ent \<Rightarrow> bool) \<Rightarrow> rt_rq \<Rightarrow> bool" where
  "rq_wf pf bf r \<longleftrightarrow>
     rt_bitmap r 100 \<and> (\<forall>i<100. rt_bitmap r i \<longleftrightarrow> rt_queue r i \<noteq> []) \<and>
     (\<forall>i<100. distinct (rt_queue r i) \<and> (\<forall>e\<in>set (rt_queue r i). pf e = int i)) \<and>
     rt_len r < 2 ^ 32 \<and> rt_nr_running r = of_nat (rt_len r) \<and>
     rt_nr_boosted r = of_nat (rt_boosted_len bf r) \<and> highest_ok r"

text \<open>What a search for the first set bit is to return, given the delimiter bit.\<close>

definition find_first_bit_ok :: "kenv \<Rightarrow> bool" where
  "find_first_bit_ok env \<longleftrightarrow>
     (\<forall>b. b 100 \<longrightarrow> b (sched_find_first_bit env b) \<and> (\<forall>j < sched_find_first_bit env b. \<not> b j))"

lemma find_first_bitD:
  assumes "find_first_bit_ok env" "b 100"
  shows "b (sched_find_first_bit env b)"
    and "j < sched_find_first_bit env b \<Longrightarrow> \<not> b j"
    and "sched_find_first_bit env b \<le> 100"
proof -
  have *: "b (sched_find_first_bit env b) \<and> (\<forall>j < sched_find_first_bit env b. \<not> b j)"
    using assms(1) [unfolded find_first_bit_ok_def, THEN spec [of _ b]] assms(2) by (rule mp)
  from * show "b (sched_find_first_bit env b)" "j < sched_find_first_bit env b \<Longrightarrow> \<not> b j"
    by simp_all
  from * assms(2) show "sched_find_first_bit env b \<le> 100" using linorder_not_le by blast
qed

lemma rt_entsI: "i < 100 \<Longrightarrow> e \<in> set (rt_queue r i) \<Longrightarrow> e \<in> rt_ents r"
  by (auto simp: rt_ents_def)

lemma rt_len_0_iff: "rt_len r = 0 \<longleftrightarrow> rt_ents r = {}"
  by (auto simp: rt_len_def rt_ents_def)

lemma rq_wf_nr_running_0_iff:
  assumes "rq_wf pf bf r"
  shows "rt_nr_running r = 0 \<longleftrightarrow> rt_ents r = {}"
  using assms by (simp add: rq_wf_def of_nat_eq_0_iff_small rt_len_0_iff)

lemma rt_ents_empty_iff: "rt_ents r = {} \<longleftrightarrow> (\<forall>i<100. rt_queue r i = [])"
  by (auto simp: rt_ents_def)

lemma highest_prio_100_iff:
  assumes "highest_ok r"
  shows "highest_prio r = 100 \<longleftrightarrow> rt_ents r = {}"
proof
  assume "highest_prio r = 100"
  with assms show "rt_ents r = {}" by (force simp: highest_ok_def rt_ents_empty_iff)
next
  assume "rt_ents r = {}"
  with assms show "highest_prio r = 100" by (auto simp: highest_ok_def rt_ents_empty_iff)
qed

lemma rq_wf_prio: "rq_wf pf bf r \<Longrightarrow> i < 100 \<Longrightarrow> e \<in> set (rt_queue r i) \<Longrightarrow> pf e = int i"
  by (simp add: rq_wf_def)

lemma rt_len_card:
  assumes "rq_wf pf bf r"
  shows "rt_len r = card (rt_ents r)"
proof -
  have "card (rt_ents r) = (\<Sum>i\<in>rt_slots. card (set (rt_queue r i)))"
    unfolding rt_ents_def
  proof (rule card_UN_disjoint)
    show "\<forall>i\<in>rt_slots. \<forall>j\<in>rt_slots. i \<noteq> j \<longrightarrow> set (rt_queue r i) \<inter> set (rt_queue r j) = {}"
      by (metis assms disjoint_iff of_nat_eq_iff rq_wf_prio rt_slots_iff)
  qed auto
  also have "\<dots> = rt_len r"
    using assms unfolding rt_len_def by (intro sum.cong) (auto simp: rq_wf_def distinct_card)
  finally show ?thesis ..
qed

subsection \<open>Insertion and removal\<close>

definition rq_insert :: "bool \<Rightarrow> nat \<Rightarrow> rt_ent \<Rightarrow> bool \<Rightarrow> rt_rq \<Rightarrow> rt_rq" where
  "rq_insert head i e b r =
     r\<lparr>rt_queue := (rt_queue r)(i := (if head then e # rt_queue r i else rt_queue r i @ [e])),
       rt_bitmap := (rt_bitmap r)(i := True),
       rt_nr_running := rt_nr_running r + 1,
       highest_prio := (if int i < highest_prio r then int i else highest_prio r),
       rt_nr_boosted := (if b then rt_nr_boosted r + 1 else rt_nr_boosted r)\<rparr>"

lemma sum_upd:
  fixes f :: "nat \<Rightarrow> nat"
  assumes "i < 100" "\<And>j. j \<noteq> i \<Longrightarrow> f j = h j"
  shows "(\<Sum>j\<in>rt_slots. f j) + h i = (\<Sum>j\<in>rt_slots. h j) + f i"
proof -
  have "(\<Sum>j\<in>rt_slots. f j) = f i + (\<Sum>j\<in>rt_slots - {i}. f j)"
    using assms(1) by (simp add: sum.remove)
  moreover have "(\<Sum>j\<in>rt_slots. h j) = h i + (\<Sum>j\<in>rt_slots - {i}. h j)"
    using assms(1) by (simp add: sum.remove)
  moreover have "(\<Sum>j\<in>rt_slots - {i}. f j) = (\<Sum>j\<in>rt_slots - {i}. h j)"
    using assms(2) by (intro sum.cong) auto
  ultimately show ?thesis by simp
qed

lemma rt_ents_insert:
  assumes "i < 100"
  shows "rt_ents (rq_insert head i e b r) = insert e (rt_ents r)"
  using assms by (auto simp: rt_ents_def rq_insert_def split: if_splits)

lemma rt_len_insert:
  assumes "i < 100"
  shows "rt_len (rq_insert head i e b r) = Suc (rt_len r)"
  using sum_upd [OF assms, of "\<lambda>j. length (rt_queue (rq_insert head i e b r) j)"
      "\<lambda>j. length (rt_queue r j)"]
  by (cases head) (simp_all add: rt_len_def rq_insert_def)

lemma rt_boosted_len_insert:
  assumes "i < 100"
  shows "rt_boosted_len bf (rq_insert head i e b r) = rt_boosted_len bf r + (if bf e then 1 else 0)"
  using sum_upd [OF assms, of "\<lambda>j. length (filter bf (rt_queue (rq_insert head i e b r) j))"
      "\<lambda>j. length (filter bf (rt_queue r j))"]
  by (cases head) (simp_all add: rt_boosted_len_def rq_insert_def split: if_splits)

lemma rq_wf_insert:
  assumes "rq_wf pf bf r" "i < 100" "pf e = int i" "e \<notin> rt_ents r" "Suc (rt_len r) < 2 ^ 32"
  shows "rq_wf pf bf (rq_insert head i e (bf e) r)"
proof -
  have "highest_ok (rq_insert head i e (bf e) r)"
    using assms(1,2) unfolding rq_wf_def highest_ok_def rq_insert_def by auto
  moreover have "e \<notin> set (rt_queue r i)" using assms(2,4) by (auto simp: rt_ents_def)
  ultimately show ?thesis
    using assms
    by (simp add: rq_wf_def rt_len_insert rt_boosted_len_insert)
       (auto simp: rq_insert_def)
qed

definition rq_remove :: "kenv \<Rightarrow> nat \<Rightarrow> rt_ent \<Rightarrow> bool \<Rightarrow> rt_rq \<Rightarrow> rt_rq" where
  "rq_remove env i e b r =
     (let q = (\<lambda>j. remove1 e (rt_queue r j));
          bm = (if q i = [] then (rt_bitmap r)(i := False) else rt_bitmap r);
          n = rt_nr_running r - 1
      in r\<lparr>rt_queue := q, rt_bitmap := bm, rt_nr_running := n,
           highest_prio := (if n \<noteq> 0 then (if int i = highest_prio r
                                           then int (sched_find_first_bit env bm) else highest_prio r)
                            else 100),
           rt_nr_boosted := (if b then rt_nr_boosted r - 1 else rt_nr_boosted r)\<rparr>)"

lemma rq_remove_sel [simp]:
  "rt_queue (rq_remove env i e b r) j = remove1 e (rt_queue r j)"
  "rt_nr_running (rq_remove env i e b r) = rt_nr_running r - 1"
  "rt_nr_boosted (rq_remove env i e b r) = (if b then rt_nr_boosted r - 1 else rt_nr_boosted r)"
  "rt_bitmap (rq_remove env i e b r) j =
     (if j = i \<and> remove1 e (rt_queue r i) = [] then False else rt_bitmap r j)"
  "rt_throttled (rq_remove env i e b r) = rt_throttled r"
  by (simp_all add: rq_remove_def Let_def)

lemma rq_wf_remove1_queue:
  assumes "rq_wf pf bf r" "e \<in> set (rt_queue r i)" "i < 100" "j < 100" "j \<noteq> i"
  shows "remove1 e (rt_queue r j) = rt_queue r j"
  using assms rq_wf_prio by (metis of_nat_eq_iff remove1_idem)

lemma rq_wf_remove_bitmap:
  assumes "rq_wf pf bf r" "e \<in> set (rt_queue r i)" "i < 100"
  shows "rt_bitmap (rq_remove env i e b r) 100"
    and "j < 100 \<Longrightarrow> rt_bitmap (rq_remove env i e b r) j \<longleftrightarrow> rt_queue (rq_remove env i e b r) j \<noteq> []"
proof -
  show "rt_bitmap (rq_remove env i e b r) 100" using assms(1,3) by (simp add: rq_wf_def)
  assume j: "j < 100"
  show "rt_bitmap (rq_remove env i e b r) j \<longleftrightarrow> rt_queue (rq_remove env i e b r) j \<noteq> []"
  proof (cases "j = i")
    case True
    then show ?thesis using assms by (auto simp: rq_wf_def)
  next
    case False
    with j assms(1) show ?thesis by (simp add: rq_wf_remove1_queue [OF assms] rq_wf_def)
  qed
qed

lemma rt_len_remove:
  assumes "rq_wf pf bf r" "e \<in> set (rt_queue r i)" "i < 100"
  shows "Suc (rt_len (rq_remove env i e b r)) = rt_len r"
proof -
  have "(\<Sum>j\<in>rt_slots. length (remove1 e (rt_queue r j))) =
        (\<Sum>j\<in>rt_slots. length (if j = i then remove1 e (rt_queue r i) else rt_queue r j))"
    by (intro sum.cong) (auto simp: rq_wf_remove1_queue [OF assms])
  moreover have "Suc (length (remove1 e (rt_queue r i))) = length (rt_queue r i)"
    using assms(2) length_pos_if_in_set [OF assms(2)] by (simp add: length_remove1)
  ultimately show ?thesis
    using sum_upd [OF assms(3), of "\<lambda>j. length (if j = i then remove1 e (rt_queue r i) else rt_queue r j)"
      "\<lambda>j. length (rt_queue r j)"]
    by (simp add: rt_len_def del: length_remove1)
qed

lemma length_filter_remove1:
  "e \<in> set xs \<Longrightarrow> length (filter bf (remove1 e xs)) + (if bf e then 1 else 0) = length (filter bf xs)"
  by (induction xs) auto

lemma rt_boosted_len_remove:
  assumes "rq_wf pf bf r" "e \<in> set (rt_queue r i)" "i < 100"
  shows "rt_boosted_len bf (rq_remove env i e b r) + (if bf e then 1 else 0) = rt_boosted_len bf r"
proof -
  have "(\<Sum>j\<in>rt_slots. length (filter bf (remove1 e (rt_queue r j)))) =
        (\<Sum>j\<in>rt_slots. length (filter bf (if j = i then remove1 e (rt_queue r i) else rt_queue r j)))"
    by (intro sum.cong) (auto simp: rq_wf_remove1_queue [OF assms])
  with sum_upd [OF assms(3),
      of "\<lambda>j. length (filter bf (if j = i then remove1 e (rt_queue r i) else rt_queue r j))"
      "\<lambda>j. length (filter bf (rt_queue r j))"] length_filter_remove1 [OF assms(2), of bf]
  show ?thesis by (simp add: rt_boosted_len_def)
qed

lemma rt_ents_remove:
  assumes "rq_wf pf bf r"
  shows "rt_ents (rq_remove env i e b r) = rt_ents r - {e}"
  using assms by (fastforce simp: rt_ents_def rq_wf_def)

lemma highest_ok_remove:
  assumes wf: "rq_wf pf bf r" and e: "e \<in> set (rt_queue r i)" "i < 100"
    and ffb: "find_first_bit_ok env"
  shows "highest_ok (rq_remove env i e b r)"
proof -
  let ?r = "rq_remove env i e b r"
  have len: "rt_len ?r < 2 ^ 32" "of_nat (rt_len ?r) = rt_nr_running ?r"
    using rt_len_remove [OF wf e, of env b] wf by (simp_all add: rq_wf_def flip: rt_len_remove [OF wf e, of env b])
  note bm = rq_wf_remove_bitmap [OF wf e]
  have hp: "highest_ok r" using wf by (simp add: rq_wf_def)
  show ?thesis
  proof (cases "rt_nr_running ?r = 0")
    case True
    then have "(of_nat (rt_len ?r) :: ulong) = 0" using len(2) by simp
    with len(1) have "rt_ents ?r = {}" by (simp add: of_nat_eq_0_iff_small rt_len_0_iff)
    moreover have "highest_prio ?r = 100" using True by (simp add: rq_remove_def Let_def)
    ultimately show ?thesis by (simp add: highest_ok_def rt_ents_empty_iff)
  next
    case ne: False
    show ?thesis
    proof (cases "int i = highest_prio r")
      case True
      then have h: "highest_prio ?r = int (sched_find_first_bit env (rt_bitmap ?r))"
        using ne by (simp add: rq_remove_def Let_def)
      let ?k = "sched_find_first_bit env (rt_bitmap ?r)"
      note k = find_first_bitD [of env "rt_bitmap ?r", OF ffb bm(1)]
      have "?k \<le> 100" by (rule k(3))
      moreover have "?k \<le> j" if "j < 100" "rt_queue ?r j \<noteq> []" for j
        using that bm(2) k(2) not_le by blast
      moreover have "rt_queue ?r ?k \<noteq> []" if "?k < 100" using that bm(2) k(1) by blast
      ultimately show ?thesis unfolding highest_ok_def h
        by (metis le_neq_implies_less of_nat_le_iff of_nat_numeral)
    next
      case False
      then have "highest_prio ?r = highest_prio r"
        using ne by (simp add: rq_remove_def Let_def)
      moreover have "highest_prio r \<noteq> 100"
        using hp e highest_prio_100_iff [OF hp] by (auto simp: rt_ents_empty_iff)
      ultimately show ?thesis
        using hp False rq_wf_remove1_queue [OF wf e] unfolding highest_ok_def rq_remove_sel(1)
        by (metis of_nat_eq_iff remove1.simps(1))
    qed
  qed
qed

lemma rq_wf_remove:
  assumes "rq_wf pf bf r" "e \<in> set (rt_queue r i)" "i < 100" "find_first_bit_ok env"
  shows "rq_wf pf bf (rq_remove env i e (bf e) r)"
proof -
  let ?r = "rq_remove env i e (bf e) r"
  have "of_nat (rt_len r) = (1 + of_nat (rt_len ?r) :: ulong)"
    unfolding rt_len_remove [OF assms(1-3), of env "bf e", symmetric] by simp
  moreover have "of_nat (rt_boosted_len bf r) =
      (of_nat (rt_boosted_len bf ?r) + (if bf e then 1 else 0) :: ulong)"
    unfolding rt_boosted_len_remove [OF assms(1-3), of env "bf e", symmetric] by simp
  moreover have "rt_len ?r < 2 ^ 32"
    using rt_len_remove [OF assms(1-3), of env "bf e"] assms(1) by (simp add: rq_wf_def)
  moreover have "distinct (rt_queue ?r j) \<and> (\<forall>e\<in>set (rt_queue ?r j). pf e = int j)" if "j < 100" for j
    using assms(1) that by (auto simp: rq_wf_def dest: notin_set_remove1)
  ultimately show ?thesis
    using assms(1,3) highest_ok_remove [OF assms, of "bf e"] rq_wf_remove_bitmap [OF assms(1-3)]
    by (simp add: rq_wf_def)
qed

section \<open>The hierarchy of groups\<close>

text \<open>
  What the queue operations leave alone: the tasks, the processor's run queue up to its
  list of active group queues, and the bandwidth of the groups up to their timers.
\<close>

definition rt_frame :: "'a ksys_scheme \<Rightarrow> 'a ksys_scheme \<Rightarrow> bool" where
  "rt_frame s s' \<longleftrightarrow>
     task s' = task s \<and> (\<exists>l. rq s' = (rq s)\<lparr>leaf_rt_rq_list := l\<rparr>) \<and>
     (\<forall>g. rt_period (rt_bws s' g) = rt_period (rt_bws s g) \<and>
          rtb_runtime (rt_bws s' g) = rtb_runtime (rt_bws s g)) \<and>
     sysctl_sched_rt_runtime s' = sysctl_sched_rt_runtime s \<and>
     sysctl_sched_rt_period s' = sysctl_sched_rt_period s"

lemma rt_frame_refl [simp]: "rt_frame s s"
  unfolding rt_frame_def by (intro conjI exI [of _ "leaf_rt_rq_list (rq s)"]) simp_all

lemma rt_frame_trans [trans]: "rt_frame s s' \<Longrightarrow> rt_frame s' s'' \<Longrightarrow> rt_frame s s''"
  unfolding rt_frame_def by force

lemma rt_frame_sym: "rt_frame s s' \<Longrightarrow> rt_frame s' s"
proof -
  assume a: "rt_frame s s'"
  then have "rq s = (rq s')\<lparr>leaf_rt_rq_list := leaf_rt_rq_list (rq s)\<rparr>" by (auto simp: rt_frame_def)
  with a show ?thesis unfolding rt_frame_def by auto
qed

lemma rt_frame_absorb: "rt_frame t t' \<Longrightarrow> rt_frame s t' \<longleftrightarrow> rt_frame s t"
  by (meson rt_frame_sym rt_frame_trans)

lemma rt_frame_task: "rt_frame s s' \<Longrightarrow> task s' = task s"
  by (simp add: rt_frame_def)

lemma rt_frame_rq:
  assumes "rt_frame s s'"
  shows "curr (rq s') = curr (rq s)" "clock_task (rq s') = clock_task (rq s)"
    "nr_running (rq s') = nr_running (rq s)" "wrr_rq_of (rq s') = wrr_rq_of (rq s)"
    "cfs_h_nr_running (rq s') = cfs_h_nr_running (rq s)" "stop (rq s') = stop (rq s)"
    "idle (rq s') = idle (rq s)"
  using assms by (auto simp: rt_frame_def)

lemma rt_frame_fold:
  assumes "\<And>x s. rt_frame s (f x s)"
  shows "rt_frame s (fold f xs s)"
proof (induction xs arbitrary: s)
  case (Cons x xs)
  show ?case using rt_frame_trans [OF assms [of s x] Cons] by simp
qed simp

lemma upd_rq_leaf_frame [simp]: "rt_frame s (upd_rq (\<lambda>r. r\<lparr>leaf_rt_rq_list := f r\<rparr>) s)"
  unfolding rt_frame_def by (intro conjI exI [of _ "f (rq s)"]) simp_all

lemma start_rt_bandwidth_frame [simp]:
  "rt_rqs (start_rt_bandwidth g s) = rt_rqs s" "rt_frame s (start_rt_bandwidth g s)"
proof -
  show "rt_rqs (start_rt_bandwidth g s) = rt_rqs s"
    by (simp add: start_rt_bandwidth_def start_bandwidth_timer_def)
  show "rt_frame s (start_rt_bandwidth g s)"
    unfolding rt_frame_def
    by (intro conjI exI [of _ "leaf_rt_rq_list (rq s)"])
       (simp_all add: start_rt_bandwidth_def start_bandwidth_timer_def)
qed

lemma upd_rt_rq_frame [simp]: "rt_frame s (upd_rt_rq g f s)"
  unfolding rt_frame_def by (intro conjI exI [of _ "leaf_rt_rq_list (rq s)"]) simp_all

lemma upd_rt_rq_rqs: "rt_rqs (upd_rt_rq g f s) = (rt_rqs s)(g := f (rt_rqs s g))"
  by (simp add: upd_rt_rq_def)

lemmas rt_frame_steps [simp] = rt_frame_absorb [OF upd_rq_leaf_frame]
  rt_frame_absorb [OF start_rt_bandwidth_frame(2)] rt_frame_absorb [OF upd_rt_rq_frame]

lemma rt_rq_of_se_simps [simp]:
  "rt_rq_of_se s (RtGroup h) = butlast h" "rt_rq_of_se s (RtTask p) = rt_rq_of (rt (task s p))"
  by (simp_all add: rt_rq_of_se_def)

lemma on_rt_rq_iff: "on_rt_rq s e \<longleftrightarrow> e \<in> rt_ents (rt_rqs s (rt_rq_of_se s e))"
  by (auto simp: on_rt_rq_def list_ex_iff set_rt_prios rt_ents_def)

text \<open>The entities that exist: a finite set closed under the links, and the groups they name.\<close>

definition ents_ok :: "rt_ent set \<Rightarrow> 'a ksys_scheme \<Rightarrow> bool" where
  "ents_ok U s \<longleftrightarrow>
     finite U \<and> card U < 2 ^ 32 \<and>
     (\<forall>p. RtTask p \<in> U \<longrightarrow>
        rt_parent (rt (task s p)) =
          (if rt_rq_of (rt (task s p)) = [] then None else Some (rt_rq_of (rt (task s p)))) \<and>
        (rt_rq_of (rt (task s p)) \<noteq> [] \<longrightarrow> RtGroup (rt_rq_of (rt (task s p))) \<in> U)) \<and>
     (\<forall>g. RtGroup g \<in> U \<longrightarrow> g \<noteq> [] \<and> (butlast g \<noteq> [] \<longrightarrow> RtGroup (butlast g) \<in> U))"

definition groups_of :: "rt_ent set \<Rightarrow> tgid set" where
  "groups_of U = insert [] {g. RtGroup g \<in> U}"

definition rt_grp_wf :: "rt_ent set \<Rightarrow> 'a ksys_scheme \<Rightarrow> tgid \<Rightarrow> bool" where
  "rt_grp_wf U s g \<longleftrightarrow>
     rq_wf (rt_se_prio s) (rt_se_boosted s) (rt_rqs s g) \<and>
     (\<forall>e\<in>rt_ents (rt_rqs s g). e \<in> U \<and> rt_rq_of_se s e = g)"

text \<open>A group is queued exactly when it has entries and is not throttled.\<close>

definition rt_link_ok :: "'a ksys_scheme \<Rightarrow> tgid \<Rightarrow> bool" where
  "rt_link_ok s h \<longleftrightarrow>
     (on_rt_rq s (RtGroup h) \<longleftrightarrow> rt_nr_running (rt_rqs s h) \<noteq> 0 \<and> \<not> rt_rq_throttled h s)"

text \<open>The invariant, with a set \<open>X\<close> of groups whose link may be wrong for the moment.\<close>

definition rt_inv_ex :: "rt_ent set \<Rightarrow> tgid set \<Rightarrow> 'a ksys_scheme \<Rightarrow> bool" where
  "rt_inv_ex U X s \<longleftrightarrow>
     ents_ok U s \<and> (\<forall>g\<in>groups_of U. rt_grp_wf U s g) \<and>
     (\<forall>h. RtGroup h \<in> U \<longrightarrow> h \<notin> X \<longrightarrow> rt_link_ok s h)"

abbreviation rt_inv :: "rt_ent set \<Rightarrow> 'a ksys_scheme \<Rightarrow> bool" where
  "rt_inv U s \<equiv> rt_inv_ex U {} s"

lemma rt_inv_ex_mono: "rt_inv_ex U X s \<Longrightarrow> X \<subseteq> Y \<Longrightarrow> rt_inv_ex U Y s"
  by (auto simp: rt_inv_ex_def)

lemma ents_ok_group:
  assumes "ents_ok U s" "e \<in> U"
  shows "rt_rq_of_se s e \<in> groups_of U" and "e \<noteq> RtGroup []"
    and "RtGroup (rt_rq_of_se s e) \<noteq> e"
proof -
  have "rt_rq_of_se s e \<in> groups_of U \<and> e \<noteq> RtGroup [] \<and> RtGroup (rt_rq_of_se s e) \<noteq> e"
  proof (cases e)
    case (RtTask p)
    with assms have "rt_rq_of (rt (task s p)) \<noteq> [] \<longrightarrow> RtGroup (rt_rq_of (rt (task s p))) \<in> U"
      by (simp add: ents_ok_def)
    with RtTask show ?thesis by (auto simp: rt_rq_of_se_def groups_of_def)
  next
    case (RtGroup g)
    with assms have g: "g \<noteq> []" "butlast g \<noteq> [] \<longrightarrow> RtGroup (butlast g) \<in> U"
      by (simp_all add: ents_ok_def)
    from g(1) have "length (butlast g) \<noteq> length g" by (cases g) simp_all
    then have "butlast g \<noteq> g" by metis
    with g RtGroup show ?thesis by (auto simp: rt_rq_of_se_def groups_of_def)
  qed
  then show "rt_rq_of_se s e \<in> groups_of U" "e \<noteq> RtGroup []" "RtGroup (rt_rq_of_se s e) \<noteq> e"
    by simp_all
qed

lemma rq_wf_cong:
  assumes "\<And>e. e \<in> rt_ents r \<Longrightarrow> pf' e = pf e \<and> bf' e = bf e" "rq_wf pf bf r"
  shows "rq_wf pf' bf' r"
proof -
  have eq: "pf' e = pf e" "bf' e = bf e" if "i < 100" "e \<in> set (rt_queue r i)" for e i
    using assms(1) rt_entsI [OF that] by simp_all
  have "rt_boosted_len bf' r = rt_boosted_len bf r"
    unfolding rt_boosted_len_def
    by (intro sum.cong arg_cong [of _ _ length] filter_cong) (simp_all add: eq)
  then show ?thesis using assms(2) eq by (simp add: rq_wf_def)
qed

lemma rt_se_same_task:
  assumes "task s' = task s"
  shows "rt_rq_of_se s' e = rt_rq_of_se s e" "rt_chain s' e = rt_chain s e"
    and "rt_parent (rt (task s' p)) = rt_parent (rt (task s p))" "ents_ok U s' = ents_ok U s"
  using assms by (cases e; simp add: rt_rq_of_se_def rt_chain_def ents_ok_def)+

text \<open>
  Replacing the array of a group that is not queued: only the links of the entries put in
  or taken out, and of the group itself, need attention.
\<close>

lemma rt_inv_ex_upd:
  fixes s s' :: "'a ksys_scheme"
  assumes inv: "rt_inv_ex U X s" and t: "task s' = task s"
    and upd: "rt_rqs s' = (rt_rqs s)(g := r)" and g: "g \<in> groups_of U" "g = [] \<or> g \<in> Y"
    and nq: "g \<noteq> [] \<Longrightarrow> \<not> on_rt_rq s (RtGroup g)"
    and wf: "rq_wf (rt_se_prio s) (rt_se_boosted s) r"
    and ent: "\<And>e. e \<in> rt_ents r \<Longrightarrow> e \<in> U \<and> rt_rq_of_se s e = g"
    and lnk: "\<And>h. RtGroup h \<in> U \<Longrightarrow> h \<notin> Y \<Longrightarrow>
       if butlast h = g then (RtGroup h \<in> rt_ents r \<longleftrightarrow>
                               rt_nr_running (rt_rqs s h) \<noteq> 0 \<and> \<not> rt_rq_throttled h s)
       else h \<notin> X"
  shows "rt_inv_ex U Y s'"
proof -
  from inv have U: "ents_ok U s" and ok: "\<And>k. k \<in> groups_of U \<Longrightarrow> rt_grp_wf U s k"
    and lk: "\<And>h. RtGroup h \<in> U \<Longrightarrow> h \<notin> X \<Longrightarrow> rt_link_ok s h"
    by (auto simp: rt_inv_ex_def)
  have U': "ents_ok U s'" using U rt_se_same_task [OF t] by simp
  have same: "rt_se_prio s' e = rt_se_prio s e \<and> rt_se_boosted s' e = rt_se_boosted s e"
    if "e \<noteq> RtGroup g" for e
    using that by (cases e) (auto simp: rt_se_prio_def rt_se_boosted_def t upd)
  have notg: "RtGroup g \<notin> rt_ents (rt_rqs s k)" if "k \<in> groups_of U" for k
  proof
    assume a: "RtGroup g \<in> rt_ents (rt_rqs s k)"
    with ok [OF that] have *: "RtGroup g \<in> U" "rt_rq_of_se s (RtGroup g) = k"
      by (auto simp: rt_grp_wf_def)
    with ents_ok_group(2) [OF U] have "g \<noteq> []" by auto
    with nq a * show False by (simp add: on_rt_rq_iff)
  qed
  have notr: "RtGroup g \<notin> rt_ents r"
    using ent ents_ok_group(3) [OF U] by metis
  have "rt_grp_wf U s' k" if "k \<in> groups_of U" for k
  proof (cases "k = g")
    case True
    have "rq_wf (rt_se_prio s') (rt_se_boosted s') r"
      using wf by (rule rq_wf_cong [rotated]) (use same notr in metis)
    with True ent show ?thesis by (simp add: rt_grp_wf_def upd rt_se_same_task [OF t])
  next
    case False
    have "rq_wf (rt_se_prio s') (rt_se_boosted s') (rt_rqs s k)"
      using ok [OF that, unfolded rt_grp_wf_def, THEN conjunct1]
      by (rule rq_wf_cong [rotated]) (use same notg [OF that] in metis)
    with False ok [OF that] show ?thesis
      by (simp add: rt_grp_wf_def upd rt_se_same_task [OF t])
  qed
  moreover have "rt_link_ok s' h" if h: "RtGroup h \<in> U" "h \<notin> Y" for h
  proof -
    from h g(2) ents_ok_group(2) [OF U h(1)] have ne: "h \<noteq> g" by auto
    then have thr: "rt_rq_throttled h s' = rt_rq_throttled h s"
      by (simp add: rt_rq_throttled_def upd)
    show ?thesis
      using lnk [OF h] lk [OF h(1)] ne thr
      by (auto simp: rt_link_ok_def on_rt_rq_iff rt_rq_of_se_def upd split: if_splits)
  qed
  ultimately show ?thesis using U' by (simp add: rt_inv_ex_def)
qed

subsection \<open>One entity\<close>

definition rt_skip :: "rt_ent \<Rightarrow> 'a ksys_scheme \<Rightarrow> bool" where
  "rt_skip e s =
     (case e of RtTask p \<Rightarrow> False
      | RtGroup h \<Rightarrow> rt_rq_throttled h s \<or> rt_nr_running (rt_rqs s h) = 0)"

definition own_group :: "rt_ent \<Rightarrow> tgid set" where
  "own_group e = (case e of RtTask p \<Rightarrow> {} | RtGroup h \<Rightarrow> {h})"

lemma enqueue_rt_entity1_skip: "rt_skip e s \<Longrightarrow> enqueue_rt_entity1 head e s = s"
  by (cases e) (auto simp: enqueue_rt_entity1_def rt_skip_def group_rt_rq_def)

lemma enqueue_rt_entity1_effect:
  fixes s :: "'a ksys_scheme"
  assumes "\<not> rt_skip e s" "RtGroup (rt_rq_of_se s e) \<noteq> e" "rt_se_prio s e = int i"
  shows "rt_rqs (enqueue_rt_entity1 head e s) =
           (rt_rqs s)(rt_rq_of_se s e :=
              rq_insert head i e (rt_se_boosted s e) (rt_rqs s (rt_rq_of_se s e)))"
    and "rt_frame s (enqueue_rt_entity1 head e s)"
proof -
  let ?g = "rt_rq_of_se s e"
  have own: "rt_se_prio (upd_rt_rq ?g f t) e = rt_se_prio t e"
    "rt_se_boosted (upd_rt_rq ?g f t) e = rt_se_boosted t e" for f and t :: "'a ksys_scheme"
    using assms(2) by (cases e; simp add: rt_se_prio_def rt_se_boosted_def)+
  define s1 where "s1 = (if rt_nr_running (rt_rqs s ?g) = 0 then list_add_leaf_rt_rq ?g s else s)"
  have s1: "rt_frame s s1" "rt_rqs s1 = rt_rqs s" "rt_se_prio s1 e = int i"
    "rt_se_boosted s1 e = rt_se_boosted s e"
    using assms(3) by (cases e; simp add: s1_def list_add_leaf_rt_rq_def rt_se_prio_def rt_se_boosted_def)+
  have e: "enqueue_rt_entity1 head e s = inc_rt_tasks e ?g (link_rt_entity ?g i e head s1)"
    using assms by (cases e)
      (auto simp: enqueue_rt_entity1_def rt_skip_def group_rt_rq_def Let_def s1_def)
  show "rt_rqs (enqueue_rt_entity1 head e s) =
      (rt_rqs s)(?g := rq_insert head i e (rt_se_boosted s e) (rt_rqs s ?g))"
    unfolding e
    by (rule ext)
       (simp add: inc_rt_tasks_def link_rt_entity_def Let_def inc_rt_group_def inc_rt_prio_def own s1
         rq_insert_def klist_defs)
  show "rt_frame s (enqueue_rt_entity1 head e s)"
    unfolding e using s1(1)
    by (simp add: inc_rt_tasks_def link_rt_entity_def Let_def inc_rt_group_def inc_rt_prio_def)
qed

lemma enqueue_rt_entity1_other:
  "k \<noteq> rt_rq_of_se s e \<Longrightarrow> rt_rqs (enqueue_rt_entity1 head e s) k = rt_rqs s k"
  by (simp add: enqueue_rt_entity1_def link_rt_entity_def inc_rt_tasks_def inc_rt_prio_def
      inc_rt_group_def list_add_leaf_rt_rq_def Let_def)

lemma dequeue_rt_entity1_other:
  "k \<noteq> rt_rq_of_se s e \<Longrightarrow> rt_rqs (dequeue_rt_entity1 env e s) k = rt_rqs s k"
  by (simp add: dequeue_rt_entity1_def unlink_rt_entity_def dec_rt_tasks_def
      dec_rt_prio_def dec_rt_group_def list_del_leaf_rt_rq_def Let_def)

lemma dequeue_rt_entity1_effect:
  fixes s :: "'a ksys_scheme"
  assumes "RtGroup (rt_rq_of_se s e) \<noteq> e" "rt_se_prio s e = int i"
  shows "rt_rqs (dequeue_rt_entity1 env e s) =
           (rt_rqs s)(rt_rq_of_se s e :=
              rq_remove env i e (rt_se_boosted s e) (rt_rqs s (rt_rq_of_se s e)))"
    and "rt_frame s (dequeue_rt_entity1 env e s)"
proof -
  let ?g = "rt_rq_of_se s e"
  have own: "rt_se_prio (upd_rt_rq ?g f t) e = rt_se_prio t e"
    "rt_se_boosted (upd_rt_rq ?g f t) e = rt_se_boosted t e" for f and t :: "'a ksys_scheme"
    using assms(1) by (cases e; simp add: rt_se_prio_def rt_se_boosted_def)+
  have n: "int i = highest_prio (rt_rqs s ?g) \<Longrightarrow> nat (highest_prio (rt_rqs s ?g)) = i"
    by (metis nat_int)
  show "rt_rqs (dequeue_rt_entity1 env e s) =
      (rt_rqs s)(?g := rq_remove env i e (rt_se_boosted s e) (rt_rqs s ?g))"
    by (rule ext)
       (simp add: dequeue_rt_entity1_def unlink_rt_entity_def dec_rt_tasks_def dec_rt_prio_def
         dec_rt_group_def list_del_leaf_rt_rq_def Let_def own assms rq_remove_def klist_defs
         MAX_RT_PRIO_100 n)
  show "rt_frame s (dequeue_rt_entity1 env e s)"
    by (simp add: dequeue_rt_entity1_def unlink_rt_entity_def dec_rt_tasks_def dec_rt_prio_def
         dec_rt_group_def list_del_leaf_rt_rq_def Let_def)
qed

lemma rt_inv_exD:
  assumes "rt_inv_ex U X s"
  shows "ents_ok U s" and "g \<in> groups_of U \<Longrightarrow> rt_grp_wf U s g"
    and "RtGroup h \<in> U \<Longrightarrow> h \<notin> X \<Longrightarrow> rt_link_ok s h"
  using assms by (auto simp: rt_inv_ex_def)

lemma rt_grp_wfD:
  assumes "rt_grp_wf U s g"
  shows "rq_wf (rt_se_prio s) (rt_se_boosted s) (rt_rqs s g)"
    and "e \<in> rt_ents (rt_rqs s g) \<Longrightarrow> e \<in> U" "e \<in> rt_ents (rt_rqs s g) \<Longrightarrow> rt_rq_of_se s e = g"
  using assms by (auto simp: rt_grp_wf_def)

text \<open>The group an entity is queued in is not itself queued, and its link may be wrong.\<close>

definition detached :: "tgid set \<Rightarrow> 'a ksys_scheme \<Rightarrow> tgid \<Rightarrow> bool" where
  "detached X s g \<longleftrightarrow> g = [] \<or> g \<in> X \<and> \<not> on_rt_rq s (RtGroup g)"

lemma dequeue_rt_entity1_inv:
  assumes inv: "rt_inv_ex U X s" and env: "find_first_bit_ok env"
    and e: "e \<in> U" "on_rt_rq s e" and det: "detached X s (rt_rq_of_se s e)"
  shows "rt_inv_ex U (X \<union> own_group e) (dequeue_rt_entity1 env e s)"
    and "on_rt_rq (dequeue_rt_entity1 env e s) e' \<longleftrightarrow> on_rt_rq s e' \<and> e' \<noteq> e"
    and "rt_frame s (dequeue_rt_entity1 env e s)"
proof -
  let ?s = "dequeue_rt_entity1 env e s" and ?g = "rt_rq_of_se s e"
  note U = rt_inv_exD(1) [OF inv] and eg = ents_ok_group [OF rt_inv_exD(1) [OF inv] e(1)]
  note ok = rt_grp_wfD [OF rt_inv_exD(2) [OF inv eg(1)]]
  from e(2) obtain i where i: "i < 100" "e \<in> set (rt_queue (rt_rqs s ?g) i)"
    by (auto simp: on_rt_rq_iff rt_ents_def)
  note pr = rq_wf_prio [OF ok(1) i]
  note eff = dequeue_rt_entity1_effect [OF eg(3) pr, of env]
  show fr: "rt_frame s ?s" by (rule eff(2))
  note t = rt_frame_task [OF fr]
  let ?r = "rq_remove env i e (rt_se_boosted s e) (rt_rqs s ?g)"
  have ents: "rt_ents ?r = rt_ents (rt_rqs s ?g) - {e}" by (rule rt_ents_remove [OF ok(1)])
  show "rt_inv_ex U (X \<union> own_group e) ?s"
  proof (rule rt_inv_ex_upd [OF inv t eff(1) eg(1)])
    show "rq_wf (rt_se_prio s) (rt_se_boosted s) ?r"
      by (rule rq_wf_remove [OF ok(1) i(2,1) env])
    show "x \<in> U \<and> rt_rq_of_se s x = ?g" if "x \<in> rt_ents ?r" for x
      using that ents ok(2,3) by auto
    fix h assume h: "RtGroup h \<in> U" "h \<notin> X \<union> own_group e"
    then have "RtGroup h \<noteq> e" "rt_link_ok s h" using rt_inv_exD(3) [OF inv] by (auto simp: own_group_def)
    then show "if butlast h = ?g then (RtGroup h \<in> rt_ents ?r \<longleftrightarrow>
        rt_nr_running (rt_rqs s h) \<noteq> 0 \<and> \<not> rt_rq_throttled h s) else h \<notin> X"
      using h by (cases "butlast h = ?g") (simp_all add: rt_link_ok_def on_rt_rq_iff ents)
  qed (use det in \<open>auto simp: detached_def\<close>)
  show "on_rt_rq ?s e' \<longleftrightarrow> on_rt_rq s e' \<and> e' \<noteq> e"
    using ents by (auto simp: on_rt_rq_iff rt_se_same_task [OF t] eff(1))
qed

lemma highest_prio_range:
  assumes "rq_wf pf bf r" "rt_nr_running r \<noteq> 0"
  obtains i where "i < 100" "highest_prio r = int i" "rt_queue r i \<noteq> []"
proof -
  have "highest_ok r" using assms(1) by (simp add: rq_wf_def)
  moreover have "highest_prio r \<noteq> 100"
    using assms rq_wf_nr_running_0_iff highest_prio_100_iff [OF \<open>highest_ok r\<close>] by auto
  ultimately show thesis using that by (auto simp: highest_ok_def)
qed

lemma rt_se_prio_range:
  assumes inv: "rt_inv_ex U X s" and e: "e \<in> U" "\<not> rt_skip e s"
    and task: "\<And>p. e = RtTask p \<Longrightarrow> 0 \<le> prio (task s p) \<and> prio (task s p) < 100"
  obtains i where "i < 100" "rt_se_prio s e = int i"
proof (cases e)
  case (RtTask p)
  with task [OF this] show thesis
    by (intro that [of "nat (prio (task s p))"]) (simp_all add: rt_se_prio_def nat_less_iff)
next
  case (RtGroup h)
  with e have h: "h \<in> groups_of U" "rt_nr_running (rt_rqs s h) \<noteq> 0"
    by (simp_all add: groups_of_def rt_skip_def)
  show thesis
  proof (rule highest_prio_range [OF rt_grp_wfD(1) [OF rt_inv_exD(2) [OF inv h(1)]] h(2)])
    fix i assume "i < 100" "highest_prio (rt_rqs s h) = int i"
    with RtGroup show thesis by (intro that [of i]) (simp_all add: rt_se_prio_def)
  qed
qed

lemma enqueue_rt_entity1_inv:
  assumes inv: "rt_inv_ex U X s" and e: "e \<in> U" "\<not> on_rt_rq s e"
    and det: "detached X s (rt_rq_of_se s e)"
    and task: "\<And>p. e = RtTask p \<Longrightarrow> 0 \<le> prio (task s p) \<and> prio (task s p) < 100"
  shows "rt_inv_ex U (X - own_group e) (enqueue_rt_entity1 head e s)"
    and "on_rt_rq (enqueue_rt_entity1 head e s) e' \<longleftrightarrow> on_rt_rq s e' \<or> e' = e \<and> \<not> rt_skip e s"
    and "rt_frame s (enqueue_rt_entity1 head e s)"
proof -
  let ?s = "enqueue_rt_entity1 head e s" and ?g = "rt_rq_of_se s e"
  note U = rt_inv_exD(1) [OF inv] and eg = ents_ok_group [OF rt_inv_exD(1) [OF inv] e(1)]
  note ok = rt_grp_wfD [OF rt_inv_exD(2) [OF inv eg(1)]]
  have "rt_inv_ex U (X - own_group e) ?s \<and>
        (on_rt_rq ?s e' \<longleftrightarrow> on_rt_rq s e' \<or> e' = e \<and> \<not> rt_skip e s) \<and> rt_frame s ?s"
  proof (cases "rt_skip e s")
    case True
    then obtain h where h: "e = RtGroup h" "rt_link_ok s h"
      using e(2) by (cases e) (auto simp: rt_skip_def rt_link_ok_def)
    with inv have "rt_inv_ex U (X - own_group e) s" by (auto simp: rt_inv_ex_def own_group_def)
    with True show ?thesis by (simp add: enqueue_rt_entity1_skip)
  next
    case False
    obtain i where i: "i < 100" "rt_se_prio s e = int i"
      using rt_se_prio_range [OF inv e(1) False task] .
    note eff = enqueue_rt_entity1_effect [OF False eg(3) i(2), of head]
    note t = rt_frame_task [OF eff(2)]
    let ?r = "rq_insert head i e (rt_se_boosted s e) (rt_rqs s ?g)"
    have ents: "rt_ents ?r = insert e (rt_ents (rt_rqs s ?g))" by (rule rt_ents_insert [OF i(1)])
    have ne: "e \<notin> rt_ents (rt_rqs s ?g)" using e(2) by (simp add: on_rt_rq_iff)
    have "rt_inv_ex U (X - own_group e) ?s"
    proof (rule rt_inv_ex_upd [OF inv t eff(1) eg(1)])
      have "card (insert e (rt_ents (rt_rqs s ?g))) \<le> card U"
        using U e(1) ok(2) by (intro card_mono) (auto simp: ents_ok_def)
      then have "Suc (rt_len (rt_rqs s ?g)) < 2 ^ 32"
        using U ne rt_len_card [OF ok(1)] by (auto simp: ents_ok_def rt_ents_def)
      then show "rq_wf (rt_se_prio s) (rt_se_boosted s) ?r"
        by (intro rq_wf_insert ok(1) i ne)
      show "x \<in> U \<and> rt_rq_of_se s x = ?g" if "x \<in> rt_ents ?r" for x
        using that ents ok(2,3) e(1) by auto
      fix h assume h: "RtGroup h \<in> U" "h \<notin> X - own_group e"
      show "if butlast h = ?g then (RtGroup h \<in> rt_ents ?r \<longleftrightarrow>
          rt_nr_running (rt_rqs s h) \<noteq> 0 \<and> \<not> rt_rq_throttled h s) else h \<notin> X"
      proof (cases "e = RtGroup h")
        case True
        with False show ?thesis by (simp add: rt_skip_def rt_ents_insert [OF i(1)])
      next
        case neq: False
        with h have "h \<notin> X" "rt_link_ok s h"
          using rt_inv_exD(3) [OF inv] by (cases e; auto simp: own_group_def)+
        with neq show ?thesis
          by (cases "butlast h = ?g") (simp_all add: rt_link_ok_def on_rt_rq_iff ents)
      qed
    qed (use det eg(3) in \<open>auto simp: detached_def own_group_def split: rt_ent.splits\<close>)
    moreover have "on_rt_rq ?s e' \<longleftrightarrow> on_rt_rq s e' \<or> e' = e"
      using ents by (auto simp: on_rt_rq_iff rt_se_same_task [OF t] eff(1))
    ultimately show ?thesis using False eff(2) by simp
  qed
  then show "rt_inv_ex U (X - own_group e) ?s"
    and "on_rt_rq ?s e' \<longleftrightarrow> on_rt_rq s e' \<or> e' = e \<and> \<not> rt_skip e s" and "rt_frame s ?s"
    by simp_all
qed

subsection \<open>The chain of an entity\<close>

definition path_groups :: "tgid \<Rightarrow> tgid set" where
  "path_groups g = {h. RtGroup h \<in> set (group_chain g)}"

lemma group_chain_Nil [simp]: "group_chain [] = []"
  by (simp add: group_chain.simps)

lemma group_chain_snoc [simp]: "group_chain (g @ [x]) = RtGroup (g @ [x]) # group_chain g"
  by (subst group_chain.simps) simp

lemma path_groups_simps [simp]:
  "path_groups [] = {}" "path_groups (g @ [x]) = insert (g @ [x]) (path_groups g)"
  by (auto simp: path_groups_def)

lemma path_groups_len: "h \<in> path_groups g \<Longrightarrow> h \<noteq> [] \<and> length h \<le> length g"
  by (induction g rule: rev_induct) auto

lemma path_groups_self: "g \<noteq> [] \<Longrightarrow> g \<in> path_groups g"
  by (cases g rule: rev_cases) simp_all

lemma set_group_chain: "set (group_chain g) = RtGroup ` path_groups g"
  by (induction g rule: rev_induct) auto

lemma snoc_notin_path_groups [simp]: "g @ [x] \<notin> path_groups g"
  using path_groups_len by fastforce

lemma path_groups_in:
  assumes "ents_ok U s" "g \<in> groups_of U"
  shows "RtGroup ` path_groups g \<subseteq> U"
  using assms(2)
proof (induction g rule: rev_induct)
  case (snoc x g)
  then have "RtGroup (g @ [x]) \<in> U" by (simp add: groups_of_def)
  moreover from this have "g \<in> groups_of U"
    using ents_ok_group(1) [OF assms(1), of "RtGroup (g @ [x])"] by simp
  ultimately show ?case using snoc.IH by simp
qed simp

definition dequeue_if :: "kenv \<Rightarrow> rt_ent \<Rightarrow> 'a ksys_scheme \<Rightarrow> 'a ksys_scheme" where
  "dequeue_if env e s = (if on_rt_rq s e then dequeue_rt_entity1 env e s else s)"

lemma dequeue_if_inv:
  assumes inv: "rt_inv_ex U X s" and env: "find_first_bit_ok env" and e: "e \<in> U"
    and det: "detached X s (rt_rq_of_se s e)"
  shows "rt_inv_ex U (X \<union> own_group e) (dequeue_if env e s)"
    and "on_rt_rq (dequeue_if env e s) e' \<longleftrightarrow> on_rt_rq s e' \<and> e' \<noteq> e"
    and "rt_frame s (dequeue_if env e s)"
    and "k \<noteq> rt_rq_of_se s e \<Longrightarrow> rt_rqs (dequeue_if env e s) k = rt_rqs s k"
proof -
  have "rt_inv_ex U (X \<union> own_group e) s" by (rule rt_inv_ex_mono [OF inv]) simp
  then show "rt_inv_ex U (X \<union> own_group e) (dequeue_if env e s)"
    and "on_rt_rq (dequeue_if env e s) e' \<longleftrightarrow> on_rt_rq s e' \<and> e' \<noteq> e"
    and "rt_frame s (dequeue_if env e s)"
    and "k \<noteq> rt_rq_of_se s e \<Longrightarrow> rt_rqs (dequeue_if env e s) k = rt_rqs s k"
    using dequeue_rt_entity1_inv [OF inv env e _ det] by (auto simp: dequeue_if_def dequeue_rt_entity1_other)
qed

lemma dequeue_groups:
  assumes "rt_inv_ex U X s" "find_first_bit_ok env" "RtGroup ` path_groups g \<subseteq> U"
  shows "rt_inv_ex U (X \<union> path_groups g) (fold (dequeue_if env) (rev (group_chain g)) s) \<and>
    rt_frame s (fold (dequeue_if env) (rev (group_chain g)) s) \<and>
    (\<forall>e. on_rt_rq (fold (dequeue_if env) (rev (group_chain g)) s) e \<longleftrightarrow>
         on_rt_rq s e \<and> e \<notin> RtGroup ` path_groups g) \<and>
    (\<forall>k. length g \<le> length k \<longrightarrow>
         rt_rqs (fold (dequeue_if env) (rev (group_chain g)) s) k = rt_rqs s k)"
  using assms
proof (induction g rule: rev_induct)
  case (snoc x g)
  let ?s = "fold (dequeue_if env) (rev (group_chain g)) s"
  from snoc have IH: "rt_inv_ex U (X \<union> path_groups g) ?s" "rt_frame s ?s"
    "\<And>e. on_rt_rq ?s e \<longleftrightarrow> on_rt_rq s e \<and> e \<notin> RtGroup ` path_groups g"
    "\<And>k. length g \<le> length k \<Longrightarrow> rt_rqs ?s k = rt_rqs s k" by auto
  have "detached (X \<union> path_groups g) ?s g"
    using IH(3) path_groups_self [of g] by (auto simp: detached_def)
  then have det: "detached (X \<union> path_groups g) ?s (rt_rq_of_se ?s (RtGroup (g @ [x])))" by simp
  have "RtGroup (g @ [x]) \<in> U" using snoc.prems(3) by simp
  note step = dequeue_if_inv [OF IH(1) snoc.prems(2) this det]
  have "rt_rqs (dequeue_if env (RtGroup (g @ [x])) ?s) k = rt_rqs s k"
    if "length (g @ [x]) \<le> length k" for k
    using that step(4) [of k] IH(4) [of k] by fastforce
  with step(1,2) rt_frame_trans [OF IH(2) step(3)] IH(3) show ?case
    by (auto simp: own_group_def Un_insert_right)
qed simp

lemma enqueue_groups:
  assumes "rt_inv_ex U X s" "RtGroup ` path_groups g \<subseteq> U" "path_groups g \<subseteq> X"
    and "\<forall>h\<in>path_groups g. \<not> on_rt_rq s (RtGroup h)"
  shows "rt_inv_ex U (X - path_groups g) (fold (enqueue_rt_entity1 head) (group_chain g) s) \<and>
    rt_frame s (fold (enqueue_rt_entity1 head) (group_chain g) s) \<and>
    (\<forall>e. e \<notin> RtGroup ` path_groups g \<longrightarrow>
       on_rt_rq (fold (enqueue_rt_entity1 head) (group_chain g) s) e = on_rt_rq s e) \<and>
    (\<forall>k. length g \<le> length k \<longrightarrow>
       rt_rqs (fold (enqueue_rt_entity1 head) (group_chain g) s) k = rt_rqs s k)"
  using assms
proof (induction g arbitrary: X s rule: rev_induct)
  case (snoc x g)
  let ?e = "RtGroup (g @ [x])"
  let ?s = "enqueue_rt_entity1 head ?e s"
  have "detached X s g" using snoc.prems(3,4) path_groups_self [of g] by (auto simp: detached_def)
  then have "detached X s (rt_rq_of_se s ?e)" by simp
  note step = enqueue_rt_entity1_inv [OF snoc.prems(1) _ _ this, of head]
  have 1: "rt_inv_ex U (X - {g @ [x]}) ?s" "rt_frame s ?s"
    using step(1,3) snoc.prems(2,4) by (auto simp: own_group_def)
  have 2: "on_rt_rq ?s e = on_rt_rq s e" if "e \<noteq> ?e" for e
    using step(2) snoc.prems(2,4) that by auto
  have "RtGroup h \<noteq> ?e" if "h \<in> path_groups g" for h using that by auto
  with 2 have 3: "\<forall>h\<in>path_groups g. \<not> on_rt_rq ?s (RtGroup h)" "path_groups g \<subseteq> X - {g @ [x]}"
    "RtGroup ` path_groups g \<subseteq> U"
    using snoc.prems by auto
  have 4: "X - insert (g @ [x]) (path_groups g) = X - {g @ [x]} - path_groups g" by auto
  have "rt_rqs ?s k = rt_rqs s k" if "Suc (length g) \<le> length k" for k
    using that enqueue_rt_entity1_other [of k s ?e head] by force
  with snoc.IH [OF 1(1) 3(3,2,1)] 2 rt_frame_trans [OF 1(2)] show ?case
    by (simp add: 4)
qed simp

definition chain_groups :: "'a ksys_scheme \<Rightarrow> rt_ent \<Rightarrow> tgid set" where
  "chain_groups s e = (case e of RtTask p \<Rightarrow> path_groups (rt_rq_of (rt (task s p)))
                       | RtGroup g \<Rightarrow> path_groups g)"

lemma chain_groups_simps [simp]:
  "chain_groups s (RtTask p) = path_groups (rt_rq_of (rt (task s p)))"
  "chain_groups s (RtGroup g) = path_groups g"
  by (simp_all add: chain_groups_def)

lemma rt_chain_group [simp]: "rt_chain s (RtGroup g) = group_chain g"
  by (simp add: rt_chain_def)

lemma rt_chain_task:
  "ents_ok U s \<Longrightarrow> RtTask p \<in> U \<Longrightarrow>
     rt_chain s (RtTask p) = RtTask p # group_chain (rt_rq_of (rt (task s p)))"
  by (auto simp: rt_chain_def ents_ok_def)

lemma chain_groups_in: "ents_ok U s \<Longrightarrow> e \<in> U \<Longrightarrow> RtGroup ` chain_groups s e \<subseteq> U"
proof (cases e)
  case (RtTask p)
  assume "ents_ok U s" "e \<in> U"
  with RtTask ents_ok_group(1) [of U s e] path_groups_in [of U s "rt_rq_of (rt (task s p))"]
  show ?thesis by simp
next
  case (RtGroup g)
  assume "ents_ok U s" "e \<in> U"
  with RtGroup show ?thesis using path_groups_in [of U s g] by (simp add: groups_of_def)
qed

lemma dequeue_rt_stack_fold:
  "dequeue_rt_stack env e s = fold (dequeue_if env) (rev (rt_chain s e)) s"
  by (simp add: dequeue_rt_stack_def dequeue_if_def [abs_def])

lemma dequeue_rt_stack_inv:
  assumes inv: "rt_inv_ex U X s" and env: "find_first_bit_ok env" and e: "e \<in> U"
  shows "rt_inv_ex U (X \<union> chain_groups s e) (dequeue_rt_stack env e s)"
    and "rt_frame s (dequeue_rt_stack env e s)"
    and "on_rt_rq (dequeue_rt_stack env e s) e' \<longleftrightarrow> on_rt_rq s e' \<and> e' \<notin> set (rt_chain s e)"
proof -
  note U = rt_inv_exD(1) [OF inv]
  have "rt_inv_ex U (X \<union> chain_groups s e) (dequeue_rt_stack env e s) \<and>
    rt_frame s (dequeue_rt_stack env e s) \<and>
    (on_rt_rq (dequeue_rt_stack env e s) e' \<longleftrightarrow> on_rt_rq s e' \<and> e' \<notin> set (rt_chain s e))"
  proof (cases e)
    case (RtGroup g)
    with chain_groups_in [OF U e] dequeue_groups [OF inv env, of g] show ?thesis
      by (simp add: dequeue_rt_stack_fold set_group_chain)
  next
    case (RtTask p)
    let ?g = "rt_rq_of (rt (task s p))"
    let ?s = "fold (dequeue_if env) (rev (group_chain ?g)) s"
    from RtTask chain_groups_in [OF U e] dequeue_groups [OF inv env, of ?g]
    have 1: "rt_inv_ex U (X \<union> path_groups ?g) ?s" "rt_frame s ?s"
      "\<And>e. on_rt_rq ?s e \<longleftrightarrow> on_rt_rq s e \<and> e \<notin> RtGroup ` path_groups ?g" by auto
    have g: "rt_rq_of_se ?s e = ?g" using RtTask rt_frame_task [OF 1(2)] by simp
    have "detached (X \<union> path_groups ?g) ?s (rt_rq_of_se ?s e)"
      unfolding g using 1(3) path_groups_self [of ?g] by (auto simp: detached_def)
    note step = dequeue_if_inv [OF 1(1) env e this]
    have "dequeue_rt_stack env e s = dequeue_if env e ?s"
      using RtTask rt_chain_task [OF U] e by (simp add: dequeue_rt_stack_fold)
    with step(1,2) rt_frame_trans [OF 1(2) step(3)] 1(3) RtTask rt_chain_task [OF U] e
    show ?thesis by (auto simp: own_group_def set_group_chain)
  qed
  then show "rt_inv_ex U (X \<union> chain_groups s e) (dequeue_rt_stack env e s)"
    and "rt_frame s (dequeue_rt_stack env e s)"
    and "on_rt_rq (dequeue_rt_stack env e s) e' \<longleftrightarrow> on_rt_rq s e' \<and> e' \<notin> set (rt_chain s e)"
    by simp_all
qed

lemma requeue_groups_fold:
  "fold (\<lambda>e s. case group_rt_rq e of None \<Rightarrow> s
         | Some h \<Rightarrow> if rt_nr_running (rt_rqs s h) \<noteq> 0 then enqueue_rt_entity1 False e s else s)
     (group_chain g) s = fold (enqueue_rt_entity1 False) (group_chain g) s"
proof -
  have "(case group_rt_rq (RtGroup k) of None \<Rightarrow> t
      | Some h \<Rightarrow> if rt_nr_running (rt_rqs t h) \<noteq> 0 then enqueue_rt_entity1 False (RtGroup k) t else t) =
      enqueue_rt_entity1 False (RtGroup k) t" for k and t :: "'a ksys_scheme"
    by (simp add: group_rt_rq_def rt_skip_def enqueue_rt_entity1_skip)
  then show ?thesis by (induction g arbitrary: s rule: rev_induct) simp_all
qed

text \<open>Dequeuing a group entity does not touch the queues of the group and below.\<close>

lemma dequeue_rt_entity_below:
  assumes inv: "rt_inv_ex U X s" and env: "find_first_bit_ok env" and g: "RtGroup g \<in> U"
    and k: "length g \<le> length k"
  shows "rt_rqs (dequeue_rt_entity env (RtGroup g) s) k = rt_rqs s k"
proof -
  note U = rt_inv_exD(1) [OF inv] and st = dequeue_rt_stack_inv [OF inv env g]
  have pg: "RtGroup ` path_groups g \<subseteq> U" using chain_groups_in [OF U g] by simp
  have "rt_rqs (dequeue_rt_stack env (RtGroup g) s) k = rt_rqs s k"
    using dequeue_groups [OF inv env pg] k by (simp add: dequeue_rt_stack_fold)
  moreover have "\<forall>h\<in>path_groups g. \<not> on_rt_rq (dequeue_rt_stack env (RtGroup g) s) (RtGroup h)"
    using st(3) by (auto simp: set_group_chain)
  ultimately show ?thesis
    using enqueue_groups [OF st(1) pg, of False] k
    by (simp add: dequeue_rt_entity_def requeue_groups_fold)
qed

lemma Diff_chain: "(X \<union> Y) - Y = X - Y" for X Y :: "tgid set"
  by auto

lemma dequeue_rt_entity_inv:
  assumes inv: "rt_inv_ex U X s" and env: "find_first_bit_ok env" and e: "e \<in> U"
  shows "rt_inv_ex U (X - chain_groups s e) (dequeue_rt_entity env e s)"
    and "rt_frame s (dequeue_rt_entity env e s)"
    and "on_rt_rq (dequeue_rt_entity env e s) (RtTask q) \<longleftrightarrow>
           on_rt_rq s (RtTask q) \<and> RtTask q \<noteq> e"
proof -
  let ?s = "dequeue_rt_stack env e s"
  note U = rt_inv_exD(1) [OF inv] and st = dequeue_rt_stack_inv [OF inv env e]
  obtain g where g: "chain_groups s e = path_groups g" "set (rt_chain s e) = insert e (RtGroup ` path_groups g) \<or>
      set (rt_chain s e) = RtGroup ` path_groups g \<and> e \<in> RtGroup ` path_groups g"
    and f: "dequeue_rt_entity env e s = fold (enqueue_rt_entity1 False) (group_chain g) ?s"
  proof (cases e)
    case (RtTask p)
    with e rt_chain_task [OF U] that [of "rt_rq_of (rt (task s p))"] show thesis
      by (simp add: dequeue_rt_entity_def group_rt_rq_def requeue_groups_fold [unfolded group_rt_rq_def]
          set_group_chain)
  next
    case (RtGroup h)
    with e ents_ok_group(2) [OF U e] path_groups_self [of h] that [of h] show thesis
      by (simp add: dequeue_rt_entity_def requeue_groups_fold set_group_chain)
  qed
  have "\<forall>h\<in>path_groups g. \<not> on_rt_rq ?s (RtGroup h)" using st(3) g(2) by auto
  from enqueue_groups [OF st(1), of g False] this chain_groups_in [OF U e] g
  have 1: "rt_inv_ex U (X \<union> path_groups g - path_groups g) (dequeue_rt_entity env e s)"
    "rt_frame ?s (dequeue_rt_entity env e s)"
    "\<And>e'. e' \<notin> RtGroup ` path_groups g \<Longrightarrow> on_rt_rq (dequeue_rt_entity env e s) e' = on_rt_rq ?s e'"
    by (simp_all add: f)
  show "rt_inv_ex U (X - chain_groups s e) (dequeue_rt_entity env e s)"
    using 1(1) by (simp only: g(1) Diff_chain)
  show "rt_frame s (dequeue_rt_entity env e s)" by (rule rt_frame_trans [OF st(2) 1(2)])
  show "on_rt_rq (dequeue_rt_entity env e s) (RtTask q) \<longleftrightarrow> on_rt_rq s (RtTask q) \<and> RtTask q \<noteq> e"
    using 1(3) [of "RtTask q"] st(3) [of "RtTask q"] g(2) by auto
qed

lemma enqueue_rt_entity_inv:
  assumes inv: "rt_inv_ex U X s" and env: "find_first_bit_ok env" and e: "e \<in> U"
    and task: "\<And>p. e = RtTask p \<Longrightarrow> 0 \<le> prio (task s p) \<and> prio (task s p) < 100"
  shows "rt_inv_ex U (X - chain_groups s e) (enqueue_rt_entity env e head s)"
    and "rt_frame s (enqueue_rt_entity env e head s)"
    and "on_rt_rq (enqueue_rt_entity env e head s) (RtTask q) \<longleftrightarrow>
           on_rt_rq s (RtTask q) \<or> RtTask q = e"
proof -
  let ?s = "dequeue_rt_stack env e s"
  note U = rt_inv_exD(1) [OF inv] and st = dequeue_rt_stack_inv [OF inv env e]
  obtain g s1 where g: "chain_groups s e = path_groups g"
    and f: "enqueue_rt_entity env e head s = fold (enqueue_rt_entity1 head) (group_chain g) s1"
    and s1: "rt_inv_ex U (X \<union> path_groups g) s1" "rt_frame ?s s1"
      "\<forall>h\<in>path_groups g. \<not> on_rt_rq s1 (RtGroup h)"
      "\<And>q. on_rt_rq s1 (RtTask q) \<longleftrightarrow> on_rt_rq s (RtTask q) \<or> RtTask q = e"
  proof (cases e)
    case (RtGroup h)
    with st that [of h ?s] show thesis
      by (simp add: enqueue_rt_entity_def set_group_chain image_iff)
  next
    case (RtTask p)
    let ?g = "rt_rq_of (rt (task s p))"
    note t = rt_frame_task [OF st(2)]
    have ch: "rt_chain s e = e # group_chain ?g" using RtTask e rt_chain_task [OF U] by simp
    have nq: "\<not> on_rt_rq ?s e" "\<forall>h\<in>path_groups ?g. \<not> on_rt_rq ?s (RtGroup h)"
      using st(3) by (auto simp: ch set_group_chain)
    have g: "rt_rq_of_se ?s e = ?g" using RtTask t by simp
    have det: "detached (X \<union> chain_groups s e) ?s (rt_rq_of_se ?s e)"
      unfolding g using RtTask nq(2) path_groups_self [of ?g] by (auto simp: detached_def)
    have "\<And>p. e = RtTask p \<Longrightarrow> 0 \<le> prio (task ?s p) \<and> prio (task ?s p) < 100"
      using task t by simp
    note step = enqueue_rt_entity1_inv [OF st(1) e nq(1) det this, of head]
    show thesis
    proof (rule that [of ?g "enqueue_rt_entity1 head e ?s"])
      show "enqueue_rt_entity env e head s =
          fold (enqueue_rt_entity1 head) (group_chain ?g) (enqueue_rt_entity1 head e ?s)"
        by (simp add: enqueue_rt_entity_def ch)
    qed (use RtTask step nq(2) st(3) ch in \<open>auto simp: own_group_def rt_skip_def set_group_chain\<close>)
  qed
  from enqueue_groups [OF s1(1), of g head] s1(3) chain_groups_in [OF U e] g
  have 1: "rt_inv_ex U (X \<union> path_groups g - path_groups g) (enqueue_rt_entity env e head s)"
    "rt_frame s1 (enqueue_rt_entity env e head s)"
    "\<And>e'. e' \<notin> RtGroup ` path_groups g \<Longrightarrow> on_rt_rq (enqueue_rt_entity env e head s) e' = on_rt_rq s1 e'"
    by (simp_all add: f)
  show "rt_inv_ex U (X - chain_groups s e) (enqueue_rt_entity env e head s)"
    using 1(1) by (simp only: g Diff_chain)
  show "rt_frame s (enqueue_rt_entity env e head s)"
    by (rule rt_frame_trans [OF st(2) rt_frame_trans [OF s1(2) 1(2)]])
  show "on_rt_rq (enqueue_rt_entity env e head s) (RtTask q) \<longleftrightarrow> on_rt_rq s (RtTask q) \<or> RtTask q = e"
    using 1(3) [of "RtTask q"] s1(4) [of q] by auto
qed
end
