(* ===== verification/Rt_Ops.thy ===== *)
theory Rt_Ops
  imports Rt_Inv "HOL-Library.Multiset"
begin

text \<open>
  The operations of the real-time class keep the run-queue invariant, and what each of
  them does to the queues: time accounting with throttling, the ticks, the period timer,
  and the choice of the next task.
\<close>

section \<open>Changes that do not touch the queues\<close>

definition rt_rq_core ::
  "rt_rq \<Rightarrow> (nat \<Rightarrow> rt_ent list) \<times> (nat \<Rightarrow> bool) \<times> ulong \<times> int \<times> ulong" where
  "rt_rq_core r = (rt_queue r, rt_bitmap r, rt_nr_running r, highest_prio r, rt_nr_boosted r)"

lemma rt_inv_ex_cong:
  assumes inv: "rt_inv_ex U X s"
    and core: "\<And>k. rt_rq_core (rt_rqs s' k) = rt_rq_core (rt_rqs s k)"
    and t: "\<And>p. prio (task s' p) = prio (task s p) \<and> normal_prio (task s' p) = normal_prio (task s p) \<and>
            rt_parent (rt (task s' p)) = rt_parent (rt (task s p)) \<and>
            rt_rq_of (rt (task s' p)) = rt_rq_of (rt (task s p))"
    and thr: "\<And>h. RtGroup h \<in> U \<Longrightarrow> h \<notin> Y \<Longrightarrow>
            h \<notin> X \<and> rt_rq_throttled h s' = rt_rq_throttled h s"
  shows "rt_inv_ex U Y s'" and "on_rt_rq s' e = on_rt_rq s e"
proof -
  have sel: "rt_queue (rt_rqs s' k) = rt_queue (rt_rqs s k)" "rt_bitmap (rt_rqs s' k) = rt_bitmap (rt_rqs s k)"
    "rt_nr_running (rt_rqs s' k) = rt_nr_running (rt_rqs s k)"
    "highest_prio (rt_rqs s' k) = highest_prio (rt_rqs s k)"
    "rt_nr_boosted (rt_rqs s' k) = rt_nr_boosted (rt_rqs s k)" for k
    using core [of k] by (simp_all add: rt_rq_core_def)
  have se: "rt_se_prio s' x = rt_se_prio s x" "rt_se_boosted s' x = rt_se_boosted s x"
    "rt_rq_of_se s' x = rt_rq_of_se s x" for x
    using t by (cases x; simp add: rt_se_prio_def rt_se_boosted_def sel)+
  have fn: "rt_se_prio s' = rt_se_prio s" "rt_se_boosted s' = rt_se_boosted s"
    using se by (simp_all add: fun_eq_iff)
  have ents: "rt_ents (rt_rqs s' k) = rt_ents (rt_rqs s k)" for k
    by (simp add: rt_ents_def sel)
  show on: "on_rt_rq s' e = on_rt_rq s e" for e
    by (simp add: on_rt_rq_iff se ents)
  have "rt_grp_wf U s' k = rt_grp_wf U s k" for k
    by (simp add: rt_grp_wf_def rq_wf_def ents se fn highest_ok_def rt_len_def rt_boosted_len_def sel)
  moreover have "ents_ok U s' = ents_ok U s" by (simp add: ents_ok_def t)
  ultimately show "rt_inv_ex U Y s'"
    using inv thr by (simp add: rt_inv_ex_def rt_link_ok_def on sel)
qed

text \<open>
  The class operations change of a task only its execution statistics and its request
  for a reschedule, and of the processor's run queue only the list of active group queues.
\<close>

definition rt_upd_frame :: "'a ksys_scheme \<Rightarrow> 'a ksys_scheme \<Rightarrow> bool" where
  "rt_upd_frame s s' \<longleftrightarrow>
     (\<forall>p. \<exists>e b. task s' p = (task s p)\<lparr>se := e, need_resched := b\<rparr>) \<and>
     (\<exists>l. rq s' = (rq s)\<lparr>leaf_rt_rq_list := l\<rparr>)"

lemma rt_upd_frame_refl [simp]: "rt_upd_frame s s"
proof -
  have "task s p = (task s p)\<lparr>se := se (task s p), need_resched := need_resched (task s p)\<rparr>" for p by simp
  moreover have "rq s = (rq s)\<lparr>leaf_rt_rq_list := leaf_rt_rq_list (rq s)\<rparr>" by simp
  ultimately show ?thesis unfolding rt_upd_frame_def by blast
qed

lemma rt_upd_frame_trans: "rt_upd_frame s s' \<Longrightarrow> rt_upd_frame s' s'' \<Longrightarrow> rt_upd_frame s s''"
  unfolding rt_upd_frame_def
proof (elim conjE exE, intro conjI allI)
  fix p l l'
  assume a: "\<forall>p. \<exists>e b. task s' p = (task s p)\<lparr>se := e, need_resched := b\<rparr>"
    and b: "\<forall>p. \<exists>e b. task s'' p = (task s' p)\<lparr>se := e, need_resched := b\<rparr>"
  obtain e1 b1 where 1: "task s' p = (task s p)\<lparr>se := e1, need_resched := b1\<rparr>" using a by blast
  obtain e2 b2 where 2: "task s'' p = (task s' p)\<lparr>se := e2, need_resched := b2\<rparr>" using b by blast
  show "\<exists>e b. task s'' p = (task s p)\<lparr>se := e, need_resched := b\<rparr>"
    by (intro exI [of _ e2] exI [of _ b2]) (simp add: 1 2)
  assume "rq s' = (rq s)\<lparr>leaf_rt_rq_list := l\<rparr>" "rq s'' = (rq s')\<lparr>leaf_rt_rq_list := l'\<rparr>"
  then show "\<exists>l. rq s'' = (rq s)\<lparr>leaf_rt_rq_list := l\<rparr>" by auto
qed

lemma rt_frame_upd_frame: "rt_frame s s' \<Longrightarrow> rt_upd_frame s s'"
proof -
  assume a: "rt_frame s s'"
  have "task s p = (task s p)\<lparr>se := se (task s p), need_resched := need_resched (task s p)\<rparr>" for p by simp
  with a show ?thesis unfolding rt_frame_def rt_upd_frame_def by metis
qed

lemma rt_upd_frameD:
  assumes "rt_upd_frame s s'"
  shows "prio (task s' p) = prio (task s p)" "normal_prio (task s' p) = normal_prio (task s p)"
    "static_prio (task s' p) = static_prio (task s p)" "rt_priority (task s' p) = rt_priority (task s p)"
    "policy (task s' p) = policy (task s p)" "sched_class (task s' p) = sched_class (task s p)"
    "rt (task s' p) = rt (task s p)" "wrr (task s' p) = wrr (task s p)"
    "sched_task_group (task s' p) = sched_task_group (task s p)" "on_rq (task s' p) = on_rq (task s p)"
    "t_state (task s' p) = t_state (task s p)"
    "curr (rq s') = curr (rq s)" "clock_task (rq s') = clock_task (rq s)"
    "nr_running (rq s') = nr_running (rq s)" "wrr_rq_of (rq s') = wrr_rq_of (rq s)"
    "cfs_h_nr_running (rq s') = cfs_h_nr_running (rq s)" "stop (rq s') = stop (rq s)"
    "idle (rq s') = idle (rq s)"
proof -
  obtain e b where 1: "task s' p = (task s p)\<lparr>se := e, need_resched := b\<rparr>"
    using assms unfolding rt_upd_frame_def by blast
  obtain l where 2: "rq s' = (rq s)\<lparr>leaf_rt_rq_list := l\<rparr>"
    using assms unfolding rt_upd_frame_def by blast
  show "prio (task s' p) = prio (task s p)" "normal_prio (task s' p) = normal_prio (task s p)"
    "static_prio (task s' p) = static_prio (task s p)" "rt_priority (task s' p) = rt_priority (task s p)"
    "policy (task s' p) = policy (task s p)" "sched_class (task s' p) = sched_class (task s p)"
    "rt (task s' p) = rt (task s p)" "wrr (task s' p) = wrr (task s p)"
    "sched_task_group (task s' p) = sched_task_group (task s p)" "on_rq (task s' p) = on_rq (task s p)"
    "t_state (task s' p) = t_state (task s p)"
    "curr (rq s') = curr (rq s)" "clock_task (rq s') = clock_task (rq s)"
    "nr_running (rq s') = nr_running (rq s)" "wrr_rq_of (rq s') = wrr_rq_of (rq s)"
    "cfs_h_nr_running (rq s') = cfs_h_nr_running (rq s)" "stop (rq s') = stop (rq s)"
    "idle (rq s') = idle (rq s)"
    by (simp_all add: 1 2)
qed

lemma rt_upd_frame_reset:
  assumes "rt_upd_frame s s'"
  shows "sched_reset_on_fork (task s' p) = sched_reset_on_fork (task s p)"
proof -
  obtain e b where "task s' p = (task s p)\<lparr>se := e, need_resched := b\<rparr>"
    using assms unfolding rt_upd_frame_def by blast
  then show ?thesis by simp
qed

lemma rt_upd_frame_se: "rt_upd_frame s (upd_se p f s)"
proof -
  have "task (upd_se p f s) q =
      (task s q)\<lparr>se := (if q = p then f (se (task s p)) else se (task s q)), need_resched := need_resched (task s q)\<rparr>" for q
    by (simp add: upd_se_def)
  then show ?thesis unfolding rt_upd_frame_def
    by (intro conjI allI exI [of _ "leaf_rt_rq_list (rq s)"]) (blast, simp)
qed

lemma rt_upd_frame_resched: "rt_upd_frame s (resched_task p s)"
proof -
  have "task (resched_task p s) q =
      (task s q)\<lparr>se := se (task s q), need_resched := (q = p \<or> need_resched (task s q))\<rparr>" for q
    by (simp add: resched_task_def set_tsk_need_resched_def)
  then show ?thesis unfolding rt_upd_frame_def
    by (intro conjI allI exI [of _ "leaf_rt_rq_list (rq s)"]) (blast, simp)
qed

section \<open>Throttling\<close>

lemma rt_inv_root_link: "rt_inv_ex U (insert [] X) s \<Longrightarrow> rt_inv_ex U X s"
proof -
  assume a: "rt_inv_ex U (insert [] X) s"
  then have "RtGroup [] \<notin> U" using ents_ok_group(2) [OF rt_inv_exD(1) [OF a]] by blast
  with a show ?thesis unfolding rt_inv_ex_def by blast
qed

lemma rt_inv_link: "rt_inv_ex U (insert g X) s \<Longrightarrow> rt_link_ok s g \<Longrightarrow> rt_inv_ex U X s"
  by (auto simp: rt_inv_ex_def)

text \<open>A change of the flags and clocks of one group's run queue.\<close>

lemma rt_inv_upd_flags:
  assumes "rt_inv U s" "\<And>r. rt_rq_core (f r) = rt_rq_core r"
  shows "rt_inv_ex U {g} (upd_rt_rq g f s)" "on_rt_rq (upd_rt_rq g f s) e = on_rt_rq s e"
proof -
  show "rt_inv_ex U {g} (upd_rt_rq g f s)"
    by (rule rt_inv_ex_cong(1) [OF assms(1)]) (simp_all add: assms(2) rt_rq_throttled_def)
  show "on_rt_rq (upd_rt_rq g f s) e = on_rt_rq s e"
    by (rule rt_inv_ex_cong(2) [OF assms(1), of _ "{g}"])
       (simp_all add: assms(2) rt_rq_throttled_def)
qed

lemma rt_inv_upd_clock:
  assumes "rt_inv U s" "\<And>r. rt_rq_core (f r) = rt_rq_core r" "\<And>r. rt_throttled (f r) = rt_throttled r"
  shows "rt_inv U (upd_rt_rq g f s)"
proof (rule rt_inv_ex_cong(1) [OF assms(1)])
  have "rt_nr_boosted (f r) = rt_nr_boosted r" for r using assms(2) [of r] by (simp add: rt_rq_core_def)
  then show "h \<notin> {} \<and> rt_rq_throttled h (upd_rt_rq g f s) = rt_rq_throttled h s" for h
    by (simp add: assms(3) rt_rq_throttled_def)
qed (simp_all add: assms(2))

lemma sched_rt_rq_dequeue_inv:
  assumes inv: "rt_inv_ex U {g} s" and env: "find_first_bit_ok env" and g: "g \<in> groups_of U"
    and thr: "rt_rq_throttled g s"
  shows "rt_inv U (sched_rt_rq_dequeue env g s)" "rt_frame s (sched_rt_rq_dequeue env g s)"
    "on_rt_rq (sched_rt_rq_dequeue env g s) (RtTask q) = on_rt_rq s (RtTask q)"
proof -
  have "rt_inv U (sched_rt_rq_dequeue env g s) \<and> rt_frame s (sched_rt_rq_dequeue env g s) \<and>
    on_rt_rq (sched_rt_rq_dequeue env g s) (RtTask q) = on_rt_rq s (RtTask q)"
  proof (cases "g = []")
    case True
    with inv rt_inv_root_link [of U "{}"] show ?thesis
      by (simp add: sched_rt_rq_dequeue_def tg_rt_se_def)
  next
    case False
    show ?thesis
    proof (cases "on_rt_rq s (RtGroup g)")
      case True
      from False g have "RtGroup g \<in> U" by (simp add: groups_of_def)
      moreover have "{g} - path_groups g = {}" using path_groups_self [OF False] by auto
      ultimately show ?thesis
        using True False dequeue_rt_entity_inv [OF inv env, of "RtGroup g"]
        by (simp add: sched_rt_rq_dequeue_def tg_rt_se_def)
    next
      case nq: False
      with thr have "rt_link_ok s g" by (simp add: rt_link_ok_def)
      with inv nq False show ?thesis
        by (simp add: sched_rt_rq_dequeue_def tg_rt_se_def rt_inv_link)
    qed
  qed
  then show "rt_inv U (sched_rt_rq_dequeue env g s)" "rt_frame s (sched_rt_rq_dequeue env g s)"
    "on_rt_rq (sched_rt_rq_dequeue env g s) (RtTask q) = on_rt_rq s (RtTask q)" by simp_all
qed

lemma sched_rt_runtime_exceeded_inv:
  assumes inv: "rt_inv U s" and env: "find_first_bit_ok env" and g: "g \<in> groups_of U"
  shows "rt_inv U (snd (sched_rt_runtime_exceeded env g s))"
    "rt_frame s (snd (sched_rt_runtime_exceeded env g s))"
    "on_rt_rq (snd (sched_rt_runtime_exceeded env g s)) (RtTask q) = on_rt_rq s (RtTask q)"
proof -
  let ?t = "upd_rt_rq g (\<lambda>r. r\<lparr>rt_throttled := True\<rparr>) s"
  let ?z = "upd_rt_rq g (\<lambda>r. r\<lparr>rt_time := 0\<rparr>) s"
  have t: "rt_inv_ex U {g} ?t" "on_rt_rq ?t e = on_rt_rq s e" for e
    by (rule rt_inv_upd_flags [OF inv]; simp add: rt_rq_core_def)+
  have z: "rt_inv U ?z" "on_rt_rq ?z e = on_rt_rq s e" for e
    by (rule rt_inv_upd_clock [OF inv]; simp add: rt_rq_core_def)
       (rule rt_inv_upd_flags [OF inv]; simp add: rt_rq_core_def)
  note d = sched_rt_rq_dequeue_inv [OF t(1) env g]
  have u: "rt_inv U ?t" if "\<not> rt_rq_throttled g ?t" "\<not> rt_throttled (rt_rqs s g)"
  proof (cases "g = []")
    case True
    then show ?thesis using t(1) rt_inv_root_link [of U "{}"] by simp
  next
    case False
    with g have "RtGroup g \<in> U" by (simp add: groups_of_def)
    with inv have "rt_link_ok s g" by (simp add: rt_inv_ex_def)
    with that have "rt_link_ok ?t g" by (simp add: rt_link_ok_def t(2) rt_rq_throttled_def)
    then show ?thesis using t(1) rt_inv_link by blast
  qed
  have "rt_inv U (snd (sched_rt_runtime_exceeded env g s)) \<and>
    rt_frame s (snd (sched_rt_runtime_exceeded env g s)) \<and>
    on_rt_rq (snd (sched_rt_runtime_exceeded env g s)) (RtTask q) = on_rt_rq s (RtTask q)"
    using inv t z d u rt_frame_trans [OF upd_rt_rq_frame [of s g "\<lambda>r. r\<lparr>rt_throttled := True\<rparr>"] d(2)]
    by (simp add: sched_rt_runtime_exceeded_def Let_def) (simp add: rt_rq_throttled_def)
  then show "rt_inv U (snd (sched_rt_runtime_exceeded env g s))"
    "rt_frame s (snd (sched_rt_runtime_exceeded env g s))"
    "on_rt_rq (snd (sched_rt_runtime_exceeded env g s)) (RtTask q) = on_rt_rq s (RtTask q)"
    by simp_all
qed

lemma rt_inv_upd_frame:
  assumes "rt_inv U s" "rt_rqs s' = rt_rqs s" "rt_upd_frame s s'"
  shows "rt_inv U s'" "on_rt_rq s' e = on_rt_rq s e"
  using rt_inv_ex_cong [OF assms(1), of s' "{}"]
  by (simp_all add: assms(2) rt_upd_frameD [OF assms(3)] rt_rq_throttled_def)

lemma charge_rt_entity_inv:
  assumes inv: "rt_inv U s" and env: "find_first_bit_ok env" and e: "e \<in> U"
  shows "rt_inv U (charge_rt_entity env c d e s) \<and> rt_upd_frame s (charge_rt_entity env c d e s) \<and>
    (\<forall>q. on_rt_rq (charge_rt_entity env c d e s) (RtTask q) = on_rt_rq s (RtTask q))"
proof -
  let ?g = "rt_rq_of_se s e"
  let ?s = "upd_rt_rq ?g (\<lambda>r. r\<lparr>rt_time := rt_time r + d\<rparr>) s"
  let ?x = "sched_rt_runtime_exceeded env ?g ?s"
  have 1: "rt_inv U ?s" by (rule rt_inv_upd_clock [OF inv]) (simp_all add: rt_rq_core_def)
  have 2: "on_rt_rq ?s q = on_rt_rq s q" for q
    by (rule rt_inv_upd_flags [OF inv]) (simp add: rt_rq_core_def)
  note 3 = sched_rt_runtime_exceeded_inv [OF 1 env ents_ok_group(1) [OF rt_inv_exD(1) [OF inv] e]]
  have 4: "rt_upd_frame s (snd ?x)"
    using rt_frame_trans [OF upd_rt_rq_frame 3(2)] by (rule rt_frame_upd_frame)
  have 5: "rt_inv U (resched_task c (snd ?x))" "on_rt_rq (resched_task c (snd ?x)) q = on_rt_rq (snd ?x) q" for q
    using rt_inv_upd_frame [OF 3(1) _ rt_upd_frame_resched] by simp_all
  have 6: "rt_upd_frame s (resched_task c (snd ?x))"
    using 4 rt_upd_frame_resched by (rule rt_upd_frame_trans)
  show ?thesis
    using inv 2 3 4 5 6 by (simp add: charge_rt_entity_def Let_def case_prod_beta)
qed

lemma charge_chain_inv:
  assumes "rt_inv U s" "find_first_bit_ok env" "set es \<subseteq> U"
  shows "rt_inv U (fold (charge_rt_entity env c d) es s) \<and>
    rt_upd_frame s (fold (charge_rt_entity env c d) es s) \<and>
    (\<forall>q. on_rt_rq (fold (charge_rt_entity env c d) es s) (RtTask q) = on_rt_rq s (RtTask q))"
  using assms
proof (induction es arbitrary: s)
  case (Cons e es)
  then have "rt_inv U (charge_rt_entity env c d e s)" "rt_upd_frame s (charge_rt_entity env c d e s)"
    "\<And>q. on_rt_rq (charge_rt_entity env c d e s) (RtTask q) = on_rt_rq s (RtTask q)"
    using charge_rt_entity_inv [of U s env e c d] by auto
  with Cons.IH [of "charge_rt_entity env c d e s"] Cons.prems show ?case
    using rt_upd_frame_trans by (simp, blast)
qed simp

lemma set_rt_chain_in:
  assumes "ents_ok U s" "e \<in> U"
  shows "set (rt_chain s e) \<subseteq> U"
  using chain_groups_in [OF assms] assms
  by (cases e) (auto simp: rt_chain_task set_group_chain)

text \<open>The current task, when it is of this class, is one of the entities.\<close>

definition rt_curr_ok :: "rt_ent set \<Rightarrow> 'a ksys_scheme \<Rightarrow> bool" where
  "rt_curr_ok U s \<longleftrightarrow> (sched_class (task s (curr (rq s))) = rt_sched_class \<longrightarrow> RtTask (curr (rq s)) \<in> U)"

lemma rt_curr_ok_upd_frame: "rt_upd_frame s s' \<Longrightarrow> rt_curr_ok U s' = rt_curr_ok U s"
  by (simp add: rt_curr_ok_def rt_upd_frameD)

text \<open>The accounting of the task itself, before its time is charged to the groups.\<close>

definition rt_delta :: "'a ksys_scheme \<Rightarrow> u64" where
  "rt_delta s =
     (let d = clock_task (rq s) - exec_start (se (task s (curr (rq s)))) in if d <s 0 then 0 else d)"

lemma update_curr_rt_unfold:
  assumes "sched_class (task s (curr (rq s))) = rt_sched_class"
  shows "\<exists>d s1. update_curr_rt env s =
      (if \<not> rt_bandwidth_enabled s1 then s1
       else fold (charge_rt_entity env (curr (rq s)) d) (rt_chain s1 (RtTask (curr (rq s)))) s1) \<and>
    rt_rqs s1 = rt_rqs s \<and> rt_upd_frame s s1 \<and> d = rt_delta s \<and> rt_bws s1 = rt_bws s \<and>
    sysctl_sched_rt_runtime s1 = sysctl_sched_rt_runtime s"
proof -
  let ?c = "curr (rq s)"
  let ?s1 = "cpuacct_charge env ?c (rt_delta s)
    (upd_se ?c (\<lambda>e. e\<lparr>exec_start := clock_task (rq s)\<rparr>)
      (emit (AccountGroupExecRuntime ?c (rt_delta s))
        (upd_se ?c (\<lambda>e. e\<lparr>sum_exec_runtime := sum_exec_runtime e + rt_delta s\<rparr>)
          (upd_se ?c (\<lambda>e. e\<lparr>exec_max := max (exec_max e) (rt_delta s)\<rparr>) s))))"
  have "update_curr_rt env s = (if \<not> rt_bandwidth_enabled ?s1 then ?s1
     else fold (charge_rt_entity env ?c (rt_delta s)) (rt_chain ?s1 (RtTask ?c)) ?s1)"
    using assms by (simp add: update_curr_rt_def Let_def rt_delta_def)
  moreover have "task ?s1 p = (task s p)\<lparr>se := se (task ?s1 p), need_resched := need_resched (task s p)\<rparr>" for p
    by (simp add: upd_se_def)
  then have "rt_upd_frame s ?s1" unfolding rt_upd_frame_def
    by (intro conjI allI exI [of _ "leaf_rt_rq_list (rq s)"]) (blast, simp)
  ultimately show ?thesis by (intro exI [of _ "rt_delta s"] exI [of _ ?s1]) simp
qed

lemma update_curr_rt_inv:
  assumes inv: "rt_inv U s" and env: "find_first_bit_ok env" and c: "rt_curr_ok U s"
  shows "rt_inv U (update_curr_rt env s)" "rt_upd_frame s (update_curr_rt env s)"
    "on_rt_rq (update_curr_rt env s) (RtTask q) = on_rt_rq s (RtTask q)"
proof -
  let ?c = "curr (rq s)"
  have "rt_inv U (update_curr_rt env s) \<and> rt_upd_frame s (update_curr_rt env s) \<and>
    on_rt_rq (update_curr_rt env s) (RtTask q) = on_rt_rq s (RtTask q)"
  proof (cases "sched_class (task s ?c) = rt_sched_class")
    case False
    with inv show ?thesis by (simp add: update_curr_rt_def Let_def)
  next
    case True
    obtain d s1 where u: "update_curr_rt env s =
        (if \<not> rt_bandwidth_enabled s1 then s1
         else fold (charge_rt_entity env ?c d) (rt_chain s1 (RtTask ?c)) s1)"
      and s1: "rt_rqs s1 = rt_rqs s" "rt_upd_frame s s1"
      using update_curr_rt_unfold [OF True] by blast
    from rt_inv_upd_frame [OF inv s1] have 1: "rt_inv U s1" "\<And>e. on_rt_rq s1 e = on_rt_rq s e" by auto
    have "set (rt_chain s1 (RtTask ?c)) \<subseteq> U"
      using set_rt_chain_in [OF rt_inv_exD(1) [OF 1(1)]] c True by (simp add: rt_curr_ok_def)
    with charge_chain_inv [OF 1(1) env] u 1 s1(2) rt_upd_frame_trans [OF s1(2)] show ?thesis by auto
  qed
  then show "rt_inv U (update_curr_rt env s)" "rt_upd_frame s (update_curr_rt env s)"
    "on_rt_rq (update_curr_rt env s) (RtTask q) = on_rt_rq s (RtTask q)" by simp_all
qed

section \<open>Enqueue and dequeue of tasks\<close>

lemma rt_inv_same:
  assumes "rt_inv U s" "rt_rqs s' = rt_rqs s"
    and "\<And>p. prio (task s' p) = prio (task s p) \<and> normal_prio (task s' p) = normal_prio (task s p) \<and>
            rt_parent (rt (task s' p)) = rt_parent (rt (task s p)) \<and>
            rt_rq_of (rt (task s' p)) = rt_rq_of (rt (task s p))"
  shows "rt_inv U s'" "on_rt_rq s' e = on_rt_rq s e"
  using rt_inv_ex_cong [OF assms(1), of s' "{}"] assms(2,3) by (simp_all add: rt_rq_throttled_def)

lemma rt_frame_inc: "rt_frame s s' \<Longrightarrow> rt_frame (inc_nr_running s) (inc_nr_running s')"
  unfolding rt_frame_def
proof (elim conjE exE, intro conjI)
  fix l assume "rq s' = (rq s)\<lparr>leaf_rt_rq_list := l\<rparr>"
  then have "rq (inc_nr_running s') = (rq (inc_nr_running s))\<lparr>leaf_rt_rq_list := l\<rparr>"
    by (simp add: inc_nr_running_def)
  then show "\<exists>l. rq (inc_nr_running s') = (rq (inc_nr_running s))\<lparr>leaf_rt_rq_list := l\<rparr>" ..
qed simp_all

lemma rt_upd_frame_dec: "rt_upd_frame s s' \<Longrightarrow> rt_upd_frame (dec_nr_running s) (dec_nr_running s')"
  unfolding rt_upd_frame_def
proof (elim conjE exE, intro conjI)
  fix l assume "rq s' = (rq s)\<lparr>leaf_rt_rq_list := l\<rparr>"
  then have "rq (dec_nr_running s') = (rq (dec_nr_running s))\<lparr>leaf_rt_rq_list := l\<rparr>"
    by (simp add: dec_nr_running_def)
  then show "\<exists>l. rq (dec_nr_running s') = (rq (dec_nr_running s))\<lparr>leaf_rt_rq_list := l\<rparr>" ..
qed simp

lemma enqueue_task_rt_inv:
  assumes inv: "rt_inv U s" and env: "find_first_bit_ok env" and p: "RtTask p \<in> U"
    and pr: "0 \<le> prio (task s p)" "prio (task s p) < 100"
  shows "rt_inv U (enqueue_task_rt env p fl s)"
    and "on_rt_rq (enqueue_task_rt env p fl s) (RtTask q) \<longleftrightarrow> on_rt_rq s (RtTask q) \<or> q = p"
    and "rt_frame
           (inc_nr_running (if fl AND ENQUEUE_WAKEUP \<noteq> 0 then upd_rt_se p (\<lambda>e. e\<lparr>rt_timeout := 0\<rparr>) s else s))
           (enqueue_task_rt env p fl s)"
proof -
  define s1 where "s1 = (if fl AND ENQUEUE_WAKEUP \<noteq> 0 then upd_rt_se p (\<lambda>e. e\<lparr>rt_timeout := 0\<rparr>) s else s)"
  have s1: "rt_inv U s1" "\<And>e. on_rt_rq s1 e = on_rt_rq s e" "prio (task s1 p) = prio (task s p)"
    using rt_inv_same [OF inv, of s1] by (simp_all add: s1_def)
  let ?s2 = "enqueue_rt_entity env (RtTask p) (fl AND ENQUEUE_HEAD \<noteq> 0) s1"
  have eq: "enqueue_task_rt env p fl s = inc_nr_running ?s2"
    by (simp add: enqueue_task_rt_def s1_def Let_def)
  note st = enqueue_rt_entity_inv [OF s1(1) env p, of "fl AND ENQUEUE_HEAD \<noteq> 0"]
  have 2: "rt_inv U ?s2" "on_rt_rq ?s2 (RtTask q) \<longleftrightarrow> on_rt_rq s (RtTask q) \<or> q = p" for q
    using st(1,3) s1(2,3) pr by auto
  have 3: "rt_inv U (inc_nr_running ?s2)" "on_rt_rq (inc_nr_running ?s2) (RtTask q) = on_rt_rq ?s2 (RtTask q)"
    using rt_inv_same [OF 2(1), of "inc_nr_running ?s2"] by simp_all
  show "rt_inv U (enqueue_task_rt env p fl s)"
    and "on_rt_rq (enqueue_task_rt env p fl s) (RtTask q) \<longleftrightarrow> on_rt_rq s (RtTask q) \<or> q = p"
    using 2 3 by (simp_all add: eq)
  have "rt_frame s1 ?s2" using st(2) s1(3) pr by simp
  then have "rt_frame (inc_nr_running s1) (inc_nr_running ?s2)" by (rule rt_frame_inc)
  then show "rt_frame
      (inc_nr_running (if fl AND ENQUEUE_WAKEUP \<noteq> 0 then upd_rt_se p (\<lambda>e. e\<lparr>rt_timeout := 0\<rparr>) s else s))
      (enqueue_task_rt env p fl s)"
    by (simp add: eq s1_def)
qed

lemma dequeue_task_rt_inv:
  assumes inv: "rt_inv U s" and env: "find_first_bit_ok env" and p: "RtTask p \<in> U"
    and c: "rt_curr_ok U s"
  shows "rt_inv U (dequeue_task_rt env p fl s)"
    and "on_rt_rq (dequeue_task_rt env p fl s) (RtTask q) \<longleftrightarrow> on_rt_rq s (RtTask q) \<and> q \<noteq> p"
    and "rt_upd_frame (dec_nr_running s) (dequeue_task_rt env p fl s)"
proof -
  let ?s1 = "update_curr_rt env s"
  note u = update_curr_rt_inv [OF inv env c]
  let ?s2 = "dequeue_rt_entity env (RtTask p) ?s1"
  note st = dequeue_rt_entity_inv [OF u(1) env p]
  have eq: "dequeue_task_rt env p fl s = dec_nr_running ?s2"
    by (simp add: dequeue_task_rt_def)
  have 2: "rt_inv U ?s2" using st(1) by simp
  have 3: "rt_inv U (dec_nr_running ?s2)" "on_rt_rq (dec_nr_running ?s2) (RtTask q) = on_rt_rq ?s2 (RtTask q)"
    using rt_inv_same [OF 2, of "dec_nr_running ?s2"] by simp_all
  show "rt_inv U (dequeue_task_rt env p fl s)"
    and "on_rt_rq (dequeue_task_rt env p fl s) (RtTask q) \<longleftrightarrow> on_rt_rq s (RtTask q) \<and> q \<noteq> p"
    using 3 st(3) [of q] u(3) by (simp_all add: eq)
  have "rt_upd_frame s ?s2" using u(2) rt_frame_upd_frame [OF st(2)] by (rule rt_upd_frame_trans)
  then show "rt_upd_frame (dec_nr_running s) (dequeue_task_rt env p fl s)"
    unfolding eq by (rule rt_upd_frame_dec)
qed

section \<open>Moving entries within their lists\<close>

lemma rq_wf_perm:
  assumes wf: "rq_wf pf bf r"
    and q: "\<And>j. j < 100 \<Longrightarrow> mset (rt_queue r' j) = mset (rt_queue r j)"
    and f: "rt_bitmap r' = rt_bitmap r" "rt_nr_running r' = rt_nr_running r"
      "highest_prio r' = highest_prio r" "rt_nr_boosted r' = rt_nr_boosted r"
  shows "rq_wf pf bf r'" and "rt_ents r' = rt_ents r"
proof -
  note st = mset_eq_setD [OF q] and ln = mset_eq_length [OF q]
    and di = mset_eq_imp_distinct_iff [OF q]
  have nl: "rt_queue r' j = [] \<longleftrightarrow> rt_queue r j = []" if "j < 100" for j
    using ln [OF that] by (metis length_0_conv)
  have fl: "length (filter bf (rt_queue r' j)) = length (filter bf (rt_queue r j))" if "j < 100" for j
    using q [OF that] by (metis mset_filter size_mset)
  show "rt_ents r' = rt_ents r" unfolding rt_ents_def using st by auto
  have "rt_len r' = rt_len r" unfolding rt_len_def by (rule sum.cong) (auto simp: ln)
  moreover have "rt_boosted_len bf r' = rt_boosted_len bf r"
    unfolding rt_boosted_len_def by (rule sum.cong) (auto simp: fl)
  moreover have "highest_ok r'" using wf by (auto simp: rq_wf_def highest_ok_def f nl)
  ultimately show "rq_wf pf bf r'" using wf by (simp add: rq_wf_def f st di nl)
qed

lemma rt_inv_perm:
  assumes inv: "rt_inv U s" and t: "task s' = task s"
    and q: "\<And>k j. j < 100 \<Longrightarrow> mset (rt_queue (rt_rqs s' k) j) = mset (rt_queue (rt_rqs s k) j)"
    and f: "\<And>k. rt_bitmap (rt_rqs s' k) = rt_bitmap (rt_rqs s k) \<and>
      rt_nr_running (rt_rqs s' k) = rt_nr_running (rt_rqs s k) \<and>
      highest_prio (rt_rqs s' k) = highest_prio (rt_rqs s k) \<and>
      rt_nr_boosted (rt_rqs s' k) = rt_nr_boosted (rt_rqs s k) \<and>
      rt_throttled (rt_rqs s' k) = rt_throttled (rt_rqs s k)"
  shows "rt_inv U s'" "on_rt_rq s' e = on_rt_rq s e"
proof -
  have se: "rt_se_prio s' = rt_se_prio s" "rt_se_boosted s' = rt_se_boosted s"
    "rt_rq_of_se s' x = rt_rq_of_se s x" for x
    using rt_se_same_task [OF t]
    by (auto simp: fun_eq_iff rt_se_prio_def rt_se_boosted_def t f split: rt_ent.splits)
  have st: "set (rt_queue (rt_rqs s' k) j) = set (rt_queue (rt_rqs s k) j)" if "j < 100" for j k
    using q [OF that] by (metis set_mset_mset)
  then have ents: "rt_ents (rt_rqs s' k) = rt_ents (rt_rqs s k)" for k
    unfolding rt_ents_def by auto
  then show on: "on_rt_rq s' e = on_rt_rq s e" for e by (simp add: on_rt_rq_iff se)
  have "rt_grp_wf U s' k" if "rt_grp_wf U s k" for k
    using rq_wf_perm(1) [OF rt_grp_wfD(1) [OF that], of "rt_rqs s' k"] q f that
    by (simp add: rt_grp_wf_def se ents)
  with inv show "rt_inv U s'"
    by (simp add: rt_inv_ex_def rt_link_ok_def on f rt_rq_throttled_def rt_se_same_task [OF t])
qed

lemma requeue_rt_entity_inv:
  fixes s :: "'a ksys_scheme" and e :: rt_ent and head :: bool
  assumes inv: "rt_inv U s" and e: "e \<in> U"
  defines "t \<equiv> requeue_rt_entity (rt_rq_of_se s e) e head s"
  shows "rt_inv U t" and "task t = task s" "rq t = rq s" "rt_bws t = rt_bws s"
    and "on_rt_rq t x = on_rt_rq s x"
    and "rt_queue (rt_rqs t k) j =
      (if on_rt_rq s e \<and> k = rt_rq_of_se s e \<and> j = nat (rt_se_prio s e)
       then (if head then list_move e (rt_queue (rt_rqs s k) j) else list_move_tail e (rt_queue (rt_rqs s k) j))
       else if on_rt_rq s e \<and> k = rt_rq_of_se s e then remove1 e (rt_queue (rt_rqs s k) j)
       else rt_queue (rt_rqs s k) j)"
proof -
  show tk: "task t = task s" and "rq t = rq s" "rt_bws t = rt_bws s"
    by (simp_all add: t_def requeue_rt_entity_def unlink_rt_entity_def Let_def)
  show q: "rt_queue (rt_rqs t k) j =
      (if on_rt_rq s e \<and> k = rt_rq_of_se s e \<and> j = nat (rt_se_prio s e)
       then (if head then list_move e (rt_queue (rt_rqs s k) j) else list_move_tail e (rt_queue (rt_rqs s k) j))
       else if on_rt_rq s e \<and> k = rt_rq_of_se s e then remove1 e (rt_queue (rt_rqs s k) j)
       else rt_queue (rt_rqs s k) j)" for k j
    by (simp add: t_def requeue_rt_entity_def unlink_rt_entity_def Let_def klist_defs)
  note wf = rt_grp_wfD(1) [OF rt_inv_exD(2) [OF inv ents_ok_group(1) [OF rt_inv_exD(1) [OF inv] e]]]
  have m: "mset (rt_queue (rt_rqs t k) j) = mset (rt_queue (rt_rqs s k) j)" if "j < 100" for k j
  proof (cases "on_rt_rq s e \<and> k = rt_rq_of_se s e")
    case True
    then obtain i where i: "i < 100" "e \<in> set (rt_queue (rt_rqs s k) i)"
      by (auto simp: on_rt_rq_iff rt_ents_def)
    then have "nat (rt_se_prio s e) = i" using True rq_wf_prio [OF wf, of i e] by simp
    with i True that wf rq_wf_remove1_queue [OF wf, of e i j] show ?thesis
      by (auto simp: q klist_defs)
  qed (auto simp: q)
  have f: "rt_bitmap (rt_rqs t k) = rt_bitmap (rt_rqs s k) \<and>
      rt_nr_running (rt_rqs t k) = rt_nr_running (rt_rqs s k) \<and>
      highest_prio (rt_rqs t k) = highest_prio (rt_rqs s k) \<and>
      rt_nr_boosted (rt_rqs t k) = rt_nr_boosted (rt_rqs s k) \<and>
      rt_throttled (rt_rqs t k) = rt_throttled (rt_rqs s k)" for k
    by (simp add: t_def requeue_rt_entity_def unlink_rt_entity_def Let_def)
  from rt_inv_perm [OF inv tk m f] show "rt_inv U t" "on_rt_rq t x = on_rt_rq s x" by simp_all
qed

lemma requeue_task_rt_inv:
  assumes inv: "rt_inv U s" and p: "RtTask p \<in> U"
  shows "rt_inv U (requeue_task_rt p head s)" "task (requeue_task_rt p head s) = task s"
    "rq (requeue_task_rt p head s) = rq s" "on_rt_rq (requeue_task_rt p head s) x = on_rt_rq s x"
proof -
  let ?f = "\<lambda>e s. requeue_rt_entity (rt_rq_of_se s e) e head s"
  have *: "rt_inv U (fold ?f es t) \<and> task (fold ?f es t) = task t \<and> rq (fold ?f es t) = rq t \<and>
      on_rt_rq (fold ?f es t) x = on_rt_rq t x"
    if "rt_inv U t" "set es \<subseteq> U" for es and t :: "'a ksys_scheme"
    using that by (induction es arbitrary: t) (simp_all add: requeue_rt_entity_inv)
  from * [OF inv, of "rt_chain s (RtTask p)"] set_rt_chain_in [OF rt_inv_exD(1) [OF inv] p]
  show "rt_inv U (requeue_task_rt p head s)" "task (requeue_task_rt p head s) = task s"
    "rq (requeue_task_rt p head s) = rq s" "on_rt_rq (requeue_task_rt p head s) x = on_rt_rq s x"
    by (simp_all add: requeue_task_rt_def)
qed

section \<open>Ticks and the period timer\<close>

lemma watchdog_fields:
  "rt_rqs (watchdog env p s) = rt_rqs s" "rq (watchdog env p s) = rq s"
  "prio (task (watchdog env p s) q) = prio (task s q)"
  "normal_prio (task (watchdog env p s) q) = normal_prio (task s q)"
  "policy (task (watchdog env p s) q) = policy (task s q)"
  "sched_class (task (watchdog env p s) q) = sched_class (task s q)"
  "need_resched (task (watchdog env p s) q) = need_resched (task s q)"
  "rt_parent (rt (task (watchdog env p s) q)) = rt_parent (rt (task s q))"
  "rt_rq_of (rt (task (watchdog env p s) q)) = rt_rq_of (rt (task s q))"
  "rt_time_slice (rt (task (watchdog env p s) q)) = rt_time_slice (rt (task s q))"
  by (simp_all add: watchdog_def Let_def)

lemma upd_slice_inv:
  assumes "rt_inv U s"
  shows "rt_inv U (upd_rt_se p (\<lambda>e. e\<lparr>rt_time_slice := f e\<rparr>) s)"
    "on_rt_rq (upd_rt_se p (\<lambda>e. e\<lparr>rt_time_slice := f e\<rparr>) s) x = on_rt_rq s x"
  using rt_inv_same [OF assms, of "upd_rt_se p (\<lambda>e. e\<lparr>rt_time_slice := f e\<rparr>) s"] by simp_all

lemma task_tick_rt_inv:
  assumes inv: "rt_inv U s" and env: "find_first_bit_ok env" and p: "RtTask p \<in> U"
    and c: "rt_curr_ok U s"
  shows "rt_inv U (task_tick_rt env p s)"
    "on_rt_rq (task_tick_rt env p s) (RtTask q) = on_rt_rq s (RtTask q)"
proof -
  note u = update_curr_rt_inv [OF inv env c]
  define s1 where "s1 = watchdog env p (update_curr_rt env s)"
  have s1: "rt_inv U s1" "on_rt_rq s1 (RtTask q) = on_rt_rq s (RtTask q)"
    using rt_inv_same [OF u(1), of s1] u(3) by (simp_all add: s1_def watchdog_fields)
  define s2 where "s2 = upd_rt_se p (\<lambda>e. e\<lparr>rt_time_slice := rt_time_slice e - 1\<rparr>) s1"
  have s2: "rt_inv U s2" "on_rt_rq s2 (RtTask q) = on_rt_rq s (RtTask q)"
    using upd_slice_inv [OF s1(1)] s1(2) by (simp_all add: s2_def)
  define s3 where "s3 = upd_rt_se p (\<lambda>e. e\<lparr>rt_time_slice := RR_TIMESLICE env\<rparr>) s2"
  have s3: "rt_inv U s3" "on_rt_rq s3 (RtTask q) = on_rt_rq s (RtTask q)"
    using upd_slice_inv [OF s2(1)] s2(2) by (simp_all add: s3_def)
  define s4 where "s4 = set_tsk_need_resched p (requeue_task_rt p False s3)"
  have s4: "rt_inv U s4" "on_rt_rq s4 (RtTask q) = on_rt_rq s (RtTask q)"
    using rt_inv_same [OF requeue_task_rt_inv(1) [OF s3(1) p], of s4]
      requeue_task_rt_inv(4) [OF s3(1) p] s3(2) by (simp_all add: s4_def)
  have "task_tick_rt env p s \<in> {s1, s2, s3, s4}"
    by (simp add: task_tick_rt_def Let_def s1_def s2_def s3_def s4_def)
  then show "rt_inv U (task_tick_rt env p s)"
    "on_rt_rq (task_tick_rt env p s) (RtTask q) = on_rt_rq s (RtTask q)"
    using s1 s2 s3 s4 by auto
qed

text \<open>
  After the timer has cleared the flag of a group, or found it with entries and not
  throttled, its link may be wrong; \<^verbatim>\<open>sched_rt_rq_enqueue\<close> repairs it.
\<close>

lemma sched_rt_rq_enqueue_inv:
  assumes inv: "rt_inv_ex U {g} s" and env: "find_first_bit_ok env" and g: "g \<in> groups_of U"
    and thr: "\<not> rt_rq_throttled g s"
    and empty: "rt_nr_running (rt_rqs s g) = 0 \<Longrightarrow> g \<noteq> [] \<Longrightarrow> \<not> on_rt_rq s (RtGroup g)"
  shows "rt_inv U (sched_rt_rq_enqueue env g s)" "rt_upd_frame s (sched_rt_rq_enqueue env g s)"
    "on_rt_rq (sched_rt_rq_enqueue env g s) (RtTask q) = on_rt_rq s (RtTask q)"
proof -
  let ?s = "sched_rt_rq_enqueue env g s"
  define s1 where "s1 = (case tg_rt_se g of None \<Rightarrow> s
      | Some e \<Rightarrow> if \<not> on_rt_rq s e then enqueue_rt_entity env e False s else s)"
  have s1: "rt_inv U s1 \<and> rt_frame s s1 \<and> (\<forall>q. on_rt_rq s1 (RtTask q) = on_rt_rq s (RtTask q))"
    if ne: "rt_nr_running (rt_rqs s g) \<noteq> 0"
  proof (cases "g = []")
    case True
    with inv rt_inv_root_link [of U "{}"] show ?thesis by (simp add: s1_def tg_rt_se_def)
  next
    case False
    with g have gU: "RtGroup g \<in> U" by (simp add: groups_of_def)
    show ?thesis
    proof (cases "on_rt_rq s (RtGroup g)")
      case True
      with ne thr have "rt_link_ok s g" by (simp add: rt_link_ok_def)
      with inv True False show ?thesis by (simp add: s1_def tg_rt_se_def rt_inv_link)
    next
      case nq: False
      have "{g} - path_groups g = {}" using path_groups_self [OF False] by auto
      with nq False enqueue_rt_entity_inv [OF inv env gU, of False] show ?thesis
        by (simp add: s1_def tg_rt_se_def)
    qed
  qed
  have empty_ok: "rt_inv U s" if "rt_nr_running (rt_rqs s g) = 0"
  proof (cases "g = []")
    case True
    with inv rt_inv_root_link [of U "{}"] show ?thesis by simp
  next
    case False
    with that empty have "rt_link_ok s g" by (simp add: rt_link_ok_def)
    with inv show ?thesis by (rule rt_inv_link)
  qed
  have "rt_inv U ?s \<and> rt_upd_frame s ?s \<and> on_rt_rq ?s (RtTask q) = on_rt_rq s (RtTask q)"
  proof (cases "rt_nr_running (rt_rqs s g) = 0")
    case True
    with empty_ok show ?thesis by (simp add: sched_rt_rq_enqueue_def)
  next
    case False
    note 1 = s1 [OF False]
    then have 2: "rt_inv U (resched_task c s1)" "on_rt_rq (resched_task c s1) x = on_rt_rq s1 x"
      "rt_upd_frame s (resched_task c s1)" "rt_upd_frame s s1" for c x
      using rt_inv_upd_frame [of U s1 "resched_task c s1"] rt_upd_frame_resched [of s1 c]
        rt_frame_upd_frame [of s s1] rt_upd_frame_trans by auto
    have "?s = s1 \<or> (\<exists>c. ?s = resched_task c s1)"
      using False unfolding sched_rt_rq_enqueue_def s1_def Let_def by auto
    with 1 2 show ?thesis by auto
  qed
  then show "rt_inv U ?s" "rt_upd_frame s ?s" "on_rt_rq ?s (RtTask q) = on_rt_rq s (RtTask q)"
    by simp_all
qed

text \<open>The replenished clock of a group, and whether the timer lifts its throttling.\<close>

definition rt_replenished :: "int \<Rightarrow> rt_rq \<Rightarrow> u64" where
  "rt_replenished overrun r = rt_time r - min (rt_time r) (of_int overrun * rt_runtime r)"

definition rt_unthrottles :: "int \<Rightarrow> rt_rq \<Rightarrow> bool" where
  "rt_unthrottles overrun r \<longleftrightarrow>
     rt_time r \<noteq> 0 \<and> rt_throttled r \<and> rt_replenished overrun r < rt_runtime r"

text \<open>The state before the final enqueue, and whether there is one.\<close>

definition rt_period_state :: "tgid \<Rightarrow> int \<Rightarrow> 'a ksys_scheme \<Rightarrow> 'a ksys_scheme" where
  "rt_period_state g overrun s =
     (if rt_unthrottles overrun (rt_rqs s g) then
        (let s = upd_rt_rq g (\<lambda>r. r\<lparr>rt_time := rt_replenished overrun r, rt_throttled := False\<rparr>) s
         in if rt_nr_running (rt_rqs s g) \<noteq> 0 \<and> curr (rq s) = idle (rq s)
            then upd_rq (\<lambda>r. r\<lparr>skip_clock_update := - 1\<rparr>) s else s)
      else if rt_time (rt_rqs s g) \<noteq> 0
      then upd_rt_rq g (\<lambda>r. r\<lparr>rt_time := rt_replenished overrun r\<rparr>) s
      else s)"

definition rt_period_enqueues :: "tgid \<Rightarrow> int \<Rightarrow> 'a ksys_scheme \<Rightarrow> bool" where
  "rt_period_enqueues g overrun s \<longleftrightarrow>
     rt_unthrottles overrun (rt_rqs s g) \<or>
     rt_time (rt_rqs s g) = 0 \<and> rt_nr_running (rt_rqs s g) \<noteq> 0 \<and> \<not> rt_rq_throttled g s"

lemma do_sched_rt_period_timer_state:
  "snd (do_sched_rt_period_timer env g overrun s) =
     (if rt_period_enqueues g overrun s
      then sched_rt_rq_enqueue env g (rt_period_state g overrun s)
      else rt_period_state g overrun s)"
  unfolding do_sched_rt_period_timer_def rt_period_enqueues_def rt_period_state_def
    rt_unthrottles_def rt_replenished_def Let_def
  by (cases "rt_time (rt_rqs s g) = 0"; cases "rt_throttled (rt_rqs s g)";
      cases "rt_time (rt_rqs s g) - min (rt_time (rt_rqs s g)) (of_int overrun * rt_runtime (rt_rqs s g))
             < rt_runtime (rt_rqs s g)")
     (simp_all add: upd_rt_rq_def rt_rq_throttled_def)

lemma rt_period_state_inv:
  assumes inv: "rt_inv U s"
  shows "rt_inv_ex U {g} (rt_period_state g overrun s)"
    and "\<not> rt_unthrottles overrun (rt_rqs s g) \<Longrightarrow> rt_inv U (rt_period_state g overrun s)"
    and "on_rt_rq (rt_period_state g overrun s) e = on_rt_rq s e"
    and "rt_nr_running (rt_rqs (rt_period_state g overrun s) g) = rt_nr_running (rt_rqs s g)"
    and "task (rt_period_state g overrun s) = task s"
    and "rt_throttled (rt_rqs (rt_period_state g overrun s) k) =
           (rt_throttled (rt_rqs s k) \<and> \<not> (k = g \<and> rt_unthrottles overrun (rt_rqs s g)))"
    and "rt_nr_boosted (rt_rqs (rt_period_state g overrun s) k) = rt_nr_boosted (rt_rqs s k)"
proof -
  let ?s = "rt_period_state g overrun s"
  have core: "rt_rq_core (rt_rqs ?s k) = rt_rq_core (rt_rqs s k)" for k
    by (simp add: rt_period_state_def Let_def rt_rq_core_def)
  show t: "task ?s = task s" by (simp add: rt_period_state_def Let_def)
  show thr: "rt_throttled (rt_rqs ?s k) =
      (rt_throttled (rt_rqs s k) \<and> \<not> (k = g \<and> rt_unthrottles overrun (rt_rqs s g)))" for k
    by (simp add: rt_period_state_def Let_def)
  show bo: "rt_nr_boosted (rt_rqs ?s k) = rt_nr_boosted (rt_rqs s k)" for k
    by (simp add: rt_period_state_def Let_def)
  note c = rt_inv_ex_cong [OF inv core]
  show "rt_inv_ex U {g} ?s" using c(1) [of "{g}"] by (simp add: t rt_rq_throttled_def thr bo)
  show "on_rt_rq ?s e = on_rt_rq s e" using c(2) [of "{g}"] by (simp add: t rt_rq_throttled_def thr bo)
  show "rt_inv U ?s" if "\<not> rt_unthrottles overrun (rt_rqs s g)"
    using that c(1) [of "{}"] by (simp add: t rt_rq_throttled_def thr bo)
  show "rt_nr_running (rt_rqs ?s g) = rt_nr_running (rt_rqs s g)"
    by (simp add: rt_period_state_def Let_def)
qed

lemma do_sched_rt_period_timer_inv:
  assumes inv: "rt_inv U s" and env: "find_first_bit_ok env" and g: "g \<in> groups_of U"
  shows "rt_inv U (snd (do_sched_rt_period_timer env g overrun s))"
    "on_rt_rq (snd (do_sched_rt_period_timer env g overrun s)) (RtTask q) = on_rt_rq s (RtTask q)"
    "rt_upd_frame (rt_period_state g overrun s) (snd (do_sched_rt_period_timer env g overrun s))"
proof -
  let ?s = "rt_period_state g overrun s"
  note st = rt_period_state_inv [OF inv]
  have "rt_inv U (snd (do_sched_rt_period_timer env g overrun s)) \<and>
    on_rt_rq (snd (do_sched_rt_period_timer env g overrun s)) (RtTask q) = on_rt_rq s (RtTask q) \<and>
    rt_upd_frame (rt_period_state g overrun s) (snd (do_sched_rt_period_timer env g overrun s))"
  proof (cases "rt_period_enqueues g overrun s")
    case True
    then have "\<not> rt_rq_throttled g ?s"
      by (auto simp: rt_period_enqueues_def rt_rq_throttled_def st(6,7))
    moreover have "\<not> on_rt_rq ?s (RtGroup g)" if "rt_nr_running (rt_rqs ?s g) = 0" "g \<noteq> []"
    proof -
      from g that(2) have "RtGroup g \<in> U" by (simp add: groups_of_def)
      then have "rt_link_ok s g" using inv by (simp add: rt_inv_ex_def)
      with that(1) show ?thesis by (simp add: st(3,4) rt_link_ok_def)
    qed
    ultimately show ?thesis
      using sched_rt_rq_enqueue_inv [OF st(1) env g] True st(3)
      by (simp add: do_sched_rt_period_timer_state)
  next
    case False
    then have "\<not> rt_unthrottles overrun (rt_rqs s g)" by (simp add: rt_period_enqueues_def)
    with False show ?thesis using st(2,3) by (simp add: do_sched_rt_period_timer_state)
  qed
  then show "rt_inv U (snd (do_sched_rt_period_timer env g overrun s))"
    "on_rt_rq (snd (do_sched_rt_period_timer env g overrun s)) (RtTask q) = on_rt_rq s (RtTask q)"
    "rt_upd_frame (rt_period_state g overrun s) (snd (do_sched_rt_period_timer env g overrun s))"
    by simp_all
qed

lemma rt_period_curr_ok:
  assumes "rt_inv U s" "find_first_bit_ok env" "g \<in> groups_of U"
  shows "rt_curr_ok U (snd (do_sched_rt_period_timer env g overrun s)) = rt_curr_ok U s"
proof -
  have "curr (rq (rt_period_state g overrun s)) = curr (rq s)"
    by (simp add: rt_period_state_def Let_def)
  then have "rt_curr_ok U (rt_period_state g overrun s) = rt_curr_ok U s"
    by (simp add: rt_curr_ok_def rt_period_state_inv(5) [OF assms(1)])
  then show ?thesis
    using rt_curr_ok_upd_frame [OF do_sched_rt_period_timer_inv(3) [OF assms]] by simp
qed

lemma rt_period_loop_inv:
  assumes "rt_inv U s" "find_first_bit_ok env" "g \<in> groups_of U"
  shows "rt_inv U (snd (rt_period_loop env g os b s)) \<and>
    (\<forall>q. on_rt_rq (snd (rt_period_loop env g os b s)) (RtTask q) = on_rt_rq s (RtTask q)) \<and>
    rt_curr_ok U (snd (rt_period_loop env g os b s)) = rt_curr_ok U s"
  using assms
proof (induction os arbitrary: b s)
  case (Cons x os)
  note 1 = do_sched_rt_period_timer_inv [OF Cons.prems, of x] and 2 = rt_period_curr_ok [OF Cons.prems, of x]
  from Cons.IH [OF 1(1) Cons.prems(2,3)] 1(2) 2 Cons.prems(1) show ?case
    by (simp add: case_prod_beta)
qed simp

lemma sched_rt_period_timer_inv:
  assumes "rt_inv U s" "find_first_bit_ok env" "g \<in> groups_of U"
  shows "rt_inv U (snd (sched_rt_period_timer env g os s))"
    "on_rt_rq (snd (sched_rt_period_timer env g os s)) (RtTask q) = on_rt_rq s (RtTask q)"
    "rt_curr_ok U (snd (sched_rt_period_timer env g os s)) = rt_curr_ok U s"
  using rt_period_loop_inv [OF assms, of os False]
  by (simp_all add: sched_rt_period_timer_def case_prod_beta)
end
