(* ===== verification/Rt_Pick.thy ===== *)
theory Rt_Pick
  imports Rt_Ops Sched_Class
begin

text \<open>
  The choice of the next real-time task: the descent through the groups ends, and it
  finds the task of the highest priority among those that may run.
\<close>

section \<open>Runnable tasks\<close>

text \<open>A task may run when it is queued and no group on the way to it is throttled.\<close>

definition rt_runnable :: "'a ksys_scheme \<Rightarrow> tid \<Rightarrow> bool" where
  "rt_runnable s p \<longleftrightarrow>
     on_rt_rq s (RtTask p) \<and>
     (\<forall>h \<in> insert [] (path_groups (rt_rq_of (rt (task s p)))). \<not> rt_rq_throttled h s)"

lemma groups_of_snoc:
  assumes "ents_ok U s" "g @ [x] \<in> groups_of U"
  shows "g \<in> groups_of U" "RtGroup (g @ [x]) \<in> U"
proof -
  from assms(2) show "RtGroup (g @ [x]) \<in> U" by (simp add: groups_of_def)
  from ents_ok_group(1) [OF assms(1) this] show "g \<in> groups_of U" by simp
qed

lemma highest_le_entry:
  assumes "rt_grp_wf U s g" "e \<in> rt_ents (rt_rqs s g)"
  shows "highest_prio (rt_rqs s g) \<le> rt_se_prio s e"
proof -
  note wf = rt_grp_wfD(1) [OF assms(1)]
  from assms(2) obtain i where i: "i < 100" "e \<in> set (rt_queue (rt_rqs s g) i)"
    by (auto simp: rt_ents_def)
  then have "rt_queue (rt_rqs s g) i \<noteq> []" by auto
  with i(1) wf have "highest_prio (rt_rqs s g) \<le> int i" by (simp add: rq_wf_def highest_ok_def)
  with rq_wf_prio [OF wf i] show ?thesis by simp
qed

text \<open>Along a path of groups that are not throttled the highest priority reaches the root.\<close>

lemma highest_root_le:
  assumes inv: "rt_inv U s" and g: "g \<in> groups_of U" "\<And>h. h \<in> path_groups g \<Longrightarrow> \<not> rt_rq_throttled h s"
    and ne: "rt_nr_running (rt_rqs s g) \<noteq> 0"
  shows "highest_prio (rt_rqs s []) \<le> highest_prio (rt_rqs s g) \<and> rt_nr_running (rt_rqs s []) \<noteq> 0"
  using g ne
proof (induction g rule: rev_induct)
  case (snoc x g)
  note U = rt_inv_exD(1) [OF inv]
  note g = groups_of_snoc [OF U snoc.prems(1)]
  have "rt_link_ok s (g @ [x])" using inv g(2) by (simp add: rt_inv_ex_def)
  with snoc.prems have "on_rt_rq s (RtGroup (g @ [x]))" by (simp add: rt_link_ok_def)
  then have e: "RtGroup (g @ [x]) \<in> rt_ents (rt_rqs s g)" by (simp add: on_rt_rq_iff)
  note ok = rt_inv_exD(2) [OF inv g(1)]
  have "highest_prio (rt_rqs s g) \<le> highest_prio (rt_rqs s (g @ [x]))"
    using highest_le_entry [OF ok e] by (simp add: rt_se_prio_def)
  moreover have "rt_nr_running (rt_rqs s g) \<noteq> 0"
    using rq_wf_nr_running_0_iff [OF rt_grp_wfD(1) [OF ok]] e by auto
  ultimately show ?case using snoc.IH [OF g(1)] snoc.prems(2) by fastforce
qed simp

lemma rt_runnable_bound:
  assumes inv: "rt_inv U s" and p: "RtTask p \<in> U" "rt_runnable s p"
  shows "highest_prio (rt_rqs s []) \<le> prio (task s p)" "rt_nr_running (rt_rqs s []) \<noteq> 0"
proof -
  let ?g = "rt_rq_of (rt (task s p))"
  from ents_ok_group(1) [OF rt_inv_exD(1) [OF inv] p(1)] have g: "?g \<in> groups_of U" by simp
  note ok = rt_inv_exD(2) [OF inv g]
  from p(2) have e: "RtTask p \<in> rt_ents (rt_rqs s ?g)" by (simp add: rt_runnable_def on_rt_rq_iff)
  then have "rt_nr_running (rt_rqs s ?g) \<noteq> 0"
    using rq_wf_nr_running_0_iff [OF rt_grp_wfD(1) [OF ok]] by auto
  with highest_root_le [OF inv g] p(2) highest_le_entry [OF ok e]
  show "highest_prio (rt_rqs s []) \<le> prio (task s p)" "rt_nr_running (rt_rqs s []) \<noteq> 0"
    by (auto simp: rt_runnable_def rt_se_prio_def)
qed

section \<open>The descent\<close>

lemma pick_next_rt_entity_spec:
  assumes inv: "rt_inv U s" and env: "find_first_bit_ok env" and g: "g \<in> groups_of U"
    and ne: "rt_nr_running (rt_rqs s g) \<noteq> 0"
  obtains e es where "pick_next_rt_entity env g s = Some e" "e \<in> U" "rt_rq_of_se s e = g"
    "on_rt_rq s e" "rt_se_prio s e = highest_prio (rt_rqs s g)"
    "rt_queue (rt_rqs s g) (nat (rt_se_prio s e)) = e # es"
proof -
  let ?r = "rt_rqs s g" and ?i = "sched_find_first_bit env (rt_bitmap (rt_rqs s g))"
  note ok = rt_grp_wfD [OF rt_inv_exD(2) [OF inv g]]
  obtain i where i: "i < 100" "highest_prio ?r = int i" "rt_queue ?r i \<noteq> []"
    using highest_prio_range [OF ok(1) ne] .
  have bm: "rt_bitmap ?r 100" "\<And>j. j < 100 \<Longrightarrow> rt_bitmap ?r j \<longleftrightarrow> rt_queue ?r j \<noteq> []"
    and hp: "highest_ok ?r"
    using ok(1) by (simp_all add: rq_wf_def)
  note f = find_first_bitD [of env "rt_bitmap ?r", OF env bm(1)]
  have "?i = i"
  proof (rule antisym)
    show "?i \<le> i" using f(2) [of i] bm(2) i by (meson not_le)
    then have "?i < 100" using i(1) by simp
    then have "rt_queue ?r ?i \<noteq> []" using bm(2) f(1) by blast
    with \<open>?i < 100\<close> hp have "highest_prio ?r \<le> int ?i" by (simp add: highest_ok_def)
    with i(2) show "i \<le> ?i" by simp
  qed
  obtain e es where q: "rt_queue ?r i = e # es" using i(3) by (cases "rt_queue ?r i") auto
  then have e: "e \<in> set (rt_queue ?r i)" by simp
  then have en: "e \<in> rt_ents ?r" using i(1) by (rule rt_entsI [rotated])
  note pr = rq_wf_prio [OF ok(1) i(1) e]
  show thesis
  proof (rule that [of e es])
    show "pick_next_rt_entity env g s = Some e"
      using \<open>?i = i\<close> i(1) q by (simp add: pick_next_rt_entity_def Let_def MAX_RT_PRIO_100)
    show "on_rt_rq s e" using en ok(3) by (simp add: on_rt_rq_iff)
    show "rt_queue ?r (nat (rt_se_prio s e)) = e # es" using pr q by simp
  qed (use en ok i pr in auto)
qed

lemma groups_of_bounded:
  assumes "ents_ok U s"
  shows "\<exists>N. \<forall>g\<in>groups_of U. length g \<le> N"
proof -
  have "groups_of U \<subseteq> insert [] ((\<lambda>e. case e of RtGroup g \<Rightarrow> g | RtTask p \<Rightarrow> []) ` U)"
    by (force simp: groups_of_def)
  moreover have "finite U" using assms by (simp add: ents_ok_def)
  ultimately have "finite (groups_of U)" using finite_subset by blast
  then have "length g \<le> Max (length ` groups_of U)" if "g \<in> groups_of U" for g
    using that by simp
  then show ?thesis by blast
qed

lemma path_groups_butlast: "h \<noteq> [] \<Longrightarrow> path_groups h = insert h (path_groups (butlast h))"
  by (cases h rule: rev_cases) simp_all

lemma rt_pick_loop_spec:
  assumes inv: "rt_inv U s" and env: "find_first_bit_ok env"
    and N: "\<And>g. g \<in> groups_of U \<Longrightarrow> length g \<le> N"
    and g: "g \<in> groups_of U" "rt_nr_running (rt_rqs s g) \<noteq> 0"
  shows "\<exists>p. rt_pick_loop env g s = Some p \<and> RtTask p \<in> U \<and> on_rt_rq s (RtTask p) \<and>
    prio (task s p) = highest_prio (rt_rqs s g) \<and>
    (\<forall>h\<in>path_groups (rt_rq_of (rt (task s p))). h \<in> path_groups g \<or> \<not> rt_rq_throttled h s) \<and>
    (\<exists>es. rt_queue (rt_rqs s (rt_rq_of (rt (task s p)))) (nat (prio (task s p))) = RtTask p # es)"
  using g
proof (induction "N - length g" arbitrary: g rule: less_induct)
  case less
  obtain e es where e: "pick_next_rt_entity env g s = Some e" "e \<in> U" "rt_rq_of_se s e = g"
    "on_rt_rq s e" "rt_se_prio s e = highest_prio (rt_rqs s g)"
    "rt_queue (rt_rqs s g) (nat (rt_se_prio s e)) = e # es"
    using pick_next_rt_entity_spec [OF inv env less.prems] .
  show ?case
  proof (cases e)
    case (RtTask p)
    with e show ?thesis by (intro exI [of _ p]) (auto simp: rt_pick_loop.simps rt_se_prio_def)
  next
    case (RtGroup h)
    with e have h: "h \<in> groups_of U" "butlast h = g" "h \<noteq> []"
      using ents_ok_group(2) [OF rt_inv_exD(1) [OF inv] e(2)] by (auto simp: groups_of_def)
    have "rt_link_ok s h" using inv RtGroup e(2) by (simp add: rt_inv_ex_def)
    with e(4) RtGroup have l: "rt_nr_running (rt_rqs s h) \<noteq> 0" "\<not> rt_rq_throttled h s"
      by (simp_all add: rt_link_ok_def)
    have "length h = Suc (length g)" using h(2,3) by (cases h rule: rev_cases) auto
    then have "N - length h < N - length g" using N [OF h(1)] by simp
    from less.hyps [OF this h(1) l(1)] obtain p where p: "rt_pick_loop env h s = Some p" "RtTask p \<in> U"
      "on_rt_rq s (RtTask p)" "prio (task s p) = highest_prio (rt_rqs s h)"
      "\<forall>k\<in>path_groups (rt_rq_of (rt (task s p))). k \<in> path_groups h \<or> \<not> rt_rq_throttled k s"
      "\<exists>es. rt_queue (rt_rqs s (rt_rq_of (rt (task s p)))) (nat (prio (task s p))) = RtTask p # es"
      by blast
    moreover have "rt_pick_loop env g s = Some p" using e(1) RtGroup p(1) by (simp add: rt_pick_loop.simps)
    moreover have "highest_prio (rt_rqs s h) = highest_prio (rt_rqs s g)"
      using e(5) RtGroup by (simp add: rt_se_prio_def)
    moreover have "\<forall>k\<in>path_groups (rt_rq_of (rt (task s p))). k \<in> path_groups g \<or> \<not> rt_rq_throttled k s"
      using p(5) path_groups_butlast [OF h(3)] h(2) l(2) by auto
    ultimately show ?thesis by auto
  qed
qed

text \<open>The two outcomes of the pick.\<close>

lemma pick_next_task_rt_cases:
  assumes inv: "rt_inv U s" and env: "find_first_bit_ok env"
  obtains (none) "pick_next_task_rt env s = Some (None, s)" "\<And>q. RtTask q \<in> U \<Longrightarrow> \<not> rt_runnable s q"
  | (task) p es where
      "pick_next_task_rt env s = Some (Some p, upd_se p (\<lambda>e. e\<lparr>exec_start := clock_task (rq s)\<rparr>) s)"
      "RtTask p \<in> U" "rt_runnable s p" "\<And>q. RtTask q \<in> U \<Longrightarrow> rt_runnable s q \<Longrightarrow> prio (task s p) \<le> prio (task s q)"
      "rt_queue (rt_rqs s (rt_rq_of (rt (task s p)))) (nat (prio (task s p))) = RtTask p # es"
proof (cases "rt_nr_running (rt_rqs s []) = 0 \<or> rt_rq_throttled [] s")
  case True
  show thesis
  proof (rule none)
    show "pick_next_task_rt env s = Some (None, s)" using True by (auto simp: pick_next_task_rt_def)
    show "\<not> rt_runnable s q" if "RtTask q \<in> U" for q
      using True rt_runnable_bound(2) [OF inv that] by (auto simp: rt_runnable_def)
  qed
next
  case False
  obtain N where N: "\<forall>g\<in>groups_of U. length g \<le> N"
    using groups_of_bounded [OF rt_inv_exD(1) [OF inv]] by blast
  have "[] \<in> groups_of U" by (simp add: groups_of_def)
  from rt_pick_loop_spec [OF inv env N [rule_format] this] False obtain p es where p: "rt_pick_loop env [] s = Some p"
    "RtTask p \<in> U" "on_rt_rq s (RtTask p)" "prio (task s p) = highest_prio (rt_rqs s [])"
    "\<forall>h\<in>path_groups (rt_rq_of (rt (task s p))). \<not> rt_rq_throttled h s"
    "rt_queue (rt_rqs s (rt_rq_of (rt (task s p)))) (nat (prio (task s p))) = RtTask p # es"
    by auto
  show thesis
  proof (rule task [of p es])
    show "pick_next_task_rt env s = Some (Some p, upd_se p (\<lambda>e. e\<lparr>exec_start := clock_task (rq s)\<rparr>) s)"
      using False p(1) by (simp add: pick_next_task_rt_def)
    show "rt_runnable s p" using p False by (simp add: rt_runnable_def)
    show "prio (task s p) \<le> prio (task s q)" if "RtTask q \<in> U" "rt_runnable s q" for q
      using rt_runnable_bound(1) [OF inv that] p(4) by simp
  qed (use p in auto)
qed

section \<open>The contract of a scheduling class\<close>

definition rt_class_inv :: "kenv \<Rightarrow> rt_ent set \<Rightarrow> 'a ksys_scheme \<Rightarrow> bool" where
  "rt_class_inv env U s \<longleftrightarrow> find_first_bit_ok env \<and> rt_inv U s \<and> rt_curr_ok U s"

definition rt_queued :: "rt_ent set \<Rightarrow> 'a ksys_scheme \<Rightarrow> tid set" where
  "rt_queued U s = {p. RtTask p \<in> U \<and> on_rt_rq s (RtTask p)}"

definition rt_runnables :: "rt_ent set \<Rightarrow> 'a ksys_scheme \<Rightarrow> tid set" where
  "rt_runnables U s = {p. RtTask p \<in> U \<and> rt_runnable s p}"

definition rt_admits :: "rt_ent set \<Rightarrow> tid \<Rightarrow> 'a ksys_scheme \<Rightarrow> bool" where
  "rt_admits U p s \<longleftrightarrow> RtTask p \<in> U \<and> 0 \<le> prio (task s p) \<and> prio (task s p) < 100"

lemma rt_queued_prio:
  assumes "rt_inv U s" "p \<in> rt_queued U s"
  shows "0 \<le> prio (task s p)" "prio (task s p) < 100"
proof -
  from assms(2) have p: "RtTask p \<in> U" "on_rt_rq s (RtTask p)" by (auto simp: rt_queued_def)
  note ok = rt_grp_wfD [OF rt_inv_exD(2) [OF assms(1) ents_ok_group(1) [OF rt_inv_exD(1) [OF assms(1)] p(1)]]]
  from p(2) obtain i where i: "i < 100" "RtTask p \<in> set (rt_queue (rt_rqs s (rt_rq_of_se s (RtTask p))) i)"
    unfolding on_rt_rq_iff rt_ents_def by auto
  from rq_wf_prio [OF ok(1) i] i(1) show "0 \<le> prio (task s p)" "prio (task s p) < 100"
    by (simp_all add: rt_se_prio_def)
qed

lemma rt_frame_curr_ok:
  assumes "rt_frame s s'" shows "rt_curr_ok U s' = rt_curr_ok U s"
  by (simp add: rt_curr_ok_def rt_frame_task [OF assms] rt_frame_rq [OF assms])

lemma rt_class_enqueue:
  assumes "rt_class_inv env U s" "rt_admits U p s"
  shows "rt_class_inv env U (enqueue_task_rt env p fl s)"
    and "rt_queued U (enqueue_task_rt env p fl s) = insert p (rt_queued U s)"
proof -
  from assms have env: "find_first_bit_ok env" and inv: "rt_inv U s" and c: "rt_curr_ok U s"
    and p: "RtTask p \<in> U" "0 \<le> prio (task s p)" "prio (task s p) < 100"
    by (simp_all add: rt_class_inv_def rt_admits_def)
  note e = enqueue_task_rt_inv [OF inv env p]
  have "rt_curr_ok U (enqueue_task_rt env p fl s)"
    using c rt_frame_curr_ok [OF e(3) [of fl], of U] by (simp add: rt_curr_ok_def)
  with e(1) env show "rt_class_inv env U (enqueue_task_rt env p fl s)"
    by (simp add: rt_class_inv_def)
  show "rt_queued U (enqueue_task_rt env p fl s) = insert p (rt_queued U s)"
    using e(2) p(1) by (auto simp: rt_queued_def)
qed

lemma rt_class_dequeue:
  assumes "rt_class_inv env U s" "RtTask p \<in> U"
  shows "rt_class_inv env U (dequeue_task_rt env p fl s)"
    and "rt_queued U (dequeue_task_rt env p fl s) = rt_queued U s - {p}"
proof -
  from assms have env: "find_first_bit_ok env" and inv: "rt_inv U s" and c: "rt_curr_ok U s"
    by (simp_all add: rt_class_inv_def)
  note d = dequeue_task_rt_inv [OF inv env assms(2) c]
  have "rt_curr_ok U (dequeue_task_rt env p fl s)"
    using c rt_curr_ok_upd_frame [OF d(3) [of fl], of U] by (simp add: rt_curr_ok_def)
  with d(1) env show "rt_class_inv env U (dequeue_task_rt env p fl s)"
    by (simp add: rt_class_inv_def)
  show "rt_queued U (dequeue_task_rt env p fl s) = rt_queued U s - {p}"
    using d(2) by (auto simp: rt_queued_def)
qed

interpretation rt_cls: queue_contract "rt_sched_class_ops env" "rt_class_inv env U"
  "rt_runnables U" "rt_queued U" "rt_admits U"
  for env :: kenv and U :: "rt_ent set"
proof unfold_locales
  fix s s' :: "'a ksys_scheme" and p :: tid and fl :: u32
  assume cls: "rt_class_inv env U s"
  then have env: "find_first_bit_ok env" and inv: "rt_inv U s" and c: "rt_curr_ok U s"
    by (simp_all add: rt_class_inv_def)
  show "\<exists>r s'. pick_next_task_op (rt_sched_class_ops env) s = Some (r, s')"
    by (cases rule: pick_next_task_rt_cases [OF inv env]) (simp_all add: rt_sched_class_ops_def)
  show "pick_next_task_op (rt_sched_class_ops env) s = Some (None, s') \<Longrightarrow> rt_runnables U s = {} \<and> s' = s"
    by (cases rule: pick_next_task_rt_cases [OF inv env])
       (auto simp: rt_sched_class_ops_def rt_runnables_def)
  show "p \<in> rt_runnables U s \<and> rt_class_inv env U s'"
    if pick: "pick_next_task_op (rt_sched_class_ops env) s = Some (Some p, s')"
  proof -
    let ?s = "upd_se p (\<lambda>e. e\<lparr>exec_start := clock_task (rq s)\<rparr>) s"
    from pick have "RtTask p \<in> U \<and> rt_runnable s p \<and> s' = ?s"
      by (cases rule: pick_next_task_rt_cases [OF inv env]) (auto simp: rt_sched_class_ops_def)
    moreover have "rt_inv U ?s" by (rule rt_inv_same(1) [OF inv]) simp_all
    moreover have "rt_curr_ok U ?s" using c by (simp add: rt_curr_ok_def)
    ultimately show ?thesis using env by (simp add: rt_runnables_def rt_class_inv_def)
  qed
  show "rt_runnables U s \<subseteq> rt_queued U s"
    by (auto simp: rt_runnables_def rt_queued_def rt_runnable_def)
  show "rt_admits U p s \<Longrightarrow> rt_class_inv env U (enqueue_task_op (rt_sched_class_ops env) p fl s)"
    "rt_admits U p s \<Longrightarrow>
      rt_queued U (enqueue_task_op (rt_sched_class_ops env) p fl s) = insert p (rt_queued U s)"
    using rt_class_enqueue [OF cls] by (simp_all add: rt_sched_class_ops_def)
  assume q: "p \<in> rt_queued U s"
  then have p: "RtTask p \<in> U" by (simp add: rt_queued_def)
  from rt_class_dequeue [OF cls p]
  show "rt_class_inv env U (dequeue_task_op (rt_sched_class_ops env) p fl s)"
    "rt_queued U (dequeue_task_op (rt_sched_class_ops env) p fl s) = rt_queued U s - {p}"
    by (simp_all add: rt_sched_class_ops_def)
  show "rt_admits U p (dequeue_task_op (rt_sched_class_ops env) p fl s)"
    using p rt_queued_prio [OF inv q] rt_upd_frameD(1) [OF dequeue_task_rt_inv(3) [OF inv env p c, of fl], of p]
    by (simp add: rt_admits_def rt_sched_class_ops_def)
qed

section \<open>Accounting leaves the lower queues alone\<close>

lemma sched_rt_rq_dequeue_below:
  assumes inv: "rt_inv_ex U X s" and env: "find_first_bit_ok env" and g: "g \<in> groups_of U"
    and k: "length g \<le> length k"
  shows "rt_rqs (sched_rt_rq_dequeue env g s) k = rt_rqs s k"
  using dequeue_rt_entity_below [OF inv env _ k] g
  by (auto simp: sched_rt_rq_dequeue_def tg_rt_se_def groups_of_def)

lemma sched_rt_runtime_exceeded_below:
  assumes inv: "rt_inv U s" and env: "find_first_bit_ok env" and g: "g \<in> groups_of U"
    and k: "length g \<le> length k"
  shows "rt_rq_core (rt_rqs (snd (sched_rt_runtime_exceeded env g s)) k) = rt_rq_core (rt_rqs s k)"
    and "k \<noteq> g \<Longrightarrow> rt_rqs (snd (sched_rt_runtime_exceeded env g s)) k = rt_rqs s k"
proof -
  let ?t = "upd_rt_rq g (\<lambda>r. r\<lparr>rt_throttled := True\<rparr>) s"
  have t: "rt_inv_ex U {g} ?t" by (rule rt_inv_upd_flags(1) [OF inv]) (simp add: rt_rq_core_def)
  note d = sched_rt_rq_dequeue_below [OF t env g k]
  show "rt_rq_core (rt_rqs (snd (sched_rt_runtime_exceeded env g s)) k) = rt_rq_core (rt_rqs s k)"
    by (simp add: sched_rt_runtime_exceeded_def Let_def d rt_rq_core_def)
       (simp add: rt_rq_throttled_def)
  show "rt_rqs (snd (sched_rt_runtime_exceeded env g s)) k = rt_rqs s k" if "k \<noteq> g"
    using that by (simp add: sched_rt_runtime_exceeded_def Let_def d) (simp add: rt_rq_throttled_def)
qed

lemma charge_rt_entity_below:
  assumes inv: "rt_inv U s" and env: "find_first_bit_ok env" and e: "e \<in> U"
    and k: "length (rt_rq_of_se s e) \<le> length k"
  shows "rt_rq_core (rt_rqs (charge_rt_entity env c d e s) k) = rt_rq_core (rt_rqs s k)"
    and "k \<noteq> rt_rq_of_se s e \<Longrightarrow> rt_rqs (charge_rt_entity env c d e s) k = rt_rqs s k"
proof -
  let ?g = "rt_rq_of_se s e"
  let ?s = "upd_rt_rq ?g (\<lambda>r. r\<lparr>rt_time := rt_time r + d\<rparr>) s"
  have 1: "rt_inv U ?s" by (rule rt_inv_upd_clock [OF inv]) (simp_all add: rt_rq_core_def)
  note x = sched_rt_runtime_exceeded_below [OF 1 env ents_ok_group(1) [OF rt_inv_exD(1) [OF inv] e] k]
  show "rt_rq_core (rt_rqs (charge_rt_entity env c d e s) k) = rt_rq_core (rt_rqs s k)"
    using x(1) by (simp add: charge_rt_entity_def Let_def case_prod_beta rt_rq_core_def)
  show "rt_rqs (charge_rt_entity env c d e s) k = rt_rqs s k" if "k \<noteq> ?g"
    using x(2) that by (simp add: charge_rt_entity_def Let_def case_prod_beta)
qed

text \<open>The entities of a group's chain are queued on its ancestors.\<close>

lemma charge_groups_below:
  assumes "rt_inv U s" "find_first_bit_ok env" "g \<in> groups_of U" "length g \<le> length k"
  shows "rt_rqs (fold (charge_rt_entity env c d) (group_chain g) s) k = rt_rqs s k"
  using assms
proof (induction g arbitrary: s rule: rev_induct)
  case (snoc x g)
  let ?e = "RtGroup (g @ [x])" and ?s = "charge_rt_entity env c d (RtGroup (g @ [x])) s"
  note U = rt_inv_exD(1) [OF snoc.prems(1)]
  note g = groups_of_snoc [OF U snoc.prems(3)]
  have inv: "rt_inv U ?s" using charge_rt_entity_inv [OF snoc.prems(1,2) g(2)] by blast
  have "rt_rqs ?s k = rt_rqs s k"
    using charge_rt_entity_below(2) [OF snoc.prems(1,2) g(2), of k c d] snoc.prems(4) by force
  with snoc.IH [OF inv snoc.prems(2) g(1)] snoc.prems(4) show ?case by simp
qed simp

text \<open>The task's own run queue after the accounting: only its clock and flag may change.\<close>

lemma update_curr_rt_below:
  assumes inv: "rt_inv U s" and env: "find_first_bit_ok env" and c: "rt_curr_ok U s"
    and k: "sched_class (task s (curr (rq s))) = rt_sched_class \<Longrightarrow>
            length (rt_rq_of (rt (task s (curr (rq s))))) \<le> length k"
  shows "rt_rq_core (rt_rqs (update_curr_rt env s) k) = rt_rq_core (rt_rqs s k)"
proof (cases "sched_class (task s (curr (rq s))) = rt_sched_class")
  case False
  then show ?thesis by (simp add: update_curr_rt_def Let_def)
next
  case True
  let ?c = "curr (rq s)" and ?g = "rt_rq_of (rt (task s (curr (rq s))))"
  have cU: "RtTask ?c \<in> U" using c True by (simp add: rt_curr_ok_def)
  obtain d s1 where u: "update_curr_rt env s =
      (if \<not> rt_bandwidth_enabled s1 then s1
       else fold (charge_rt_entity env ?c d) (rt_chain s1 (RtTask ?c)) s1)"
    and s1: "rt_rqs s1 = rt_rqs s" "rt_upd_frame s s1"
    using update_curr_rt_unfold [OF True] by blast
  from rt_inv_upd_frame [OF inv s1] have 1: "rt_inv U s1" by auto
  note U1 = rt_inv_exD(1) [OF 1]
  have g1: "rt_rq_of (rt (task s1 ?c)) = ?g" using rt_upd_frameD(7) [OF s1(2)] by simp
  let ?s2 = "charge_rt_entity env ?c d (RtTask ?c) s1"
  have 2: "rt_inv U ?s2" using charge_rt_entity_inv [OF 1 env cU] by blast
  have "?g \<in> groups_of U" using ents_ok_group(1) [OF U1 cU] g1 by simp
  from charge_groups_below [OF 2 env this k [OF True]]
  have "rt_rqs (fold (charge_rt_entity env ?c d) (group_chain ?g) ?s2) k = rt_rqs ?s2 k" .
  moreover have "rt_rq_core (rt_rqs ?s2 k) = rt_rq_core (rt_rqs s1 k)"
    using charge_rt_entity_below(1) [OF 1 env cU] g1 k [OF True] by simp
  ultimately show ?thesis
    using u s1(1) rt_chain_task [OF U1 cU] g1 by (simp add: rt_rq_core_def)
qed
end
