(* ===== verification/Rt_Reach.thy ===== *)
theory Rt_Reach
  imports Rt_Pick
begin

text \<open>
  The states the real-time class can get into, as a step relation over the calls of the
  scheduler core, the period timer, and the creation of tasks and groups; and that the
  run-queue invariant holds in all of them.
\<close>

section \<open>Creation of tasks and groups\<close>

definition fresh_rt_rq :: "rt_rq \<Rightarrow> bool" where
  "fresh_rt_rq r \<longleftrightarrow>
     (\<forall>i<100. rt_queue r i = [] \<and> \<not> rt_bitmap r i) \<and> rt_bitmap r 100 \<and>
     rt_nr_running r = 0 \<and> highest_prio r = 100 \<and> rt_nr_boosted r = 0"

lemma fresh_rt_rq_wf:
  assumes "fresh_rt_rq r"
  shows "rq_wf pf bf r" "rt_ents r = {}"
proof -
  have q: "rt_queue r i = []" if "i \<in> rt_slots" for i using that assms by (simp add: fresh_rt_rq_def)
  then show e: "rt_ents r = {}" by (auto simp: rt_ents_def)
  have "rt_len r = 0" "rt_boosted_len bf r = 0" using q by (simp_all add: rt_len_def rt_boosted_len_def)
  with assms show "rq_wf pf bf r" by (simp add: rq_wf_def fresh_rt_rq_def highest_ok_def)
qed

lemma init_root_fresh:
  assumes "rt_nr_running (rt_rqs s g) = 0"
  shows "fresh_rt_rq (rt_rqs (init_tg_rt_entry g (init_rt_rq g s)) g)"
  using assms by (simp add: fresh_rt_rq_def init_tg_rt_entry_def init_rt_rq_def MAX_RT_PRIO_100)

lemma alloc_rt_sched_group_effect:
  assumes "alloc_rt_sched_group True True True True g s = (r, s')"
  shows "r = 1" "task s' = task s" "rq s' = rq s" "fresh_rt_rq (rt_rqs s' g)"
    "k \<noteq> g \<Longrightarrow> rt_rqs s' k = rt_rqs s k"
  using assms
  by (auto simp: alloc_rt_sched_group_def Let_def init_rt_bandwidth_def init_rt_rq_def
      init_tg_rt_entry_def kzalloc_rt_rq_def fresh_rt_rq_def MAX_RT_PRIO_100)

lemma rt_inv_new_group:
  fixes s s' :: "'a ksys_scheme"
  assumes inv: "rt_inv U s" and t: "task s' = task s" and fr: "fresh_rt_rq (rt_rqs s' g)"
    and o: "\<And>k. k \<noteq> g \<Longrightarrow> rt_rqs s' k = rt_rqs s k"
    and g: "g \<noteq> []" "RtGroup g \<notin> U" "butlast g \<in> groups_of U" "card (insert (RtGroup g) U) < 2 ^ 32"
  shows "rt_inv (insert (RtGroup g) U) s'"
proof -
  let ?U = "insert (RtGroup g) U"
  note U = rt_inv_exD(1) [OF inv]
  have U': "ents_ok ?U s'" using U g unfolding rt_se_same_task(4) [OF t]
    by (auto simp: ents_ok_def groups_of_def)
  have gr: "groups_of ?U = insert g (groups_of U)" by (auto simp: groups_of_def)
  have gn: "g \<notin> groups_of U" using g(1,2) by (simp add: groups_of_def)
  have se: "rt_se_prio s' e = rt_se_prio s e \<and> rt_se_boosted s' e = rt_se_boosted s e" if "e \<in> U" for e
  proof (cases e)
    case (RtGroup h)
    with that g(2) have "h \<noteq> g" by auto
    with RtGroup show ?thesis by (simp add: rt_se_prio_def rt_se_boosted_def o)
  qed (simp add: rt_se_prio_def rt_se_boosted_def t)
  have ok: "rt_grp_wf ?U s' k" if k: "k \<in> groups_of U" for k
  proof -
    note w = rt_grp_wfD [OF rt_inv_exD(2) [OF inv k]]
    have r: "rt_rqs s' k = rt_rqs s k" using k gn by (intro o) auto
    have "rq_wf (rt_se_prio s') (rt_se_boosted s') (rt_rqs s k)"
      by (rule rq_wf_cong [OF _ w(1)]) (use se w(2) in auto)
    with r w show ?thesis by (simp add: rt_grp_wf_def rt_se_same_task [OF t])
  qed
  moreover have "rt_grp_wf ?U s' g" using fresh_rt_rq_wf [OF fr] by (simp add: rt_grp_wf_def)
  moreover have "rt_link_ok s' h" if h: "RtGroup h \<in> ?U" for h
  proof (cases "h = g")
    case True
    have "RtGroup g \<notin> rt_ents (rt_rqs s' (butlast g))"
    proof -
      have "butlast g \<noteq> g" using gn g(3) by auto
      then show ?thesis
        using rt_grp_wfD(2) [OF rt_inv_exD(2) [OF inv g(3)]] g(2) o by auto
    qed
    moreover have "rt_nr_running (rt_rqs s' g) = 0" using fr by (simp add: fresh_rt_rq_def)
    ultimately show ?thesis using True by (simp add: rt_link_ok_def on_rt_rq_iff)
  next
    case False
    with h have hU: "RtGroup h \<in> U" by simp
    then have "butlast h \<in> groups_of U" using ents_ok_group(1) [OF U] by force
    then have "butlast h \<noteq> g" using gn by auto
    then show ?thesis
      using False inv hU o by (simp add: rt_inv_ex_def rt_link_ok_def on_rt_rq_iff rt_rq_throttled_def)
  qed
  ultimately show ?thesis using U' gr by (simp add: rt_inv_ex_def)
qed

lemma rt_inv_new_task:
  assumes inv: "rt_inv U s" and p: "rt_rq_of (rt (task s p)) \<in> groups_of U"
    "rt_parent (rt (task s p)) = (if rt_rq_of (rt (task s p)) = [] then None else Some (rt_rq_of (rt (task s p))))"
    "card (insert (RtTask p) U) < 2 ^ 32"
  shows "rt_inv (insert (RtTask p) U) s"
proof -
  note U = rt_inv_exD(1) [OF inv]
  have "ents_ok (insert (RtTask p) U) s"
    using U p by (auto simp: ents_ok_def groups_of_def)
  moreover have "groups_of (insert (RtTask p) U) = groups_of U" by (simp add: groups_of_def)
  moreover have "rt_grp_wf U s k \<Longrightarrow> rt_grp_wf (insert (RtTask p) U) s k" for k
    by (auto simp: rt_grp_wf_def)
  ultimately show ?thesis using inv by (simp add: rt_inv_ex_def)
qed

section \<open>Steps\<close>

text \<open>
  A step goes from the existing entities and a state to the entities and state after it.
  A task is enqueued when its priority is a real-time priority; its priorities, policy and
  class change while it is not queued (\<^verbatim>\<open>__sched_setscheduler\<close> and
  \<^verbatim>\<open>rt_mutex_setprio\<close> dequeue it first). The current task changes to the one
  the class picked or to a task of another class. The four allocations of a new group succeed.
\<close>

inductive rt_step ::
  "kenv \<Rightarrow> rt_ent set \<Rightarrow> 'a gsys_scheme \<Rightarrow> rt_ent set \<Rightarrow> 'a gsys_scheme \<Rightarrow> bool" for env where
  rt_step_enqueue: "rt_admits U p s \<Longrightarrow> rt_step env U s U (enqueue_task_rt env p fl s)"
| rt_step_dequeue: "RtTask p \<in> U \<Longrightarrow> rt_step env U s U (dequeue_task_rt env p fl s)"
| rt_step_tick: "RtTask p \<in> U \<Longrightarrow> rt_step env U s U (task_tick_rt env p s)"
| rt_step_put_prev: "rt_step env U s U (put_prev_task_rt env p s)"
| rt_step_yield: "RtTask (curr (rq s)) \<in> U \<Longrightarrow> rt_step env U s U (yield_task_rt s)"
| rt_step_pick: "pick_next_task_rt env s = Some (Some p, s') \<Longrightarrow>
     rt_step env U s U (upd_rq (\<lambda>r. r\<lparr>curr := p\<rparr>) s')"
| rt_step_switch: "sched_class (task s p) \<noteq> rt_sched_class \<Longrightarrow>
     rt_step env U s U (upd_rq (\<lambda>r. r\<lparr>curr := p\<rparr>) s)"
| rt_step_set_curr: "rt_step env U s U (set_curr_task_rt s)"
| rt_step_check_preempt: "rt_step env U s U (check_preempt_curr_rt p fl s)"
| rt_step_switched_to: "rt_step env U s U (switched_to_rt p s)"
| rt_step_prio_changed: "rt_step env U s U (prio_changed_rt p old s)"
| rt_step_timer: "g \<in> groups_of U \<Longrightarrow> rt_step env U s U (snd (sched_rt_period_timer env g os s))"
| rt_step_bandwidth: "rt_step env U s U (set_bandwidth g period runtime s)"
| rt_step_clock: "rt_step env U s U (upd_rq (\<lambda>r. r\<lparr>clock_task := c\<rparr>) s)"
| rt_step_setprio: "RtTask p \<in> U \<Longrightarrow> \<not> on_rt_rq s (RtTask p) \<Longrightarrow>
     rt_step env U s U (upd_task p (\<lambda>t. t\<lparr>prio := pr, normal_prio := npr, rt_priority := rpr,
                                        sched_class := cls, policy := pol\<rparr>) s)"
| rt_step_fork: "rt_rq_of (rt (task s p)) \<in> groups_of U \<Longrightarrow>
     rt_parent (rt (task s p)) =
       (if rt_rq_of (rt (task s p)) = [] then None else Some (rt_rq_of (rt (task s p)))) \<Longrightarrow>
     card (insert (RtTask p) U) < 2 ^ 32 \<Longrightarrow> rt_step env U s (insert (RtTask p) U) s"
| rt_step_group: "alloc_rt_sched_group True True True True g s = (1, s') \<Longrightarrow> g \<noteq> [] \<Longrightarrow>
     RtGroup g \<notin> U \<Longrightarrow> butlast g \<in> groups_of U \<Longrightarrow> card (insert (RtGroup g) U) < 2 ^ 32 \<Longrightarrow>
     rt_step env U s (insert (RtGroup g) U) s'"

inductive rt_reachable :: "kenv \<Rightarrow> rt_ent set \<Rightarrow> 'a gsys_scheme \<Rightarrow> bool" for env where
  rt_reach_init: "rt_nr_running (rt_rqs s []) = 0 \<Longrightarrow>
     sched_class (task s (curr (rq s))) \<noteq> rt_sched_class \<Longrightarrow>
     rt_reachable env {} (init_tg_rt_entry [] (init_rt_rq [] s))"
| rt_reach_step: "rt_reachable env U s \<Longrightarrow> rt_step env U s U' s' \<Longrightarrow> rt_reachable env U' s'"

inductive_cases rt_stepE: "rt_step env U s U' s'"

section \<open>The invariant holds in every reachable state\<close>

lemma rt_class_inv_upd_frame:
  assumes "rt_class_inv env U s" "rt_inv U s'" "rt_upd_frame s s'"
  shows "rt_class_inv env U s'"
  using assms rt_curr_ok_upd_frame [OF assms(3), of U] by (simp add: rt_class_inv_def)

lemma rt_class_inv_same:
  assumes "rt_class_inv env U s" "rt_rqs s' = rt_rqs s" "rt_upd_frame s s'"
  shows "rt_class_inv env U s'"
proof (rule rt_class_inv_upd_frame [OF assms(1) _ assms(3)])
  show "rt_inv U s'" by (rule rt_inv_upd_frame(1) [OF _ assms(2,3)]) (use assms(1) in \<open>simp add: rt_class_inv_def\<close>)
qed

lemma rt_class_inv_cong:
  assumes "rt_class_inv env U s" "rt_rqs s' = rt_rqs s" "task s' = task s"
    and "rt_curr_ok U s \<Longrightarrow> rt_curr_ok U s'"
  shows "rt_class_inv env U s'"
  using assms rt_inv_same(1) [of U s s'] by (simp add: rt_class_inv_def)

lemma rt_inv_setprio:
  fixes s :: "'a ksys_scheme" and p :: tid and pr npr rpr :: int and cls :: sched_class_id and pol :: int
  assumes inv: "rt_inv U s" and p: "RtTask p \<in> U" "\<not> on_rt_rq s (RtTask p)"
  defines "s' \<equiv> upd_task p (\<lambda>t. t\<lparr>prio := pr, normal_prio := npr, rt_priority := rpr,
                              sched_class := cls, policy := pol\<rparr>) s"
  shows "rt_inv U s'"
proof -
  have rt: "rt (task s' q) = rt (task s q)" for q by (simp add: s'_def)
  then have of_se: "rt_rq_of_se s' e = rt_rq_of_se s e" for e by (cases e) simp_all
  have r: "rt_rqs s' = rt_rqs s" by (simp add: s'_def)
  have se: "rt_se_prio s' e = rt_se_prio s e \<and> rt_se_boosted s' e = rt_se_boosted s e"
    if "e \<noteq> RtTask p" for e
    using that by (cases e) (auto simp: rt_se_prio_def rt_se_boosted_def s'_def)
  have "rt_grp_wf U s' k" if k: "rt_grp_wf U s k" for k
  proof -
    have "RtTask p \<notin> rt_ents (rt_rqs s k)"
      using rt_grp_wfD(3) [OF k, of "RtTask p"] p(2) by (auto simp: on_rt_rq_iff)
    then have "rq_wf (rt_se_prio s') (rt_se_boosted s') (rt_rqs s k)"
      by (intro rq_wf_cong [OF _ rt_grp_wfD(1) [OF k]]) (use se in metis)
    with k show ?thesis by (simp add: rt_grp_wf_def r of_se)
  qed
  moreover have "ents_ok U s' = ents_ok U s" by (simp add: ents_ok_def rt)
  ultimately show ?thesis
    using inv by (simp add: rt_inv_ex_def rt_link_ok_def on_rt_rq_iff of_se r rt_rq_throttled_def)
qed

lemma rt_class_tick:
  assumes "rt_class_inv env U s" "RtTask p \<in> U"
  shows "rt_class_inv env U (task_tick_rt env p s)"
proof -
  from assms have env: "find_first_bit_ok env" and inv: "rt_inv U s" and c: "rt_curr_ok U s"
    by (simp_all add: rt_class_inv_def)
  note u = update_curr_rt_inv [OF inv env c]
  have q: "rq (requeue_task_rt p False t) = rq t" "task (requeue_task_rt p False t) = task t"
    for t :: "'a ksys_scheme"
  proof -
    have *: "rq (fold (\<lambda>e s. requeue_rt_entity (rt_rq_of_se s e) e False s) es t) = rq t \<and>
        task (fold (\<lambda>e s. requeue_rt_entity (rt_rq_of_se s e) e False s) es t) = task t" for es
      by (induction es arbitrary: t) (simp_all add: requeue_rt_entity_def unlink_rt_entity_def Let_def)
    then show "rq (requeue_task_rt p False t) = rq t" "task (requeue_task_rt p False t) = task t"
      by (simp_all add: requeue_task_rt_def)
  qed
  have "curr (rq (task_tick_rt env p s)) = curr (rq s)"
    "sched_class (task (task_tick_rt env p s) x) = sched_class (task s x)" for x
    by (simp_all add: task_tick_rt_def Let_def watchdog_fields q rt_upd_frameD [OF u(2)])
  then have "rt_curr_ok U (task_tick_rt env p s)" using c by (simp add: rt_curr_ok_def)
  then show ?thesis
    using env task_tick_rt_inv(1) [OF inv env assms(2) c] by (simp add: rt_class_inv_def)
qed

lemma rt_class_put_prev: "rt_class_inv env U s \<Longrightarrow> rt_class_inv env U (put_prev_task_rt env p s)"
  using update_curr_rt_inv [of U s env] rt_class_inv_upd_frame [of env U s]
  by (simp add: rt_class_inv_def put_prev_task_rt_def)

lemma rt_class_yield:
  assumes "rt_class_inv env U s" "RtTask (curr (rq s)) \<in> U"
  shows "rt_class_inv env U (yield_task_rt s)"
  using assms requeue_task_rt_inv [OF _ assms(2), of s False]
  by (simp add: rt_class_inv_def yield_task_rt_def rt_curr_ok_def)

lemma rt_class_resched: "rt_class_inv env U s \<Longrightarrow> rt_class_inv env U (resched_task p s)"
  by (erule rt_class_inv_same [OF _ _ rt_upd_frame_resched]) simp

lemma rt_class_pick:
  assumes "rt_class_inv env U s" "pick_next_task_rt env s = Some (Some p, s')"
  shows "rt_class_inv env U (upd_rq (\<lambda>r. r\<lparr>curr := p\<rparr>) s')"
proof -
  from assms have p: "p \<in> rt_runnables U s \<and> rt_class_inv env U s'"
    by (intro rt_cls.pick_some) (simp_all add: rt_sched_class_ops_def)
  show ?thesis
    by (rule rt_class_inv_cong [OF conjunct2 [OF p]])
       (use p in \<open>simp_all add: rt_runnables_def rt_curr_ok_def\<close>)
qed

lemma rt_class_timer:
  "rt_class_inv env U s \<Longrightarrow> g \<in> groups_of U \<Longrightarrow>
     rt_class_inv env U (snd (sched_rt_period_timer env g os s))"
  using sched_rt_period_timer_inv [of U s env g os] by (simp add: rt_class_inv_def)

lemma rt_class_bandwidth:
  assumes "rt_class_inv env U s" shows "rt_class_inv env U (set_bandwidth g period runtime s)"
proof -
  let ?s = "set_bandwidth g period runtime s"
  have "rt_inv U ?s"
    using assms by (intro rt_inv_ex_cong(1) [of U "{}" s ?s "{}"])
      (simp_all add: rt_class_inv_def set_bandwidth_def rt_rq_core_def rt_rq_throttled_def upd_rt_rq_def)
  then show ?thesis using assms by (simp add: rt_class_inv_def rt_curr_ok_def set_bandwidth_def)
qed

lemma rt_class_setprio:
  assumes "rt_class_inv env U s" "RtTask p \<in> U" "\<not> on_rt_rq s (RtTask p)"
  shows "rt_class_inv env U (upd_task p (\<lambda>t. t\<lparr>prio := pr, normal_prio := npr, rt_priority := rpr,
                                            sched_class := cls, policy := pol\<rparr>) s)"
  using assms rt_inv_setprio [OF _ assms(2,3)]
  by (auto simp: rt_class_inv_def rt_curr_ok_def)

lemma rt_class_group:
  assumes "rt_class_inv env U s" "alloc_rt_sched_group True True True True g s = (1, s')" "g \<noteq> []"
    "RtGroup g \<notin> U" "butlast g \<in> groups_of U" "card (insert (RtGroup g) U) < 2 ^ 32"
  shows "rt_class_inv env (insert (RtGroup g) U) s'"
proof -
  note a = alloc_rt_sched_group_effect [OF assms(2)]
  have "rt_inv (insert (RtGroup g) U) s'"
    using assms by (intro rt_inv_new_group [OF _ a(2,4,5)]) (simp_all add: rt_class_inv_def)
  then show ?thesis using assms(1) by (auto simp: rt_class_inv_def rt_curr_ok_def a(2,3))
qed

lemma rt_class_fork:
  assumes "rt_class_inv env U s" "rt_rq_of (rt (task s p)) \<in> groups_of U"
    "rt_parent (rt (task s p)) =
       (if rt_rq_of (rt (task s p)) = [] then None else Some (rt_rq_of (rt (task s p))))"
    "card (insert (RtTask p) U) < 2 ^ 32"
  shows "rt_class_inv env (insert (RtTask p) U) s"
  using assms rt_inv_new_task [of U s p] by (auto simp: rt_class_inv_def rt_curr_ok_def)

lemma rt_class_misc:
  assumes "rt_class_inv env U s"
  shows "sched_class (task s p) \<noteq> rt_sched_class \<Longrightarrow> rt_class_inv env U (upd_rq (\<lambda>r. r\<lparr>curr := p\<rparr>) s)"
    and "rt_class_inv env U (upd_rq (\<lambda>r. r\<lparr>clock_task := c\<rparr>) s)"
    and "rt_class_inv env U (set_curr_task_rt s)"
    and "rt_class_inv env U (check_preempt_curr_rt p fl s)"
    and "rt_class_inv env U (switched_to_rt p s)"
    and "rt_class_inv env U (prio_changed_rt p old s)"
proof -
  show "rt_class_inv env U (upd_rq (\<lambda>r. r\<lparr>curr := p\<rparr>) s)" if "sched_class (task s p) \<noteq> rt_sched_class"
    using that by (intro rt_class_inv_cong [OF assms]) (simp_all add: rt_curr_ok_def)
  show "rt_class_inv env U (upd_rq (\<lambda>r. r\<lparr>clock_task := c\<rparr>) s)"
    by (intro rt_class_inv_cong [OF assms]) (simp_all add: rt_curr_ok_def)
  show "rt_class_inv env U (set_curr_task_rt s)"
    unfolding set_curr_task_rt_def by (rule rt_class_inv_same [OF assms _ rt_upd_frame_se]) simp
qed (auto simp: check_preempt_curr_rt_def switched_to_rt_def prio_changed_rt_def assms
      intro: rt_class_resched)

lemmas rt_class_intros = rt_class_enqueue(1) rt_class_dequeue(1) rt_class_tick rt_class_put_prev
  rt_class_yield rt_class_pick rt_class_misc rt_class_timer rt_class_bandwidth rt_class_setprio
  rt_class_fork rt_class_group

lemma rt_step_inv:
  assumes "rt_step env U s U' s'" "rt_class_inv env U s"
  shows "rt_class_inv env U' s'"
  using assms by (induction rule: rt_step.induct) (rule rt_class_intros; assumption)+

lemma rt_reachable_inv:
  assumes "rt_reachable env U s" "find_first_bit_ok env"
  shows "rt_class_inv env U s"
  using assms
proof (induction rule: rt_reachable.induct)
  case (rt_reach_init s)
  let ?s = "init_tg_rt_entry [] (init_rt_rq [] s)"
  note f = fresh_rt_rq_wf [OF init_root_fresh [OF rt_reach_init(1)]]
  have "rt_inv {} ?s"
    using f by (simp add: rt_inv_ex_def ents_ok_def groups_of_def rt_grp_wf_def)
  moreover have "rt_curr_ok {} ?s"
    using rt_reach_init(2) by (simp add: rt_curr_ok_def init_tg_rt_entry_def init_rt_rq_def)
  ultimately show ?case using rt_reach_init(3) by (simp add: rt_class_inv_def)
next
  case (rt_reach_step U s U' s')
  then show ?case using rt_step_inv by blast
qed
end
