(* ===== verification/Rt_Throttle.thy ===== *)
theory Rt_Throttle
  imports Rt_Pick
begin

text \<open>
  The behaviour of the real-time class over time: a group that exceeds its runtime is
  throttled, the period timer replenishes it, and a round-robin task at the end of its
  slice goes to the tail of its list.
\<close>

section \<open>The budget of a group\<close>

text \<open>Queueing leaves the time used, the runtime and the throttle flag of every group alone.\<close>

definition rt_budget :: "'a ksys_scheme \<Rightarrow> tgid \<Rightarrow> bool \<times> u64 \<times> u64 \<times> bool" where
  "rt_budget s g =
     (rt_throttled (rt_rqs s g), rt_time (rt_rqs s g), rt_runtime (rt_rqs s g), rt_bandwidth_enabled s)"

lemmas rt_queue_defs = enqueue_rt_entity1_def dequeue_rt_entity1_def link_rt_entity_def unlink_rt_entity_def
  inc_rt_tasks_def dec_rt_tasks_def inc_rt_prio_def dec_rt_prio_def inc_rt_group_def dec_rt_group_def
  start_rt_bandwidth_def start_bandwidth_timer_def list_add_leaf_rt_rq_def list_del_leaf_rt_rq_def

lemma rt_budget_upd [simp]:
  "rt_budget (resched_task p s) k = rt_budget s k" "rt_budget (inc_nr_running s) k = rt_budget s k"
  "rt_budget (upd_rt_se p f s) k = rt_budget s k" "rt_budget (upd_se p h s) k = rt_budget s k"
  "rt_budget (upd_task p u s) k = rt_budget s k" "rt_budget (upd_rq v s) k = rt_budget s k"
  "k \<noteq> g \<Longrightarrow> rt_budget (upd_rt_rq g w s) k = rt_budget s k"
  by (simp_all add: rt_budget_def rt_bandwidth_enabled_def)

lemma queue_rt_entity1_budget:
  "rt_budget (enqueue_rt_entity1 head e s) k = rt_budget s k"
  "rt_budget (dequeue_rt_entity1 env e s) k = rt_budget s k"
  by (simp_all add: rt_queue_defs Let_def rt_budget_def rt_bandwidth_enabled_def)

lemma fold_budget:
  assumes "\<And>e s. rt_budget (f e s) k = rt_budget s k"
  shows "rt_budget (fold f es s) k = rt_budget s k"
  by (induction es arbitrary: s) (simp_all add: assms)

lemma dequeue_rt_stack_budget:
  "rt_budget (dequeue_rt_stack env e s) k = rt_budget s k"
  unfolding dequeue_rt_stack_def by (rule fold_budget) (simp add: queue_rt_entity1_budget)

lemma enqueue_rt_entity_budget:
  "rt_budget (enqueue_rt_entity env e head s) k = rt_budget s k"
  unfolding enqueue_rt_entity_def
  by (subst fold_budget) (simp_all add: queue_rt_entity1_budget dequeue_rt_stack_budget)

lemma dequeue_rt_entity_budget:
  "rt_budget (dequeue_rt_entity env e s) k = rt_budget s k"
  unfolding dequeue_rt_entity_def
  by (subst fold_budget) (simp_all add: queue_rt_entity1_budget dequeue_rt_stack_budget split: option.split)

lemma sched_rt_rq_budget:
  "rt_budget (sched_rt_rq_enqueue env g s) k = rt_budget s k"
  "rt_budget (sched_rt_rq_dequeue env g s) k = rt_budget s k"
  by (simp_all add: sched_rt_rq_enqueue_def sched_rt_rq_dequeue_def Let_def enqueue_rt_entity_budget
      dequeue_rt_entity_budget split: option.split)

lemma enqueue_task_rt_budget:
  "rt_budget (enqueue_task_rt env p fl s) k = rt_budget s k"
  by (simp add: enqueue_task_rt_def Let_def enqueue_rt_entity_budget)

section \<open>Throttling\<close>

text \<open>The accounting only requests reschedules.\<close>

lemma charge_rt_entity_resched:
  assumes "rt_inv U s" "find_first_bit_ok env" "e \<in> U" "need_resched (task s c)"
  shows "need_resched (task (charge_rt_entity env c' d e s) c)"
proof -
  let ?g = "rt_rq_of_se s e"
  let ?s = "upd_rt_rq ?g (\<lambda>r. r\<lparr>rt_time := rt_time r + d\<rparr>) s"
  have 1: "rt_inv U ?s" by (rule rt_inv_upd_clock [OF assms(1)]) (simp_all add: rt_rq_core_def)
  note 2 = sched_rt_runtime_exceeded_inv(2) [OF 1 assms(2) ents_ok_group(1) [OF rt_inv_exD(1) [OF assms(1)] assms(3)]]
  from rt_frame_task [OF 2] assms(4) show ?thesis
    by (simp add: charge_rt_entity_def Let_def case_prod_beta)
qed

lemma charge_chain_resched:
  assumes "rt_inv U s" "find_first_bit_ok env" "set es \<subseteq> U" "need_resched (task s c)"
  shows "need_resched (task (fold (charge_rt_entity env c' d) es s) c)"
  using assms
  by (induction es arbitrary: s) (simp_all add: charge_rt_entity_resched charge_rt_entity_inv)

text \<open>The charge that exceeds the runtime of the group.\<close>

lemma charge_rt_entity_exceeds:
  assumes inv: "rt_inv U s" and env: "find_first_bit_ok env" and e: "e \<in> U" and g: "g = rt_rq_of_se s e"
    and lim: "\<not> rt_throttled (rt_rqs s g)" "rt_runtime (rt_rqs s g) < rt_period (rt_bws s g)"
      "rt_runtime (rt_rqs s g) < rt_time (rt_rqs s g) + d" "rtb_runtime (rt_bws s g) \<noteq> 0"
      "rt_nr_boosted (rt_rqs s g) = 0"
  shows "rt_rqs (charge_rt_entity env c d e s) g =
      (rt_rqs s g)\<lparr>rt_time := rt_time (rt_rqs s g) + d, rt_throttled := True\<rparr>"
    "need_resched (task (charge_rt_entity env c d e s) c)"
    "k \<noteq> g \<Longrightarrow> rt_budget (charge_rt_entity env c d e s) k = rt_budget s k"
proof -
  let ?t = "upd_rt_rq g (\<lambda>r. r\<lparr>rt_throttled := True\<rparr>) (upd_rt_rq g (\<lambda>r. r\<lparr>rt_time := rt_time r + d\<rparr>) s)"
  have "rt_runtime (rt_rqs s g) \<noteq> RUNTIME_INF"
    using lim(2) word_order.extremum [of "rt_period (rt_bws s g)"] by (auto simp: RUNTIME_INF_def)
  moreover have "\<not> rt_period (rt_bws s g) \<le> rt_runtime (rt_rqs s g)" using lim(2) by simp
  ultimately have x: "charge_rt_entity env c d e s = resched_task c (sched_rt_rq_dequeue env g ?t)"
    using lim
    by (simp add: charge_rt_entity_def sched_rt_runtime_exceeded_def Let_def sched_rt_runtime_def
        sched_rt_period_def rt_rq_throttled_def g)
  have "rt_inv_ex U {g} ?t"
    by (rule rt_inv_upd_flags(1) [OF rt_inv_upd_clock [OF inv]]) (simp_all add: rt_rq_core_def)
  from sched_rt_rq_dequeue_below [OF this env _ order.refl] ents_ok_group(1) [OF rt_inv_exD(1) [OF inv] e] g
  show "rt_rqs (charge_rt_entity env c d e s) g =
      (rt_rqs s g)\<lparr>rt_time := rt_time (rt_rqs s g) + d, rt_throttled := True\<rparr>"
    by (simp add: x)
  show "need_resched (task (charge_rt_entity env c d e s) c)" by (simp add: x)
  show "rt_budget (charge_rt_entity env c d e s) k = rt_budget s k" if "k \<noteq> g"
    using that by (simp add: x sched_rt_rq_budget)
qed

lemma update_curr_rt_throttles:
  assumes cls: "rt_class_inv env U s" "sched_class (task s (curr (rq s))) = rt_sched_class"
    and g: "g = rt_rq_of (rt (task s (curr (rq s))))" and en: "rt_bandwidth_enabled s"
    and lim: "\<not> rt_throttled (rt_rqs s g)" "rt_runtime (rt_rqs s g) < rt_period (rt_bws s g)"
      "rt_runtime (rt_rqs s g) < rt_time (rt_rqs s g) + rt_delta s" "rtb_runtime (rt_bws s g) \<noteq> 0"
      "rt_nr_boosted (rt_rqs s g) = 0"
  shows "rt_rqs (update_curr_rt env s) g =
      (rt_rqs s g)\<lparr>rt_time := rt_time (rt_rqs s g) + rt_delta s, rt_throttled := True\<rparr>"
    "need_resched (task (update_curr_rt env s) (curr (rq s)))"
    "g = [x] \<Longrightarrow> rt_runtime (rt_rqs s []) = RUNTIME_INF \<Longrightarrow>
       rt_budget (update_curr_rt env s) [] = rt_budget s []"
proof -
  let ?c = "curr (rq s)"
  from cls have env: "find_first_bit_ok env" and inv: "rt_inv U s" and cU: "RtTask ?c \<in> U"
    by (simp_all add: rt_class_inv_def rt_curr_ok_def)
  obtain s1 where u: "update_curr_rt env s =
      (if \<not> rt_bandwidth_enabled s1 then s1
       else fold (charge_rt_entity env ?c (rt_delta s)) (rt_chain s1 (RtTask ?c)) s1)"
    and s1: "rt_rqs s1 = rt_rqs s" "rt_upd_frame s s1" and bw: "rt_bws s1 = rt_bws s"
      "sysctl_sched_rt_runtime s1 = sysctl_sched_rt_runtime s"
    using update_curr_rt_unfold [OF cls(2)] by blast
  from rt_inv_upd_frame [OF inv s1] have 1: "rt_inv U s1" by auto
  note U1 = rt_inv_exD(1) [OF 1]
  have g1: "g = rt_rq_of_se s1 (RtTask ?c)" using rt_upd_frameD(7) [OF s1(2)] g by simp
  let ?s2 = "charge_rt_entity env ?c (rt_delta s) (RtTask ?c) s1"
  let ?s3 = "fold (charge_rt_entity env ?c (rt_delta s)) (group_chain g) ?s2"
  have 2: "rt_inv U ?s2" using charge_rt_entity_inv [OF 1 env cU] by blast
  note x = charge_rt_entity_exceeds [OF 1 env cU g1, of "rt_delta s", unfolded s1(1) bw(1), OF lim]
  have gU: "g \<in> groups_of U" using ents_ok_group(1) [OF U1 cU] g1 by simp
  have ch: "rt_chain s1 (RtTask ?c) = RtTask ?c # group_chain g" using rt_chain_task [OF U1 cU] g1 by simp
  then have chU: "set (group_chain g) \<subseteq> U" using set_rt_chain_in [OF U1 cU] by simp
  have s3: "update_curr_rt env s = ?s3" using u en bw(2) ch by (simp add: rt_bandwidth_enabled_def)
  moreover have "rt_rqs ?s3 g = rt_rqs ?s2 g" by (rule charge_groups_below [OF 2 env gU]) simp
  ultimately show "rt_rqs (update_curr_rt env s) g =
      (rt_rqs s g)\<lparr>rt_time := rt_time (rt_rqs s g) + rt_delta s, rt_throttled := True\<rparr>"
    using x(1) by simp
  show "need_resched (task (update_curr_rt env s) ?c)"
    unfolding s3 by (rule charge_chain_resched [OF 2 env chU x(2)])
  assume r: "g = [x]" "rt_runtime (rt_rqs s []) = RUNTIME_INF"
  have "rt_budget s1 [] = rt_budget s []" using s1(1) bw(2) by (simp add: rt_budget_def rt_bandwidth_enabled_def)
  then have b: "rt_budget ?s2 [] = rt_budget s []" using x(3) [of "[]" ?c] r(1) by simp
  moreover have "group_chain [x] = [RtGroup [x]]" using group_chain_snoc [of "[]" x] by simp
  ultimately show "rt_budget (update_curr_rt env s) [] = rt_budget s []"
    using r by (simp add: s3) (simp add: charge_rt_entity_def sched_rt_runtime_def rt_budget_def)
qed

section \<open>Replenishment\<close>

lemma rt_replenished_less:
  assumes "unat (rt_time r) < (k + 1) * unat (rt_runtime r)" "k * unat (rt_runtime r) < 2 ^ 64"
  shows "rt_replenished (int k) r < rt_runtime r"
proof -
  have m: "unat (of_int (int k) * rt_runtime r) = k * unat (rt_runtime r)"
    using assms(2) by (simp add: unat_word_ariths unat_of_nat mod_mult_left_eq)
  then have "unat (rt_replenished (int k) r) = unat (rt_time r) - k * unat (rt_runtime r)"
    by (cases "rt_time r \<le> of_int (int k) * rt_runtime r")
       (simp_all add: rt_replenished_def min_def unat_sub word_le_nat_alt)
  moreover have "unat (rt_time r) - k * unat (rt_runtime r) < unat (rt_runtime r)"
    using assms(1) by (cases "unat (rt_runtime r) = 0") (simp_all add: algebra_simps)
  ultimately show ?thesis by (simp add: word_less_nat_alt)
qed

lemma do_sched_rt_period_timer_flag:
  fixes s :: "'a ksys_scheme"
  shows
  "rt_throttled (rt_rqs (snd (do_sched_rt_period_timer env g overrun s)) k) =
     (rt_throttled (rt_rqs s k) \<and> \<not> (k = g \<and> rt_unthrottles overrun (rt_rqs s g)))"
proof -
  have flag: "rt_throttled (rt_rqs (sched_rt_rq_enqueue env g t) k) = rt_throttled (rt_rqs t k)"
    for t :: "'a ksys_scheme"
    using sched_rt_rq_budget(1) [of env g t k] by (simp add: rt_budget_def)
  show ?thesis by (simp add: do_sched_rt_period_timer_state flag rt_period_state_def Let_def)
qed

section \<open>Round robin\<close>

lemma requeue_groups_below:
  "length g \<le> length k \<Longrightarrow>
    rt_rqs (fold (\<lambda>e s. requeue_rt_entity (rt_rq_of_se s e) e head s) (group_chain g) s) k = rt_rqs s k"
proof (induction g arbitrary: s rule: rev_induct)
  case (snoc x g)
  then have "rt_rqs (requeue_rt_entity g (RtGroup (g @ [x])) head s) k = rt_rqs s k"
    by (auto simp: requeue_rt_entity_def unlink_rt_entity_def Let_def)
  with snoc show ?case by simp
qed simp

lemma rt_run_list_queue:
  assumes inv: "rt_inv U s" and e: "e \<in> U" "on_rt_rq s e"
  shows "rt_run_list s e = rt_queue (rt_rqs s (rt_rq_of_se s e)) (nat (rt_se_prio s e))"
    "distinct (rt_run_list s e)" "e \<in> set (rt_run_list s e)"
proof -
  let ?r = "rt_rqs s (rt_rq_of_se s e)"
  note wf = rt_grp_wfD(1) [OF rt_inv_exD(2) [OF inv ents_ok_group(1) [OF rt_inv_exD(1) [OF inv] e(1)]]]
  have "\<exists>i\<in>set rt_prios. e \<in> set (rt_queue ?r i)" using e(2) by (simp add: on_rt_rq_def list_ex_iff)
  then have "find (\<lambda>i. e \<in> set (rt_queue ?r i)) rt_prios \<noteq> None" by (auto simp: find_None_iff)
  then obtain i where f: "find (\<lambda>i. e \<in> set (rt_queue ?r i)) rt_prios = Some i" by blast
  then have i: "i < 100" "e \<in> set (rt_queue ?r i)"
    by (auto simp: find_Some_iff rt_prios_def MAX_RT_PRIO_100)
  with f rq_wf_prio [OF wf i] wf
  show "rt_run_list s e = rt_queue ?r (nat (rt_se_prio s e))"
    "distinct (rt_run_list s e)" "e \<in> set (rt_run_list s e)"
    by (simp_all add: rt_run_list_def rq_wf_def)
qed

text \<open>A tick before the slice is tested: the queue of the running task is as it was.\<close>

lemma tick_prefix:
  fixes s :: "'a ksys_scheme"
  assumes cls: "rt_class_inv env U s" and p: "p = curr (rq s)" "RtTask p \<in> U"
  defines "t \<equiv> watchdog env p (update_curr_rt env s)" and "g \<equiv> rt_rq_of (rt (task s p))"
  shows "rt_inv U t" "rt_queue (rt_rqs t g) = rt_queue (rt_rqs s g)" "rt_rq_of (rt (task t p)) = g"
    "policy (task t p) = policy (task s p)" "prio (task t p) = prio (task s p)"
    "rt_time_slice (rt (task t p)) = rt_time_slice (rt (task s p))"
    "on_rt_rq t (RtTask q) = on_rt_rq s (RtTask q)"
proof -
  from cls have env: "find_first_bit_ok env" and inv: "rt_inv U s" and c: "rt_curr_ok U s"
    by (simp_all add: rt_class_inv_def)
  note u = update_curr_rt_inv [OF inv env c]
  show "rt_inv U t" "on_rt_rq t (RtTask q) = on_rt_rq s (RtTask q)"
    using rt_inv_same [OF u(1), of t] u(3) by (simp_all add: t_def watchdog_fields)
  have "rt_rq_core (rt_rqs (update_curr_rt env s) g) = rt_rq_core (rt_rqs s g)"
    by (rule update_curr_rt_below [OF inv env c]) (simp add: g_def p(1))
  then show "rt_queue (rt_rqs t g) = rt_queue (rt_rqs s g)"
    by (simp add: t_def watchdog_fields rt_rq_core_def)
  show "rt_rq_of (rt (task t p)) = g" "policy (task t p) = policy (task s p)"
    "prio (task t p) = prio (task s p)" "rt_time_slice (rt (task t p)) = rt_time_slice (rt (task s p))"
    by (simp_all add: t_def g_def watchdog_fields rt_upd_frameD [OF u(2)])
qed

lemma task_tick_rt_same_queue:
  assumes cls: "rt_class_inv env U s" "p = curr (rq s)" "RtTask p \<in> U"
    and k: "policy (task s p) \<noteq> SCHED_RR \<or> rt_time_slice (rt (task s p)) \<noteq> 1"
  shows "rt_queue (rt_rqs (task_tick_rt env p s) (rt_rq_of (rt (task s p)))) =
           rt_queue (rt_rqs s (rt_rq_of (rt (task s p))))"
    "rt_time_slice (rt (task (task_tick_rt env p s) p)) =
       (if policy (task s p) = SCHED_RR then rt_time_slice (rt (task s p)) - 1
        else rt_time_slice (rt (task s p)))"
  using tick_prefix [OF cls] k
  by (simp_all add: task_tick_rt_def Let_def)

lemma task_tick_rt_rotates:
  assumes cls: "rt_class_inv env U s" "p = curr (rq s)" "RtTask p \<in> U"
    and k: "policy (task s p) = SCHED_RR" "rt_time_slice (rt (task s p)) = 1"
    and q: "on_rt_rq s (RtTask p)"
      "q = rt_queue (rt_rqs s (rt_rq_of (rt (task s p)))) (nat (prio (task s p)))" "2 \<le> length q"
  shows "rt_queue (rt_rqs (task_tick_rt env p s) (rt_rq_of (rt (task s p)))) (nat (prio (task s p))) =
           remove1 (RtTask p) q @ [RtTask p]"
    "rt_time_slice (rt (task (task_tick_rt env p s) p)) = RR_TIMESLICE env"
    "need_resched (task (task_tick_rt env p s) p)"
proof -
  let ?g = "rt_rq_of (rt (task s p))"
  define t where "t = watchdog env p (update_curr_rt env s)"
  note t = tick_prefix [OF cls, folded t_def]
  define u where "u = upd_rt_se p (\<lambda>e. e\<lparr>rt_time_slice := RR_TIMESLICE env\<rparr>)
    (upd_rt_se p (\<lambda>e. e\<lparr>rt_time_slice := rt_time_slice e - 1\<rparr>) t)"
  have u: "rt_inv U u" "on_rt_rq u (RtTask p)"
    using upd_slice_inv [OF upd_slice_inv(1) [OF t(1)]] upd_slice_inv(2) [OF t(1)] t(7) q(1)
    by (simp_all add: u_def)
  have uf: "rt_rqs u = rt_rqs t" "rt_rq_of (rt (task u p)) = ?g" "prio (task u p) = prio (task s p)"
    "rt_time_slice (rt (task u p)) = RR_TIMESLICE env"
    using t by (simp_all add: u_def)
  note ch = rt_chain_task [OF rt_inv_exD(1) [OF u(1)] cls(3)]
  note l = rt_run_list_queue [OF u(1) cls(3) u(2)]
  have l1: "rt_run_list u (RtTask p) = q" using l(1) uf t(2) q(2) by (simp add: rt_se_prio_def)
  have "list_ex (\<lambda>e. list_prev e (rt_run_list u e) \<noteq> list_next e (rt_run_list u e)) (rt_chain u (RtTask p))"
    using l l1 q(3) by (simp add: ch list_prev_neq_next_iff)
  then have tick: "task_tick_rt env p s = set_tsk_need_resched p (requeue_task_rt p False u)"
    using k t(4,6) by (simp add: task_tick_rt_def Let_def t_def u_def)
  have "rt_rqs (requeue_task_rt p False u) ?g =
      rt_rqs (requeue_rt_entity ?g (RtTask p) False u) ?g"
    by (simp add: requeue_task_rt_def ch uf requeue_groups_below)
  moreover have "rt_queue (rt_rqs (requeue_rt_entity ?g (RtTask p) False u) ?g) (nat (prio (task s p))) =
      remove1 (RtTask p) q @ [RtTask p]"
    using requeue_rt_entity_inv(6) [OF u(1) cls(3), of False ?g "nat (prio (task s p))"] u(2) q(2) t(2)
    by (simp add: uf rt_se_prio_def klist_defs)
  ultimately show "rt_queue (rt_rqs (task_tick_rt env p s) ?g) (nat (prio (task s p))) =
      remove1 (RtTask p) q @ [RtTask p]"
    by (simp add: tick)
  show "rt_time_slice (rt (task (task_tick_rt env p s) p)) = RR_TIMESLICE env"
    "need_resched (task (task_tick_rt env p s) p)"
    using requeue_task_rt_inv(2) [OF u(1) cls(3), of False] uf(4) by (simp_all add: tick)
qed

end
