(* ===== verification/Rt_Correct.thy ===== *)
theory Rt_Correct
  imports Rt_Reach Rt_Throttle Sched_Example
begin

text \<open>
  Correctness of the real-time class: the run queues of every reachable state, the task
  picked, the throttling of a group and its end, and the round-robin ticks.
\<close>

section \<open>An evaluated state\<close>

lemma ex_first_bit_ok: "find_first_bit_ok ex_env"
proof -
  have scan: "b d \<Longrightarrow> b (ex_scan_bits b d is)" for b d "is"
    by (induction "is") auto
  have least: "j < m \<Longrightarrow> n \<le> j \<Longrightarrow> j < ex_scan_bits b m [n..<m] \<Longrightarrow> \<not> b j" for b j n m
  proof (induction "m - n" arbitrary: n)
    case (Suc k)
    then have "[n..<m] = n # [Suc n..<m]" by (simp add: upt_conv_Cons)
    with Suc.prems Suc.hyps(1) [of "Suc n"] Suc.hyps(2) show ?case
      by (cases "j = n") (auto split: if_splits)
  qed simp
  have le: "(\<forall>i\<in>set is. i \<le> d) \<Longrightarrow> ex_scan_bits b d is \<le> d" for b d "is"
    by (induction "is") auto
  have "\<not> b j" if "j < ex_first_bit b" for b j
  proof -
    have "ex_first_bit b \<le> 100" unfolding ex_first_bit_def by (rule le) auto
    with that have "j < 100" by simp
    with that show ?thesis unfolding ex_first_bit_def by (intro least [of j 100 0]) simp_all
  qed
  then show ?thesis by (auto simp: find_first_bit_ok_def ex_env_def ex_first_bit_def scan)
qed

text \<open>
  Two round-robin tasks of priority 50 in the group \<open>[7]\<close>. Task 2 runs: it is made current
  as a fair task and then gets its real-time policy; both tasks are enqueued, the group
  gets a runtime of 95 in a period of 100, and the clock moves by 100.
\<close>

definition ex_rt_task :: task_struct where
  "ex_rt_task = ex_task\<lparr>prio := 50, normal_prio := 50, rt_priority := 49, policy := SCHED_RR,
     sched_class := rt_sched_class,
     rt := (rt ex_task)\<lparr>rt_time_slice := 1, rt_rq_of := [7], rt_parent := Some [7]\<rparr>\<rparr>"

definition ex_rt0 :: gsys where
  "ex_rt0 = ksys.extend
     (ex_ksys\<lparr>task := (task ex_ksys)(2 := ex_rt_task\<lparr>sched_class := fair_sched_class\<rparr>, 3 := ex_rt_task)\<rparr>)
     (gsys.fields (\<lambda>g. []) [2, 3] \<lparr>rt_period = 1000000000, rtb_runtime = 950000000, rt_timer_active = False\<rparr>)"

definition ex_rt1 :: gsys where
  "ex_rt1 = snd (alloc_rt_sched_group True True True True [7] (init_tg_rt_entry [] (init_rt_rq [] ex_rt0)))"

definition ex_rt_U :: "rt_ent set" where
  "ex_rt_U = {RtTask 3, RtTask 2, RtGroup [7]}"

definition ex_rt2 :: gsys where
  "ex_rt2 = upd_task 2 (\<lambda>t. t\<lparr>prio := 50, normal_prio := 50, rt_priority := 49,
                             sched_class := rt_sched_class, policy := SCHED_RR\<rparr>)
              (upd_rq (\<lambda>r. r\<lparr>curr := 2\<rparr>) ex_rt1)"

definition ex_rt3 :: gsys where
  "ex_rt3 = enqueue_task_rt ex_env 3 0 (enqueue_task_rt ex_env 2 0 ex_rt2)"

definition ex_rt :: gsys where
  "ex_rt = upd_rq (\<lambda>r. r\<lparr>clock_task := exec_start (se ex_task) + 100\<rparr>)
             (set_bandwidth [] 1000 RUNTIME_INF (set_bandwidth [7] 100 95 ex_rt3))"

lemma ex_rt_task_fields [simp]:
  "rt_rq_of (rt ex_rt_task) = [7]" "prio ex_rt_task = 50" "policy ex_rt_task = SCHED_RR"
  "rt_time_slice (rt ex_rt_task) = 1" "sched_class ex_rt_task = rt_sched_class" "normal_prio ex_rt_task = 50"
  by (simp_all add: ex_rt_task_def)

lemma ex_rt0_fields [simp]:
  "task ex_rt0 = (\<lambda>p. ex_task)(2 := ex_rt_task\<lparr>sched_class := fair_sched_class\<rparr>, 3 := ex_rt_task)"
  "rq ex_rt0 = ex_rq" "rt_rqs ex_rt0 = (\<lambda>g. ex_rt_rq)"
  "rt_bandwidth_enabled ex_rt0"
  by (simp_all add: ex_rt0_def ex_ksys_def ksys.defs gsys.defs rt_bandwidth_enabled_def)

lemma ex_rt1_fields [simp]:
  "task ex_rt1 = task ex_rt0" "rq ex_rt1 = rq ex_rt0"
  "rt_budget ex_rt1 [] = (False, 0, 0, True)" "rt_budget ex_rt1 [7] = (False, 0, 0, True)"
  using ex_rt0_fields(4)
  by (simp_all add: ex_rt1_def alloc_rt_sched_group_def Let_def init_rt_bandwidth_def init_rt_rq_def
      init_tg_rt_entry_def kzalloc_rt_rq_def rt_budget_def rt_bandwidth_enabled_def)

lemma ex_rt2_reachable: "rt_reachable ex_env ex_rt_U ex_rt2"
proof -
  let ?s0 = "init_tg_rt_entry [] (init_rt_rq [] ex_rt0)"
  have 0: "rt_reachable ex_env {} ?s0"
    by (rule rt_reach_init) (simp_all add: ex_rt_rq_def ex_rq_def ex_task_def)
  have al: "alloc_rt_sched_group True True True True [7] ?s0 = (1, ex_rt1)"
    by (simp add: ex_rt1_def alloc_rt_sched_group_def Let_def)
  have 1: "rt_reachable ex_env {RtGroup [7]} ex_rt1"
    by (rule rt_reach_step [OF 0], rule rt_step_group [OF al]) (simp_all add: groups_of_def)
  have 2: "rt_reachable ex_env {RtTask 2, RtGroup [7]} ex_rt1"
    by (rule rt_reach_step [OF 1], rule rt_step_fork) (simp_all add: groups_of_def ex_rt_task_def)
  have 3: "rt_reachable ex_env ex_rt_U ex_rt1" unfolding ex_rt_U_def
    by (rule rt_reach_step [OF 2], rule rt_step_fork) (simp_all add: groups_of_def ex_rt_task_def)
  have "\<not> on_rt_rq ex_rt1 (RtTask 2)"
    using fresh_rt_rq_wf(2) [OF alloc_rt_sched_group_effect(4) [OF al]] by (simp add: on_rt_rq_iff ex_rt_task_def)
  then have q: "\<not> on_rt_rq (upd_rq (\<lambda>r. r\<lparr>curr := 2\<rparr>) ex_rt1) (RtTask 2)" by (simp add: on_rt_rq_def)
  have 4: "rt_reachable ex_env ex_rt_U (upd_rq (\<lambda>r. r\<lparr>curr := 2\<rparr>) ex_rt1)"
    by (rule rt_reach_step [OF 3], rule rt_step_switch) simp
  show ?thesis unfolding ex_rt2_def
    by (rule rt_reach_step [OF 4], rule rt_step_setprio [OF _ q]) (simp add: ex_rt_U_def)
qed

lemma ex_rt2_task: "task ex_rt2 2 = ex_rt_task" "task ex_rt2 3 = ex_rt_task" "curr (rq ex_rt2) = 2"
  by (simp_all add: ex_rt2_def ex_rt_task_def)

lemma rt_reach_enqueue:
  assumes r: "rt_reachable env U s" and env: "find_first_bit_ok env" and a: "rt_admits U p s"
  shows "rt_reachable env U (enqueue_task_rt env p 0 s)" "task (enqueue_task_rt env p 0 s) = task s"
    "curr (rq (enqueue_task_rt env p 0 s)) = curr (rq s)"
    "on_rt_rq (enqueue_task_rt env p 0 s) (RtTask q) \<longleftrightarrow> on_rt_rq s (RtTask q) \<or> q = p"
proof -
  show "rt_reachable env U (enqueue_task_rt env p 0 s)" by (rule rt_reach_step [OF r], rule rt_step_enqueue [OF a])
  have "rt_inv U s" using rt_reachable_inv [OF r env] by (simp add: rt_class_inv_def)
  with a enqueue_task_rt_inv [OF _ env, of U s p 0]
  have f: "rt_frame (inc_nr_running s) (enqueue_task_rt env p 0 s)"
    and q: "on_rt_rq (enqueue_task_rt env p 0 s) (RtTask q) \<longleftrightarrow> on_rt_rq s (RtTask q) \<or> q = p" for q
    by (simp_all add: rt_admits_def)
  from q show "on_rt_rq (enqueue_task_rt env p 0 s) (RtTask q) \<longleftrightarrow> on_rt_rq s (RtTask q) \<or> q = p" .
  show "task (enqueue_task_rt env p 0 s) = task s" using rt_frame_task [OF f] by simp
  show "curr (rq (enqueue_task_rt env p 0 s)) = curr (rq s)" using rt_frame_rq [OF f] by simp
qed

lemma ex_rt3_facts:
  "rt_reachable ex_env ex_rt_U ex_rt3" "task ex_rt3 = task ex_rt2" "curr (rq ex_rt3) = 2"
  "on_rt_rq ex_rt3 (RtTask 2)" "on_rt_rq ex_rt3 (RtTask 3)" "rt_budget ex_rt3 k = rt_budget ex_rt1 k"
proof -
  have a: "rt_admits ex_rt_U 2 ex_rt2" "rt_admits ex_rt_U 3 ex_rt2"
    by (simp_all add: rt_admits_def ex_rt_U_def ex_rt2_task ex_rt_task_def)
  note e1 = rt_reach_enqueue [OF ex_rt2_reachable ex_first_bit_ok a(1)]
  have a3: "rt_admits ex_rt_U 3 (enqueue_task_rt ex_env 2 0 ex_rt2)"
    using a(2) by (simp add: rt_admits_def e1(2))
  from rt_reach_enqueue [OF e1(1) ex_first_bit_ok a3] e1
  show "rt_reachable ex_env ex_rt_U ex_rt3" "task ex_rt3 = task ex_rt2" "curr (rq ex_rt3) = 2"
    "on_rt_rq ex_rt3 (RtTask 2)" "on_rt_rq ex_rt3 (RtTask 3)"
    by (simp_all add: ex_rt3_def ex_rt2_task)
  show "rt_budget ex_rt3 k = rt_budget ex_rt1 k"
    by (simp add: ex_rt3_def enqueue_task_rt_budget) (simp add: ex_rt2_def)
qed

lemma ex_rt_reachable: "rt_reachable ex_env ex_rt_U ex_rt"
  unfolding ex_rt_def
  by (rule rt_reach_step [OF _ rt_step_clock], rule rt_reach_step [OF _ rt_step_bandwidth],
      rule rt_reach_step [OF _ rt_step_bandwidth], rule ex_rt3_facts)

lemma ex_rt_facts [simp]:
  "curr (rq ex_rt) = 2" "task ex_rt 2 = ex_rt_task" "task ex_rt 3 = ex_rt_task"
  "on_rt_rq ex_rt (RtTask 2)" "on_rt_rq ex_rt (RtTask 3)"
  "rt_period (rt_bws ex_rt [7]) = 100" "rtb_runtime (rt_bws ex_rt [7]) = 95"
  using ex_rt3_facts ex_rt2_task
  by (simp_all add: ex_rt_def set_bandwidth_def on_rt_rq_def)

lemma ex_rt_budget:
  "\<not> rt_throttled (rt_rqs ex_rt [])" "rt_runtime (rt_rqs ex_rt []) = RUNTIME_INF"
  "\<not> rt_throttled (rt_rqs ex_rt [7])" "rt_time (rt_rqs ex_rt [7]) = 0" "rt_runtime (rt_rqs ex_rt [7]) = 95"
  "rt_bandwidth_enabled ex_rt" "rt_delta ex_rt = 100"
proof -
  have "rt_budget ex_rt3 [] = (False, 0, 0, True)" "rt_budget ex_rt3 [7] = (False, 0, 0, True)"
    using ex_rt3_facts(6) by simp_all
  then show "\<not> rt_throttled (rt_rqs ex_rt [])" "rt_runtime (rt_rqs ex_rt []) = RUNTIME_INF"
    "\<not> rt_throttled (rt_rqs ex_rt [7])" "rt_time (rt_rqs ex_rt [7]) = 0" "rt_runtime (rt_rqs ex_rt [7]) = 95"
    "rt_bandwidth_enabled ex_rt"
    by (simp_all add: ex_rt_def set_bandwidth_def rt_budget_def rt_bandwidth_enabled_def)
  have "clock_task (rq ex_rt) = 100" by (simp add: ex_rt_def ex_task_def)
  then show "rt_delta ex_rt = 100" by (simp add: rt_delta_def ex_rt_task_def ex_task_def word_sless_alt)
qed


lemma ex_path_groups: "path_groups [7] = {[7]}"
  by (subst path_groups_butlast) simp_all


section \<open>Run queues\<close>

text \<open>
  C3. In every state the scheduler can reach, the priority array of every group is
  consistent: a bit is set exactly when its list has an entry, every entry is filed once,
  under its own priority and in the array of its own group, the count and the highest priority
  are those of the lists, and a group is queued in its parent exactly when it has an entry and
  is not throttled.
\<close>

theorem rt_run_queues_consistent:
  assumes "rt_reachable env U s" "find_first_bit_ok env" "g \<in> groups_of U"
  shows "(\<forall>i<100. rt_bitmap (rt_rqs s g) i \<longleftrightarrow> rt_queue (rt_rqs s g) i \<noteq> []) \<and>
    (\<forall>i<100. distinct (rt_queue (rt_rqs s g) i) \<and>
       (\<forall>e\<in>set (rt_queue (rt_rqs s g) i). e \<in> U \<and> rt_se_prio s e = int i \<and> rt_rq_of_se s e = g)) \<and>
    unat (rt_nr_running (rt_rqs s g)) = (\<Sum>i<100. length (rt_queue (rt_rqs s g) i)) \<and>
    (if rt_nr_running (rt_rqs s g) = 0 then highest_prio (rt_rqs s g) = MAX_RT_PRIO
     else \<exists>i<100. highest_prio (rt_rqs s g) = int i \<and> rt_queue (rt_rqs s g) i \<noteq> [] \<and>
            (\<forall>j<i. rt_queue (rt_rqs s g) j = [])) \<and>
    (g \<noteq> [] \<longrightarrow> (on_rt_rq s (RtGroup g) \<longleftrightarrow> rt_nr_running (rt_rqs s g) \<noteq> 0 \<and> \<not> rt_rq_throttled g s))"
proof -
  let ?r = "rt_rqs s g"
  have inv: "rt_inv U s" using rt_reachable_inv [OF assms(1,2)] by (simp add: rt_class_inv_def)
  note ok = rt_grp_wfD [OF rt_inv_exD(2) [OF inv assms(3)]]
  have hp: "highest_ok ?r" using ok(1) by (simp add: rq_wf_def)
  have "e \<in> U \<and> rt_rq_of_se s e = g" if "e \<in> set (rt_queue ?r i)" "i < 100" for e i
    using ok(2,3) rt_entsI [OF that(2,1)] by auto
  moreover have "highest_prio ?r = MAX_RT_PRIO" if "rt_nr_running ?r = 0"
    using that rq_wf_nr_running_0_iff [OF ok(1)] highest_prio_100_iff [of ?r] hp
    by (simp add: MAX_RT_PRIO_100)
  moreover have "\<exists>i<100. highest_prio ?r = int i \<and> rt_queue ?r i \<noteq> [] \<and> (\<forall>j<i. rt_queue ?r j = [])"
    if ne: "rt_nr_running ?r \<noteq> 0"
  proof -
    obtain i where i: "i < 100" "highest_prio ?r = int i" "rt_queue ?r i \<noteq> []"
      using highest_prio_range [OF ok(1) ne] .
    moreover have "rt_queue ?r j = []" if "j < i" for j
    proof (rule ccontr)
      assume "rt_queue ?r j \<noteq> []"
      with hp that i(1) have "highest_prio ?r \<le> int j" by (simp add: highest_ok_def)
      with i(2) that show False by simp
    qed
    ultimately show ?thesis by blast
  qed
  moreover have "rt_link_ok s g" if "g \<noteq> []"
    using inv assms(3) that by (simp add: rt_inv_ex_def groups_of_def)
  moreover have "unat (rt_nr_running ?r) = (\<Sum>i<100. length (rt_queue ?r i))"
  proof -
    have "unat (rt_nr_running ?r) = rt_len ?r" using ok(1) by (simp add: rq_wf_def unat_of_nat)
    then show ?thesis by (simp add: rt_len_def rt_slots_def)
  qed
  ultimately show ?thesis using ok(1) by (simp add: rq_wf_def rt_link_ok_def)
qed

theorem rt_run_queues_consistent_witness:
  "on_rt_rq ex_rt (RtGroup [7]) \<longleftrightarrow> rt_nr_running (rt_rqs ex_rt [7]) \<noteq> 0 \<and> \<not> rt_rq_throttled [7] ex_rt"
  using rt_run_queues_consistent [OF ex_rt_reachable ex_first_bit_ok, of "[7]"]
  by (simp add: groups_of_def ex_rt_U_def)

section \<open>The task picked\<close>

text \<open>
  C5. The pick of the real-time class always returns. It returns no task exactly when no
  queued task is free of throttled groups, and leaves the state alone; otherwise it returns
  a runnable task at the head of its list, no runnable task has a higher priority, and only
  the task's start of execution is set.
\<close>

theorem pick_next_task_rt_highest:
  assumes "rt_reachable env U s" "find_first_bit_ok env"
  shows "if rt_runnables U s = {} then pick_next_task_rt env s = Some (None, s)
    else \<exists>p es. pick_next_task_rt env s =
             Some (Some p, upd_se p (\<lambda>e. e\<lparr>exec_start := clock_task (rq s)\<rparr>) s) \<and>
           p \<in> rt_runnables U s \<and> (\<forall>q\<in>rt_runnables U s. prio (task s p) \<le> prio (task s q)) \<and>
           rt_queue (rt_rqs s (rt_rq_of (rt (task s p)))) (nat (prio (task s p))) = RtTask p # es"
proof -
  have inv: "rt_inv U s" using rt_reachable_inv [OF assms] by (simp add: rt_class_inv_def)
  show ?thesis
  proof (cases rule: pick_next_task_rt_cases [OF inv assms(2)])
    case 1
    then show ?thesis by (auto simp: rt_runnables_def)
  next
    case (2 p es)
    then have p: "p \<in> rt_runnables U s" by (simp add: rt_runnables_def)
    have "\<forall>q\<in>rt_runnables U s. prio (task s p) \<le> prio (task s q)"
      using 2(4) by (simp add: rt_runnables_def)
    with p 2(1,5) have "\<exists>p es. pick_next_task_rt env s =
             Some (Some p, upd_se p (\<lambda>e. e\<lparr>exec_start := clock_task (rq s)\<rparr>) s) \<and>
           p \<in> rt_runnables U s \<and> (\<forall>q\<in>rt_runnables U s. prio (task s p) \<le> prio (task s q)) \<and>
           rt_queue (rt_rqs s (rt_rq_of (rt (task s p)))) (nat (prio (task s p))) = RtTask p # es"
      by blast
    moreover have "rt_runnables U s \<noteq> {}" using p by blast
    ultimately show ?thesis by (simp only: if_False)
  qed
qed

theorem pick_next_task_rt_highest_witness:
  "\<exists>p s'. pick_next_task_rt ex_env ex_rt = Some (Some p, s') \<and> p \<in> rt_runnables ex_rt_U ex_rt"
proof -
  have "2 \<in> rt_runnables ex_rt_U ex_rt"
    using ex_rt_budget(1,3)
    by (simp add: rt_runnables_def rt_runnable_def ex_rt_U_def rt_rq_throttled_def ex_path_groups)
  then have ne: "rt_runnables ex_rt_U ex_rt \<noteq> {}" by blast
  show ?thesis
    using pick_next_task_rt_highest [OF ex_rt_reachable ex_first_bit_ok, unfolded if_not_P [OF ne]]
    by blast
qed

section \<open>Throttling\<close>





section \<open>Round robin\<close>



end
