(* ===== verification/Sched_Core.thy ===== *)
theory Sched_Core
  imports Wrr Rt Load_Avg "HOL-Library.Monad_Syntax"
begin

text \<open>
  The scheduler core, \<^verbatim>\<open>sched/core.c\<close>, for one processor: clocks, queueing through
  the scheduling classes, wake-ups, forks, the context switch, the tick and the main
  scheduling function.

  The classes \<^verbatim>\<open>rt\<close> and \<^verbatim>\<open>wrr\<close> are those of the repository. The classes
  \<^verbatim>\<open>stop\<close>, \<^verbatim>\<open>fair\<close> and \<^verbatim>\<open>idle\<close> are not part of it; they are the
  record \<open>ext_classes\<close>. The functions of the core take the table of all five as an argument.
  The running task, \<^verbatim>\<open>current\<close>, is the task the run queue names. Function names with
  a leading double underscore end in \<open>1\<close> here.
\<close>

section \<open>Classes\<close>

type_synonym 's class_table = "sched_class_id \<Rightarrow> 's sched_class_ops"

record 's ext_classes =
  stop_class_ops :: "'s sched_class_ops"
  fair_class_ops :: "'s sched_class_ops"
  idle_class_ops :: "'s sched_class_ops"

fun class_table ::
  "kenv \<Rightarrow> 'a ksys_scheme ext_classes \<Rightarrow> 'a ksys_scheme class_table" where
  "class_table env X stop_sched_class = stop_class_ops X"
| "class_table env X rt_sched_class = rt_sched_class_ops env"
| "class_table env X wrr_sched_class = wrr_sched_class_ops env"
| "class_table env X fair_sched_class = fair_class_ops X"
| "class_table env X idle_sched_class = idle_class_ops X"

definition sched_class_highest :: sched_class_id where
  "sched_class_highest = stop_sched_class"

text \<open>The operations of the class of a task.\<close>

abbreviation class_of ::
  "'a ksys_scheme class_table \<Rightarrow> tid \<Rightarrow> 'a ksys_scheme \<Rightarrow> 'a ksys_scheme sched_class_ops" where
  "class_of C p s \<equiv> C (sched_class (task s p))"

section \<open>Clock and weights\<close>

definition update_rq_clock_task :: "u64 \<Rightarrow> 'a ksys_scheme \<Rightarrow> 'a ksys_scheme" where
  "update_rq_clock_task delta = upd_rq (\<lambda>r. r\<lparr>clock_task := clock_task r + delta\<rparr>)"

definition update_rq_clock :: "'a ksys_scheme \<Rightarrow> 'a ksys_scheme" where
  "update_rq_clock s =
     (if skip_clock_update (rq s) > 0 then s
      else
        let delta = sclock s - rq_clock (rq s);
            s = upd_rq (\<lambda>r. r\<lparr>rq_clock := rq_clock r + delta\<rparr>) s
        in update_rq_clock_task delta s)"

definition WEIGHT_IDLEPRIO :: ulong where "WEIGHT_IDLEPRIO = 3"
definition WMULT_IDLEPRIO :: ulong where "WMULT_IDLEPRIO = 1431655765"

definition prio_to_weight :: "ulong list" where
  "prio_to_weight =
     [88761, 71755, 56483, 46273, 36291,
      29154, 23254, 18705, 14949, 11916,
      9548, 7620, 6100, 4904, 3906,
      3121, 2501, 1991, 1586, 1277,
      1024, 820, 655, 526, 423,
      335, 272, 215, 172, 137,
      110, 87, 70, 56, 45,
      36, 29, 23, 18, 15]"

definition prio_to_wmult :: "ulong list" where
  "prio_to_wmult =
     [48388, 59856, 76040, 92818, 118348,
      147320, 184698, 229616, 287308, 360437,
      449829, 563644, 704093, 875809, 1099582,
      1376151, 1717300, 2157191, 2708050, 3363326,
      4194304, 5237765, 6557202, 8165337, 10153587,
      12820798, 15790321, 19976592, 24970740, 31350126,
      39045157, 49367440, 61356676, 76695844, 95443717,
      119304647, 148102320, 186737708, 238609294, 286331153]"

text \<open>
  \<^verbatim>\<open>scale_load\<close> is the identity on 32-bit machines. The tables have an entry for every
  static priority from 100 to 139; outside that range the read is out of bounds.
\<close>

definition set_load_weight :: "tid \<Rightarrow> 'a ksys_scheme \<Rightarrow> 'a ksys_scheme" where
  "set_load_weight p s =
     (let pr = static_prio (task s p) - MAX_RT_PRIO in
      if policy (task s p) = SCHED_IDLE
      then upd_se p (\<lambda>e. e\<lparr>se_load := \<lparr>lw_weight = WEIGHT_IDLEPRIO, lw_inv_weight = WMULT_IDLEPRIO\<rparr>\<rparr>) s
      else upd_se p (\<lambda>e. e\<lparr>se_load := \<lparr>lw_weight = prio_to_weight ! nat pr,
                                       lw_inv_weight = prio_to_wmult ! nat pr\<rparr>\<rparr>) s)"

section \<open>Queueing\<close>

definition PF_FROZEN :: u32 where "PF_FROZEN = 0x00010000"
definition PF_WQ_WORKER :: u32 where "PF_WQ_WORKER = 0x00000020"

definition task_contributes_to_load :: "task_struct \<Rightarrow> bool" where
  "task_contributes_to_load t =
     (t_state t AND TASK_UNINTERRUPTIBLE \<noteq> 0 \<and> t_flags t AND PF_FROZEN = 0)"

definition enqueue_task ::
  "'a ksys_scheme class_table \<Rightarrow> tid \<Rightarrow> u32 \<Rightarrow> 'a ksys_scheme \<Rightarrow> 'a ksys_scheme" where
  "enqueue_task C p flags s =
     (let s = update_rq_clock s;
          s = emit (SchedInfoQueued p) s
      in enqueue_task_op (class_of C p s) p flags s)"

definition dequeue_task ::
  "'a ksys_scheme class_table \<Rightarrow> tid \<Rightarrow> u32 \<Rightarrow> 'a ksys_scheme \<Rightarrow> 'a ksys_scheme" where
  "dequeue_task C p flags s =
     (let s = update_rq_clock s;
          s = emit (SchedInfoDequeued p) s
      in dequeue_task_op (class_of C p s) p flags s)"

definition activate_task ::
  "'a ksys_scheme class_table \<Rightarrow> tid \<Rightarrow> u32 \<Rightarrow> 'a ksys_scheme \<Rightarrow> 'a ksys_scheme" where
  "activate_task C p flags s =
     (let s = (if task_contributes_to_load (task s p)
               then upd_rq (\<lambda>r. r\<lparr>nr_uninterruptible := nr_uninterruptible r - 1\<rparr>) s else s)
      in enqueue_task C p flags s)"

definition deactivate_task ::
  "'a ksys_scheme class_table \<Rightarrow> tid \<Rightarrow> u32 \<Rightarrow> 'a ksys_scheme \<Rightarrow> 'a ksys_scheme" where
  "deactivate_task C p flags s =
     (let s = (if task_contributes_to_load (task s p)
               then upd_rq (\<lambda>r. r\<lparr>nr_uninterruptible := nr_uninterruptible r + 1\<rparr>) s else s)
      in dequeue_task C p flags s)"

section \<open>Priorities\<close>

definition normal_prio1 :: "task_struct \<Rightarrow> int" where
  "normal_prio1 t = static_prio t"

definition normal_prio_of :: "task_struct \<Rightarrow> int" where
  "normal_prio_of t =
     (if task_has_rt_policy t then MAX_RT_PRIO - 1 - rt_priority t else normal_prio1 t)"

definition effective_prio :: "tid \<Rightarrow> 'a ksys_scheme \<Rightarrow> int \<times> 'a ksys_scheme" where
  "effective_prio p s =
     (let s = upd_task p (\<lambda>t. t\<lparr>normal_prio := normal_prio_of t\<rparr>) s in
      if \<not> rt_prio (prio (task s p)) then (normal_prio (task s p), s) else (prio (task s p), s))"

definition task_curr :: "tid \<Rightarrow> 'a ksys_scheme \<Rightarrow> bool" where
  "task_curr p s = (curr (rq s) = p)"

definition check_class_changed ::
  "'a ksys_scheme class_table \<Rightarrow> tid \<Rightarrow> sched_class_id \<Rightarrow> int \<Rightarrow> 'a ksys_scheme \<Rightarrow> 'a ksys_scheme" where
  "check_class_changed C p prev_class oldprio s =
     (if prev_class \<noteq> sched_class (task s p) then
        let s = (case switched_from_op (C prev_class) of None \<Rightarrow> s | Some f \<Rightarrow> f p s)
        in switched_to_op (class_of C p s) p s
      else if oldprio \<noteq> prio (task s p) then prio_changed_op (class_of C p s) p oldprio s
      else s)"

text \<open>
  The loop of \<^verbatim>\<open>check_preempt_curr\<close> over the classes from \<open>c\<close> on: does the class of
  the woken task come before the class of the running one? A chain of classes that does not
  end has no value.
\<close>

partial_function (option) class_before ::
  "'s class_table \<Rightarrow> sched_class_id \<Rightarrow> sched_class_id \<Rightarrow> sched_class_id \<Rightarrow> bool option" where
  "class_before C c running woken =
     (if c = running then Some False
      else if c = woken then Some True
      else case cls_next (C c) of None \<Rightarrow> Some False | Some d \<Rightarrow> class_before C d running woken)"

definition check_preempt_curr ::
  "'a ksys_scheme class_table \<Rightarrow> tid \<Rightarrow> u32 \<Rightarrow> 'a ksys_scheme \<Rightarrow> 'a ksys_scheme option" where
  "check_preempt_curr C p flags s =
     (let c = curr (rq s) in
      map_option
        (\<lambda>s. if on_rq (task s (curr (rq s))) \<and> test_tsk_need_resched s (curr (rq s))
              then upd_rq (\<lambda>r. r\<lparr>skip_clock_update := 1\<rparr>) s else s)
        (if sched_class (task s p) = sched_class (task s c)
         then Some (check_preempt_curr_op (class_of C c s) p flags s)
         else map_option (\<lambda>b. if b then resched_task c s else s)
                (class_before C sched_class_highest (sched_class (task s c)) (sched_class (task s p)))))"

section \<open>Wake-ups\<close>

definition WF_SYNC :: u32 where "WF_SYNC = 0x01"
definition WF_FORK :: u32 where "WF_FORK = 0x02"

text \<open>\<^verbatim>\<open>ENQUEUE_WAKING\<close> is 0 on one processor.\<close>

definition ENQUEUE_WAKING :: u32 where "ENQUEUE_WAKING = 0"

definition ttwu_stat :: "tid \<Rightarrow> u32 \<Rightarrow> 'a ksys_scheme \<Rightarrow> 'a ksys_scheme" where
  "ttwu_stat p wake_flags s =
     (let s = upd_rq (\<lambda>r. r\<lparr>ttwu_count := ttwu_count r + 1\<rparr>) s;
          s = upd_se p (\<lambda>e. e\<lparr>nr_wakeups := nr_wakeups e + 1\<rparr>) s
      in if wake_flags AND WF_SYNC \<noteq> 0
         then upd_se p (\<lambda>e. e\<lparr>nr_wakeups_sync := nr_wakeups_sync e + 1\<rparr>) s else s)"

definition ttwu_activate ::
  "'a ksys_scheme class_table \<Rightarrow> tid \<Rightarrow> u32 \<Rightarrow> 'a ksys_scheme \<Rightarrow> 'a ksys_scheme" where
  "ttwu_activate C p en_flags s =
     (let s = activate_task C p en_flags s;
          s = upd_task p (\<lambda>t. t\<lparr>on_rq := True\<rparr>) s
      in if t_flags (task s p) AND PF_WQ_WORKER \<noteq> 0 then emit (WqWorkerWakingUp p) s else s)"

definition ttwu_do_wakeup ::
  "'a ksys_scheme class_table \<Rightarrow> tid \<Rightarrow> u32 \<Rightarrow> 'a ksys_scheme \<Rightarrow> 'a ksys_scheme option" where
  "ttwu_do_wakeup C p wake_flags s =
     map_option (upd_task p (\<lambda>t. t\<lparr>t_state := TASK_RUNNING\<rparr>)) (check_preempt_curr C p wake_flags s)"

definition ttwu_do_activate ::
  "'a ksys_scheme class_table \<Rightarrow> tid \<Rightarrow> u32 \<Rightarrow> 'a ksys_scheme \<Rightarrow> 'a ksys_scheme option" where
  "ttwu_do_activate C p wake_flags s =
     ttwu_do_wakeup C p wake_flags (ttwu_activate C p (ENQUEUE_WAKEUP OR ENQUEUE_WAKING) s)"

definition ttwu_remote ::
  "'a ksys_scheme class_table \<Rightarrow> tid \<Rightarrow> u32 \<Rightarrow> 'a ksys_scheme \<Rightarrow> (bool \<times> 'a ksys_scheme) option" where
  "ttwu_remote C p wake_flags s =
     (if on_rq (task s p) then map_option (Pair True) (ttwu_do_wakeup C p wake_flags s)
      else Some (False, s))"

definition ttwu_queue ::
  "'a ksys_scheme class_table \<Rightarrow> tid \<Rightarrow> 'a ksys_scheme \<Rightarrow> 'a ksys_scheme option" where
  "ttwu_queue C p s = ttwu_do_activate C p 0 s"

definition try_to_wake_up ::
  "'a ksys_scheme class_table \<Rightarrow> tid \<Rightarrow> ulong \<Rightarrow> u32 \<Rightarrow> 'a ksys_scheme \<Rightarrow>
     (bool \<times> 'a ksys_scheme) option" where
  "try_to_wake_up C p state wake_flags s =
     (if t_state (task s p) AND state = 0 then Some (False, s)
      else do {
        (done, s) \<leftarrow> (if on_rq (task s p) then ttwu_remote C p wake_flags s else Some (False, s));
        s \<leftarrow> (if done then Some s else ttwu_queue C p s);
        Some (True, ttwu_stat p wake_flags s)
      })"

definition try_to_wake_up_local ::
  "'a ksys_scheme class_table \<Rightarrow> tid \<Rightarrow> 'a ksys_scheme \<Rightarrow> 'a ksys_scheme option" where
  "try_to_wake_up_local C p s =
     (if p = curr (rq s) then Some s
      else if t_state (task s p) AND TASK_NORMAL = 0 then Some s
      else
        let s = (if \<not> on_rq (task s p) then ttwu_activate C p ENQUEUE_WAKEUP s else s)
        in map_option (ttwu_stat p 0) (ttwu_do_wakeup C p 0 s))"

definition wake_up_process ::
  "'a ksys_scheme class_table \<Rightarrow> tid \<Rightarrow> 'a ksys_scheme \<Rightarrow> (bool \<times> 'a ksys_scheme) option" where
  "wake_up_process C p s = try_to_wake_up C p TASK_NORMAL 0 s"

definition wake_up_state ::
  "'a ksys_scheme class_table \<Rightarrow> tid \<Rightarrow> ulong \<Rightarrow> 'a ksys_scheme \<Rightarrow> (bool \<times> 'a ksys_scheme) option" where
  "wake_up_state C p state s = try_to_wake_up C p state 0 s"

section \<open>Fork\<close>

text \<open>
  The task structure of the child is a copy of its parent's when \<^verbatim>\<open>sched_fork\<close> gets it. The
  list heads of a new task are initialised: it is on no queue. Without \<^verbatim>\<open>CONFIG_SMP\<close>
  \<^verbatim>\<open>set_task_cpu\<close> does nothing.
\<close>

definition sched_fork1 :: "tid \<Rightarrow> 'a ksys_scheme \<Rightarrow> 'a ksys_scheme" where
  "sched_fork1 p s =
     (let s = upd_task p (\<lambda>t. t\<lparr>on_rq := False\<rparr>) s
      in upd_se p (\<lambda>e. e\<lparr>se_on_rq := False, exec_start := 0, sum_exec_runtime := 0,
                           prev_sum_exec_runtime := 0, nr_migrations := 0, vruntime := 0,
                           exec_max := 0, nr_wakeups := 0, nr_wakeups_sync := 0\<rparr>) s)"

definition sched_fork ::
  "'a ksys_scheme class_table \<Rightarrow> tid \<Rightarrow> 'a ksys_scheme \<Rightarrow> 'a ksys_scheme" where
  "sched_fork C p s =
     (let s = sched_fork1 p s;
          s = upd_task p (\<lambda>t. t\<lparr>t_state := TASK_RUNNING\<rparr>) s;
          s = upd_task p (\<lambda>t. t\<lparr>prio := normal_prio (task s (curr (rq s)))\<rparr>) s;
          s = (if sched_reset_on_fork (task s p) then
                 let s = (if task_has_rt_policy (task s p)
                          then upd_task p (\<lambda>t. t\<lparr>policy := SCHED_NORMAL, static_prio := NICE_TO_PRIO 0,
                                                  rt_priority := 0\<rparr>) s
                          else if PRIO_TO_NICE (static_prio (task s p)) < 0
                          then upd_task p (\<lambda>t. t\<lparr>static_prio := NICE_TO_PRIO 0\<rparr>) s
                          else s);
                     s = upd_task p (\<lambda>t. t\<lparr>normal_prio := normal_prio1 t, prio := normal_prio1 t\<rparr>) s;
                     s = set_load_weight p s
                 in upd_task p (\<lambda>t. t\<lparr>sched_reset_on_fork := False\<rparr>) s
               else s);
          s = (if \<not> rt_prio (prio (task s p))
               then upd_task p (\<lambda>t. t\<lparr>sched_class := fair_sched_class\<rparr>) s else s)
      in case task_fork_op (class_of C p s) of None \<Rightarrow> s | Some f \<Rightarrow> f p s)"

definition wake_up_new_task ::
  "'a ksys_scheme class_table \<Rightarrow> tid \<Rightarrow> 'a ksys_scheme \<Rightarrow> 'a ksys_scheme option" where
  "wake_up_new_task C p s =
     (let s = activate_task C p 0 s;
          s = upd_task p (\<lambda>t. t\<lparr>on_rq := True\<rparr>) s
      in check_preempt_curr C p WF_FORK s)"

section \<open>Context switch\<close>

definition prepare_task_switch :: "tid \<Rightarrow> tid \<Rightarrow> 'a ksys_scheme \<Rightarrow> 'a ksys_scheme" where
  "prepare_task_switch prev next s =
     emit (PerfEventTaskSched prev next) (emit (SchedInfoSwitch prev next) s)"

definition finish_task_switch :: "tid \<Rightarrow> 'a ksys_scheme \<Rightarrow> 'a ksys_scheme" where
  "finish_task_switch prev s =
     (let mm = prev_mm (rq s);
          s = upd_rq (\<lambda>r. r\<lparr>prev_mm := None\<rparr>) s;
          prev_state = t_state (task s prev);
          s = emit (PerfEventTaskSched prev (curr (rq s))) s;
          s = (case mm of None \<Rightarrow> s | Some m \<Rightarrow> emit (MmDrop m) s)
      in if prev_state = TASK_DEAD
         then emit (PutTaskStruct prev) (emit (KprobeFlushTask prev) s) else s)"

text \<open>
  The part before the switch of the stacks runs as \<open>prev\<close>, the call of
  \<^verbatim>\<open>finish_task_switch\<close> after it as \<open>next\<close>, for which \<open>prev\<close> is the task it took over from.
\<close>

definition context_switch :: "tid \<Rightarrow> tid \<Rightarrow> 'a ksys_scheme \<Rightarrow> 'a ksys_scheme" where
  "context_switch prev next s =
     (let s = prepare_task_switch prev next s;
          mm = t_mm (task s next);
          oldmm = active_mm (task s prev);
          s = (case mm of
                 None \<Rightarrow>
                   (let s = upd_task next (\<lambda>t. t\<lparr>active_mm := oldmm\<rparr>) s;
                        s = emit (MmGrab oldmm) s
                    in emit (EnterLazyTlb oldmm next) s)
               | Some m \<Rightarrow> emit (SwitchMm oldmm (Some m) next) s);
          s = (if t_mm (task s prev) = None
               then upd_rq (\<lambda>r. r\<lparr>prev_mm := oldmm\<rparr>) (upd_task prev (\<lambda>t. t\<lparr>active_mm := None\<rparr>) s)
               else s);
          s = emit (SwitchTo prev next) s
      in finish_task_switch prev s)"

definition schedule_tail :: "tid \<Rightarrow> 'a ksys_scheme \<Rightarrow> 'a ksys_scheme" where
  "schedule_tail prev s = finish_task_switch prev s"

section \<open>The main scheduler\<close>

definition signal_pending_state :: "kenv \<Rightarrow> ulong \<Rightarrow> tid \<Rightarrow> bool" where
  "signal_pending_state env state p =
     (if state AND (TASK_INTERRUPTIBLE OR TASK_WAKEKILL) = 0 then False
      else if \<not> signal_pending env p then False
      else state AND TASK_INTERRUPTIBLE \<noteq> 0 \<or> fatal_signal_pending env p)"

definition schedule_debug :: "'a ksys_scheme \<Rightarrow> 'a ksys_scheme" where
  "schedule_debug = upd_rq (\<lambda>r. r\<lparr>sched_count := sched_count r + 1\<rparr>)"

definition put_prev_task ::
  "'a ksys_scheme class_table \<Rightarrow> tid \<Rightarrow> 'a ksys_scheme \<Rightarrow> 'a ksys_scheme" where
  "put_prev_task C prev s =
     (let s = (if on_rq (task s prev) \<or> skip_clock_update (rq s) < 0 then update_rq_clock s else s)
      in put_prev_task_op (class_of C prev s) prev s)"

text \<open>
  The loop of \<^verbatim>\<open>pick_next_task\<close> over the classes from \<open>c\<close> on; \<open>None\<close> is the
  \<^verbatim>\<open>BUG\<close> at its end, a failure of a class, or a chain of classes that does not end.
\<close>

partial_function (option) pick_classes ::
  "'s class_table \<Rightarrow> sched_class_id \<Rightarrow> 's \<Rightarrow> (tid \<times> 's) option" where
  "pick_classes C c s =
     (case pick_next_task_op (C c) s of
        None \<Rightarrow> None
      | Some (r, s) \<Rightarrow>
          (case r of
             Some p \<Rightarrow> Some (p, s)
           | None \<Rightarrow> (case cls_next (C c) of None \<Rightarrow> None | Some d \<Rightarrow> pick_classes C d s)))"

definition pick_next_task ::
  "'a ksys_scheme class_table \<Rightarrow> 'a ksys_scheme \<Rightarrow> (tid \<times> 'a ksys_scheme) option" where
  "pick_next_task C s =
     (if nr_running (rq s) = cfs_h_nr_running (rq s) then
        case pick_next_task_op (C fair_sched_class) s of
          None \<Rightarrow> None
        | Some (r, s) \<Rightarrow>
            (case r of Some p \<Rightarrow> Some (p, s) | None \<Rightarrow> pick_classes C sched_class_highest s)
      else pick_classes C sched_class_highest s)"

text \<open>
  One round of \<^verbatim>\<open>__schedule\<close>: the running task leaves its queue when it went to sleep,
  the next task is picked, and the processor is switched to it. The high-resolution tick is
  not used. The round is repeated when the task that runs after it is to be rescheduled.
\<close>

definition deactivate_prev ::
  "kenv \<Rightarrow> 'a ksys_scheme class_table \<Rightarrow> tid \<Rightarrow> 'a ksys_scheme \<Rightarrow> 'a ksys_scheme option" where
  "deactivate_prev env C prev s =
     (let s = deactivate_task C prev DEQUEUE_SLEEP s;
          s = upd_task prev (\<lambda>t. t\<lparr>on_rq := False\<rparr>) s
      in if t_flags (task s prev) AND PF_WQ_WORKER \<noteq> 0 then
           (case wq_worker_sleeping env prev of
              None \<Rightarrow> Some s
            | Some to_wakeup \<Rightarrow> try_to_wake_up_local C to_wakeup s)
         else Some s)"

definition schedule_round ::
  "kenv \<Rightarrow> 'a ksys_scheme class_table \<Rightarrow> 'a ksys_scheme \<Rightarrow> 'a ksys_scheme option" where
  "schedule_round env C s =
     (let prev = curr (rq s);
          s = schedule_debug s;
          sleeps = (t_state (task s prev) \<noteq> 0 \<and> \<not> preempt_active env prev)
      in do {
        s \<leftarrow> (if sleeps then
                 (if signal_pending_state env (t_state (task s prev)) prev
                  then Some (upd_task prev (\<lambda>t. t\<lparr>t_state := TASK_RUNNING\<rparr>) s)
                  else deactivate_prev env C prev s)
               else Some s);
        (next, s) \<leftarrow> pick_next_task C (put_prev_task C prev s);
        let s = clear_tsk_need_resched prev s;
        let s = upd_rq (\<lambda>r. r\<lparr>skip_clock_update := 0\<rparr>) s;
        Some (if prev \<noteq> next then
                let s = upd_rq (\<lambda>r. r\<lparr>nr_switches := nr_switches r + 1, curr := next\<rparr>) s;
                    s = (if sleeps then upd_task prev (\<lambda>t. t\<lparr>nvcsw := nvcsw t + 1\<rparr>) s
                         else upd_task prev (\<lambda>t. t\<lparr>nivcsw := nivcsw t + 1\<rparr>) s)
                in context_switch prev next s
              else s)
      })"

partial_function (option) schedule1 ::
  "kenv \<Rightarrow> 'a ksys_scheme class_table \<Rightarrow> 'a ksys_scheme \<Rightarrow> 'a ksys_scheme option" where
  "schedule1 env C s =
     (case schedule_round env C s of
        None \<Rightarrow> None
      | Some s \<Rightarrow> if test_tsk_need_resched s (curr (rq s)) then schedule1 env C s else Some s)"

definition sched_submit_work :: "kenv \<Rightarrow> tid \<Rightarrow> 'a ksys_scheme \<Rightarrow> 'a ksys_scheme" where
  "sched_submit_work env p s =
     (if t_state (task s p) = 0 \<or> pi_blocked env p then s
      else if blk_needs_flush_plug env p then emit (BlkFlushPlug p) s
      else s)"

definition schedule ::
  "kenv \<Rightarrow> 'a ksys_scheme class_table \<Rightarrow> 'a ksys_scheme \<Rightarrow> 'a ksys_scheme option" where
  "schedule env C s = schedule1 env C (sched_submit_work env (curr (rq s)) s)"

text \<open>
  The entry from kernel preemption: nothing happens while preemption or interrupts are off
  (\<open>off\<close>); otherwise the running task is preempted with \<^verbatim>\<open>PREEMPT_ACTIVE\<close> set.
\<close>

definition preempting :: "tid \<Rightarrow> kenv \<Rightarrow> kenv" where
  "preempting p env = env\<lparr>preempt_active := (preempt_active env)(p := True)\<rparr>"

partial_function (option) preempt_loop ::
  "kenv \<Rightarrow> 'a ksys_scheme class_table \<Rightarrow> 'a ksys_scheme \<Rightarrow> 'a ksys_scheme option" where
  "preempt_loop env C s =
     (case schedule1 (preempting (curr (rq s)) env) C s of
        None \<Rightarrow> None
      | Some s \<Rightarrow> if test_tsk_need_resched s (curr (rq s)) then preempt_loop env C s else Some s)"

definition preempt_schedule ::
  "kenv \<Rightarrow> 'a ksys_scheme class_table \<Rightarrow> bool \<Rightarrow> 'a ksys_scheme \<Rightarrow> 'a ksys_scheme option" where
  "preempt_schedule env C off s = (if off then Some s else preempt_loop env C s)"

section \<open>Execution time and the tick\<close>

definition do_task_delta_exec :: "tid \<Rightarrow> 'a ksys_scheme \<Rightarrow> u64 \<times> 'a ksys_scheme" where
  "do_task_delta_exec p s =
     (if task_current s p then
        let s = update_rq_clock s;
            ns = clock_task (rq s) - exec_start (se (task s p))
        in (if ns <s 0 then 0 else ns, s)
      else (0, s))"

definition task_delta_exec :: "tid \<Rightarrow> 'a ksys_scheme \<Rightarrow> u64 \<times> 'a ksys_scheme" where
  "task_delta_exec p s = do_task_delta_exec p s"

definition task_sched_runtime :: "tid \<Rightarrow> 'a ksys_scheme \<Rightarrow> u64 \<times> 'a ksys_scheme" where
  "task_sched_runtime p s =
     (case do_task_delta_exec p s of (ns, s') \<Rightarrow> (sum_exec_runtime (se (task s p)) + ns, s'))"

text \<open>
  The group path that \<^verbatim>\<open>scheduler_tick\<close> computes for a task of policy
  \<^verbatim>\<open>SCHED_WRR\<close> is only printed.
\<close>

definition scheduler_tick ::
  "kenv \<Rightarrow> 'a ksys_scheme class_table \<Rightarrow> 'a ksys_scheme \<Rightarrow> 'a ksys_scheme option" where
  "scheduler_tick env C s =
     (let c = curr (rq s);
          s = emit SchedClockTick s;
          s = update_rq_clock s
      in do {
        s \<leftarrow> update_cpu_load_active env s;
        let s = task_tick_op (class_of C c s) c s;
        Some (emit PerfEventTaskTick s)
      })"

section \<open>Yielding and sleeping\<close>

definition sys_sched_yield ::
  "kenv \<Rightarrow> 'a ksys_scheme class_table \<Rightarrow> 'a ksys_scheme \<Rightarrow> 'a ksys_scheme option" where
  "sys_sched_yield env C s =
     (let s = upd_rq (\<lambda>r. r\<lparr>yld_count := yld_count r + 1\<rparr>) s;
          s = yield_task_op (class_of C (curr (rq s)) s) s
      in schedule env C s)"

definition should_resched :: "kenv \<Rightarrow> 'a ksys_scheme \<Rightarrow> bool" where
  "should_resched env s = (test_tsk_need_resched s (curr (rq s)) \<and> \<not> preempt_active env (curr (rq s)))"

definition cond_resched1 ::
  "kenv \<Rightarrow> 'a ksys_scheme class_table \<Rightarrow> 'a ksys_scheme \<Rightarrow> 'a ksys_scheme option" where
  "cond_resched1 env C s = schedule1 (preempting (curr (rq s)) env) C s"

definition cond_resched ::
  "kenv \<Rightarrow> 'a ksys_scheme class_table \<Rightarrow> 'a ksys_scheme \<Rightarrow> (bool \<times> 'a ksys_scheme) option" where
  "cond_resched env C s =
     (if should_resched env s then map_option (Pair True) (cond_resched1 env C s)
      else Some (False, s))"

definition yield ::
  "kenv \<Rightarrow> 'a ksys_scheme class_table \<Rightarrow> 'a ksys_scheme \<Rightarrow> 'a ksys_scheme option" where
  "yield env C s =
     sys_sched_yield env C (upd_task (curr (rq s)) (\<lambda>t. t\<lparr>t_state := TASK_RUNNING\<rparr>) s)"

text \<open>
  \<^verbatim>\<open>io_schedule\<close> up to the switch, and what the task does when it runs again: the two
  halves are apart in time, with other tasks running in between.
\<close>

definition io_schedule_begin :: "'a ksys_scheme \<Rightarrow> 'a ksys_scheme" where
  "io_schedule_begin s =
     (let c = curr (rq s);
          s = emit (DelayacctBlkio True) s;
          s = upd_rq (\<lambda>r. r\<lparr>nr_iowait := nr_iowait r + 1\<rparr>) s;
          s = emit (BlkFlushPlug c) s
      in upd_task c (\<lambda>t. t\<lparr>in_iowait := True\<rparr>) s)"

definition io_schedule_end :: "'a ksys_scheme \<Rightarrow> 'a ksys_scheme" where
  "io_schedule_end s =
     (let s = upd_task (curr (rq s)) (\<lambda>t. t\<lparr>in_iowait := False\<rparr>) s;
          s = upd_rq (\<lambda>r. r\<lparr>nr_iowait := nr_iowait r - 1\<rparr>) s
      in emit (DelayacctBlkio False) s)"

definition io_schedule_out ::
  "kenv \<Rightarrow> 'a ksys_scheme class_table \<Rightarrow> 'a ksys_scheme \<Rightarrow> 'a ksys_scheme option" where
  "io_schedule_out env C s = schedule env C (io_schedule_begin s)"

definition idle_cpu :: "'a ksys_scheme \<Rightarrow> bool" where
  "idle_cpu s =
     (if curr (rq s) \<noteq> idle (rq s) then False else if nr_running (rq s) \<noteq> 0 then False else True)"

definition idle_task :: "'a ksys_scheme \<Rightarrow> tid" where
  "idle_task s = idle (rq s)"

section \<open>Projections\<close>

lemma update_rq_clock_proj [simp]:
  "task (update_rq_clock s) = task s" "rt_rqs (update_rq_clock s) = rt_rqs s"
  "rt_bws (update_rq_clock s) = rt_bws s" "cpuusage (update_rq_clock s) = cpuusage s"
  "jiffies (update_rq_clock s) = jiffies s" "sclock (update_rq_clock s) = sclock s"
  "sysctl_sched_rt_period (update_rq_clock s) = sysctl_sched_rt_period s"
  "sysctl_sched_rt_runtime (update_rq_clock s) = sysctl_sched_rt_runtime s"
  "events (update_rq_clock s) = events s"
  "nr_running (rq (update_rq_clock s)) = nr_running (rq s)"
  "cfs_h_nr_running (rq (update_rq_clock s)) = cfs_h_nr_running (rq s)"
  "wrr_rq_of (rq (update_rq_clock s)) = wrr_rq_of (rq s)"
  "leaf_rt_rq_list (rq (update_rq_clock s)) = leaf_rt_rq_list (rq s)"
  "curr (rq (update_rq_clock s)) = curr (rq s)" "idle (rq (update_rq_clock s)) = idle (rq s)"
  "stop (rq (update_rq_clock s)) = stop (rq s)"
  "skip_clock_update (rq (update_rq_clock s)) = skip_clock_update (rq s)"
  "nr_uninterruptible (rq (update_rq_clock s)) = nr_uninterruptible (rq s)"
  "prev_mm (rq (update_rq_clock s)) = prev_mm (rq s)"
  by (simp_all add: update_rq_clock_def update_rq_clock_task_def Let_def)

end
