(* ===== verification/Sched_Syscalls.thy ===== *)
theory Sched_Syscalls
  imports Sched_Core
begin

text \<open>
  Changing and reading the scheduling parameters of tasks: nice values, policies and
  priorities, priority inheritance, and the system calls of \<^verbatim>\<open>sched/core.c\<close>.

  Each function runs to its end before another one starts, so the test of
  \<^verbatim>\<open>__sched_setscheduler\<close> for a policy that changed before the run queue was locked
  never succeeds and its \<^verbatim>\<open>recheck\<close> label is reached once. The group path that
  function computes is only printed.
\<close>

section \<open>Nice values\<close>

definition set_user_nice ::
  "'a ksys_scheme class_table \<Rightarrow> tid \<Rightarrow> int \<Rightarrow> 'a ksys_scheme \<Rightarrow> 'a ksys_scheme" where
  "set_user_nice C p nice s =
     (if TASK_NICE (task s p) = nice \<or> nice < - 20 \<or> nice > 19 then s
      else if task_has_rt_policy (task s p)
      then upd_task p (\<lambda>t. t\<lparr>static_prio := NICE_TO_PRIO nice\<rparr>) s
      else
        let was_on_rq = on_rq (task s p);
            s = (if was_on_rq then dequeue_task C p 0 s else s);
            s = upd_task p (\<lambda>t. t\<lparr>static_prio := NICE_TO_PRIO nice\<rparr>) s;
            s = set_load_weight p s;
            old_prio = prio (task s p);
            (pr, s) = effective_prio p s;
            s = upd_task p (\<lambda>t. t\<lparr>prio := pr\<rparr>) s;
            delta = pr - old_prio
        in if was_on_rq then
             let s = enqueue_task C p 0 s
             in if delta < 0 \<or> (delta > 0 \<and> task_current s p) then resched_task (curr (rq s)) s else s
           else s)"

text \<open>The comparison with the limit is one of unsigned longs.\<close>

definition can_nice :: "kenv \<Rightarrow> tid \<Rightarrow> int \<Rightarrow> bool" where
  "can_nice env p nice =
     (let nice_rlim = 20 - nice
      in word_of_int nice_rlim \<le> rlim_cur env RLIMIT_NICE p \<or> capable_sys_nice env)"

definition sys_nice ::
  "kenv \<Rightarrow> 'a ksys_scheme class_table \<Rightarrow> int \<Rightarrow> 'a ksys_scheme \<Rightarrow> 'a ksys_scheme status" where
  "sys_nice env C increment s =
     (let c = curr (rq s);
          increment = (if increment < - 40 then - 40 else increment);
          increment = (if increment > 40 then 40 else increment);
          nice = TASK_NICE (task s c) + increment;
          nice = (if nice < - 20 then - 20 else nice);
          nice = (if nice > 19 then 19 else nice)
      in if increment < 0 \<and> \<not> can_nice env c nice then (Inl EPERM, s)
         else case security_task_setnice env c nice of
                Inl e \<Rightarrow> (Inl e, s)
              | Inr _ \<Rightarrow> (Inr (), set_user_nice C c nice s))"

definition task_prio :: "task_struct \<Rightarrow> int" where
  "task_prio t = prio t - MAX_RT_PRIO"

definition task_nice :: "task_struct \<Rightarrow> int" where
  "task_nice t = TASK_NICE t"

section \<open>Priority inheritance\<close>

text \<open>The \<^verbatim>\<open>BUG_ON\<close> at the start is the result \<open>None\<close>.\<close>

definition rt_mutex_setprio ::
  "'a ksys_scheme class_table \<Rightarrow> tid \<Rightarrow> int \<Rightarrow> 'a ksys_scheme \<Rightarrow> 'a ksys_scheme option" where
  "rt_mutex_setprio C p pr s =
     (if pr < 0 \<or> pr > MAX_PRIO then None
      else if p = idle (rq s) then Some s
      else
        let oldprio = prio (task s p);
            prev_class = sched_class (task s p);
            was_on_rq = on_rq (task s p);
            running = task_current s p;
            s = (if was_on_rq then dequeue_task C p 0 s else s);
            s = (if running then put_prev_task_op (class_of C p s) p s else s);
            s = (if rt_prio pr then upd_task p (\<lambda>t. t\<lparr>sched_class := rt_sched_class\<rparr>) s
                 else upd_task p (\<lambda>t. t\<lparr>sched_class := fair_sched_class\<rparr>) s);
            s = upd_task p (\<lambda>t. t\<lparr>prio := pr\<rparr>) s;
            s = (if running then set_curr_task_op (class_of C p s) s else s);
            s = (if was_on_rq then enqueue_task C p (if oldprio < pr then ENQUEUE_HEAD else 0) s else s)
        in Some (check_class_changed C p prev_class oldprio s))"

section \<open>Policies\<close>

definition SCHED_RESET_ON_FORK :: int where "SCHED_RESET_ON_FORK = 0x40000000"

definition find_process_by_pid :: "kenv \<Rightarrow> int \<Rightarrow> 'a ksys_scheme \<Rightarrow> tid option" where
  "find_process_by_pid env n s = (if n \<noteq> 0 then find_task_by_vpid env n else Some (curr (rq s)))"

definition setscheduler1 :: "kenv \<Rightarrow> tid \<Rightarrow> int \<Rightarrow> int \<Rightarrow> 'a ksys_scheme \<Rightarrow> 'a ksys_scheme" where
  "setscheduler1 env p pol pr s =
     (let s = upd_task p (\<lambda>t. t\<lparr>policy := pol\<rparr>) s;
          s = upd_task p (\<lambda>t. t\<lparr>rt_priority := pr\<rparr>) s;
          s = upd_task p (\<lambda>t. t\<lparr>normal_prio := normal_prio_of t\<rparr>) s;
          s = upd_task p (\<lambda>t. t\<lparr>prio := rt_mutex_getprio env p (normal_prio t)\<rparr>) s;
          s = (if pol = SCHED_WRR then upd_task p (\<lambda>t. t\<lparr>sched_class := wrr_sched_class\<rparr>) s
               else if rt_prio (prio (task s p))
               then upd_task p (\<lambda>t. t\<lparr>sched_class := rt_sched_class\<rparr>) s
               else upd_task p (\<lambda>t. t\<lparr>sched_class := fair_sched_class\<rparr>) s)
      in set_load_weight p s)"

definition check_same_owner :: "kenv \<Rightarrow> tid \<Rightarrow> 'a ksys_scheme \<Rightarrow> bool" where
  "check_same_owner env p s =
     (let c = task_cred env (curr (rq s));
          pc = task_cred env p
      in if user_ns c = user_ns pc then euid c = euid pc \<or> euid c = uid pc else False)"

text \<open>The policy asked for, with the flag of \<^verbatim>\<open>SCHED_RESET_ON_FORK\<close>; a negative policy keeps both.\<close>

definition requested_policy :: "task_struct \<Rightarrow> int \<Rightarrow> errno + int \<times> bool" where
  "requested_policy t pol =
     (if pol < 0 then Inr (policy t, sched_reset_on_fork t)
      else
        let reset = (pol AND SCHED_RESET_ON_FORK \<noteq> 0);
            pol = pol AND NOT SCHED_RESET_ON_FORK
        in if pol \<noteq> SCHED_FIFO \<and> pol \<noteq> SCHED_RR \<and> pol \<noteq> SCHED_NORMAL \<and> pol \<noteq> SCHED_BATCH \<and>
              pol \<noteq> SCHED_IDLE \<and> pol \<noteq> SCHED_WRR
           then Inl EINVAL else Inr (pol, reset))"

text \<open>The tests for a caller without \<^verbatim>\<open>CAP_SYS_NICE\<close>, in their order.\<close>

definition unprivileged_ok ::
  "kenv \<Rightarrow> tid \<Rightarrow> int \<Rightarrow> int \<Rightarrow> bool \<Rightarrow> 'a ksys_scheme \<Rightarrow> bool" where
  "unprivileged_ok env p pol pr reset s =
     (let t = task s p; rlim_rtprio = rlim_cur env RLIMIT_RTPRIO p in
      if rt_policy pol \<and> pol \<noteq> policy t \<and> rlim_rtprio = 0 then False
      else if rt_policy pol \<and> pr > rt_priority t \<and> word_of_int pr > rlim_rtprio then False
      else if policy t = SCHED_IDLE \<and> pol \<noteq> SCHED_IDLE \<and> \<not> can_nice env p (TASK_NICE t) then False
      else if \<not> check_same_owner env p s then False
      else if sched_reset_on_fork t \<and> \<not> reset then False
      else True)"

text \<open>The change itself, once all tests have passed.\<close>

definition change_policy ::
  "kenv \<Rightarrow> 'a ksys_scheme class_table \<Rightarrow> tid \<Rightarrow> int \<Rightarrow> int \<Rightarrow> bool \<Rightarrow> 'a ksys_scheme \<Rightarrow> 'a ksys_scheme" where
  "change_policy env C p pol pr reset s =
     (let was_on_rq = on_rq (task s p);
          running = task_current s p;
          s = (if was_on_rq then dequeue_task C p 0 s else s);
          s = (if running then put_prev_task_op (class_of C p s) p s else s);
          s = upd_task p (\<lambda>t. t\<lparr>sched_reset_on_fork := reset\<rparr>) s;
          oldprio = prio (task s p);
          prev_class = sched_class (task s p);
          s = setscheduler1 env p pol pr s;
          s = (if running then set_curr_task_op (class_of C p s) s else s);
          s = (if was_on_rq then enqueue_task C p 0 s else s);
          s = check_class_changed C p prev_class oldprio s
      in emit (RtMutexAdjustPi p) s)"

definition sched_setscheduler1 ::
  "kenv \<Rightarrow> 'a ksys_scheme class_table \<Rightarrow> tid \<Rightarrow> int \<Rightarrow> int \<Rightarrow> bool \<Rightarrow> 'a ksys_scheme \<Rightarrow>
     'a ksys_scheme status" where
  "sched_setscheduler1 env C p pol pr user s =
     (case requested_policy (task s p) pol of
        Inl e \<Rightarrow> (Inl e, s)
      | Inr (pol, reset) \<Rightarrow>
          if pr < 0 \<or> (t_mm (task s p) \<noteq> None \<and> pr > MAX_USER_RT_PRIO - 1) \<or>
             (t_mm (task s p) = None \<and> pr > MAX_RT_PRIO - 1)
          then (Inl EINVAL, s)
          else if rt_policy pol \<noteq> (pr \<noteq> 0) then (Inl EINVAL, s)
          else if user \<and> \<not> capable_sys_nice env \<and> \<not> unprivileged_ok env p pol pr reset s then (Inl EPERM, s)
          else case (if user then security_task_setscheduler env p else Inr ()) of
                 Inl e \<Rightarrow> (Inl e, s)
               | Inr _ \<Rightarrow>
                   if stop (rq s) = Some p then (Inl EINVAL, s)
                   else if pol = policy (task s p) \<and> (\<not> rt_policy pol \<or> pr = rt_priority (task s p))
                   then (Inr (), s)
                   else if user \<and> rt_bandwidth_enabled s \<and> rt_policy pol \<and>
                           rtb_runtime (rt_bws s (sched_task_group (task s p))) = 0 \<and>
                           \<not> task_group_is_autogroup env (sched_task_group (task s p))
                   then (Inl EPERM, s)
                   else (Inr (), change_policy env C p pol pr reset s))"

definition sched_setscheduler ::
  "kenv \<Rightarrow> 'a ksys_scheme class_table \<Rightarrow> tid \<Rightarrow> int \<Rightarrow> int \<Rightarrow> 'a ksys_scheme \<Rightarrow> 'a ksys_scheme status" where
  "sched_setscheduler env C p pol pr s = sched_setscheduler1 env C p pol pr True s"

definition sched_setscheduler_nocheck ::
  "kenv \<Rightarrow> 'a ksys_scheme class_table \<Rightarrow> tid \<Rightarrow> int \<Rightarrow> int \<Rightarrow> 'a ksys_scheme \<Rightarrow> 'a ksys_scheme status" where
  "sched_setscheduler_nocheck env C p pol pr s = sched_setscheduler1 env C p pol pr False s"

definition sched_set_stop_task ::
  "kenv \<Rightarrow> 'a ksys_scheme class_table \<Rightarrow> tid option \<Rightarrow> 'a ksys_scheme \<Rightarrow> 'a ksys_scheme" where
  "sched_set_stop_task env C new_stop s =
     (let old_stop = stop (rq s);
          s = (case new_stop of
                 None \<Rightarrow> s
               | Some p \<Rightarrow>
                   upd_task p (\<lambda>t. t\<lparr>sched_class := stop_sched_class\<rparr>)
                     (snd (sched_setscheduler_nocheck env C p SCHED_FIFO (MAX_RT_PRIO - 1) s)));
          s = upd_rq (\<lambda>r. r\<lparr>stop := new_stop\<rparr>) s
      in case old_stop of
           None \<Rightarrow> s
         | Some p \<Rightarrow> upd_task p (\<lambda>t. t\<lparr>sched_class := rt_sched_class\<rparr>) s)"

section \<open>System calls\<close>

text \<open>A pointer to a \<^verbatim>\<open>struct sched_param\<close> of the caller: null, not readable, or its priority.\<close>

datatype user_param = NullParam | BadParam | Param int

definition do_sched_setscheduler ::
  "kenv \<Rightarrow> 'a ksys_scheme class_table \<Rightarrow> int \<Rightarrow> int \<Rightarrow> user_param \<Rightarrow> 'a ksys_scheme \<Rightarrow>
     'a ksys_scheme status" where
  "do_sched_setscheduler env C n pol param s =
     (if param = NullParam \<or> n < 0 then (Inl EINVAL, s)
      else case param of
             Param pr \<Rightarrow>
               (case find_process_by_pid env n s of
                  None \<Rightarrow> (Inl ESRCH, s)
                | Some p \<Rightarrow> sched_setscheduler env C p pol pr s)
           | _ \<Rightarrow> (Inl EFAULT, s))"

definition sys_sched_setscheduler ::
  "kenv \<Rightarrow> 'a ksys_scheme class_table \<Rightarrow> int \<Rightarrow> int \<Rightarrow> user_param \<Rightarrow> 'a ksys_scheme \<Rightarrow>
     'a ksys_scheme status" where
  "sys_sched_setscheduler env C n pol param s =
     (if pol < 0 then (Inl EINVAL, s) else do_sched_setscheduler env C n pol param s)"

definition sys_sched_setparam ::
  "kenv \<Rightarrow> 'a ksys_scheme class_table \<Rightarrow> int \<Rightarrow> user_param \<Rightarrow> 'a ksys_scheme \<Rightarrow> 'a ksys_scheme status" where
  "sys_sched_setparam env C n param s = do_sched_setscheduler env C n (- 1) param s"

definition sys_sched_getscheduler :: "kenv \<Rightarrow> int \<Rightarrow> 'a ksys_scheme \<Rightarrow> errno + int" where
  "sys_sched_getscheduler env n s =
     (if n < 0 then Inl EINVAL
      else case find_process_by_pid env n s of
             None \<Rightarrow> Inl ESRCH
           | Some p \<Rightarrow>
               (case security_task_getscheduler env p of
                  Inl e \<Rightarrow> Inl e
                | Inr _ \<Rightarrow> Inr (policy (task s p) OR
                                (if sched_reset_on_fork (task s p) then SCHED_RESET_ON_FORK else 0))))"

text \<open>The buffer of the caller is null, not writable, or gets the priority.\<close>

definition sys_sched_getparam :: "kenv \<Rightarrow> int \<Rightarrow> user_param \<Rightarrow> 'a ksys_scheme \<Rightarrow> errno + user_param" where
  "sys_sched_getparam env n param s =
     (if param = NullParam \<or> n < 0 then Inl EINVAL
      else case find_process_by_pid env n s of
             None \<Rightarrow> Inl ESRCH
           | Some p \<Rightarrow>
               (case security_task_getscheduler env p of
                  Inl e \<Rightarrow> Inl e
                | Inr _ \<Rightarrow> if param = BadParam then Inl EFAULT else Inr (Param (rt_priority (task s p)))))"

definition sys_sched_get_priority_max :: "int \<Rightarrow> errno + int" where
  "sys_sched_get_priority_max pol =
     (if pol = SCHED_FIFO \<or> pol = SCHED_RR then Inr (MAX_USER_RT_PRIO - 1)
      else if pol = SCHED_NORMAL \<or> pol = SCHED_BATCH \<or> pol = SCHED_IDLE then Inr 0
      else Inl EINVAL)"

definition sys_sched_get_priority_min :: "int \<Rightarrow> errno + int" where
  "sys_sched_get_priority_min pol =
     (if pol = SCHED_FIFO \<or> pol = SCHED_RR then Inr 1
      else if pol = SCHED_NORMAL \<or> pol = SCHED_BATCH \<or> pol = SCHED_IDLE then Inr 0
      else Inl EINVAL)"

text \<open>
  The result is the slice in ticks that is handed to the caller; a class operation that ends
  without a value leaves it unspecified (\<open>None\<close>).
\<close>

definition sys_sched_rr_get_interval ::
  "kenv \<Rightarrow> 'a ksys_scheme class_table \<Rightarrow> int \<Rightarrow> bool \<Rightarrow> 'a ksys_scheme \<Rightarrow> errno + u32 option" where
  "sys_sched_rr_get_interval env C n writable s =
     (if n < 0 then Inl EINVAL
      else case find_process_by_pid env n s of
             None \<Rightarrow> Inl ESRCH
           | Some p \<Rightarrow>
               (case security_task_getscheduler env p of
                  Inl e \<Rightarrow> Inl e
                | Inr _ \<Rightarrow>
                    (let time_slice = get_rr_interval_op (class_of C p s) p s
                     in if \<not> writable then Inl EFAULT else Inr time_slice)))"

end
