(* ===== verification/Sched_Params.thy ===== *)
theory Sched_Params
  imports Sched_Syscalls Rt_Throttle
begin

text \<open>
  The scheduling parameters of tasks: only the functions that are meant to change them do;
  the operations of the classes leave them alone. That is an interface of its own
  (\<open>params_contract\<close>), interpreted for the two classes of the repository.
\<close>

section \<open>Parameters\<close>

definition task_params ::
  "task_struct \<Rightarrow> int \<times> int \<times> int \<times> int \<times> int \<times> sched_class_id \<times> bool" where
  "task_params t = (policy t, static_prio t, prio t, normal_prio t, rt_priority t, sched_class t,
     sched_reset_on_fork t)"

definition same_params :: "'a ksys_scheme \<Rightarrow> 'a ksys_scheme \<Rightarrow> bool" where
  "same_params s s' \<longleftrightarrow> (\<forall>q. task_params (task s' q) = task_params (task s q))"

lemma same_params_refl [simp]: "same_params s s"
  by (simp add: same_params_def)

lemma same_params_trans: "same_params s s' \<Longrightarrow> same_params s' s'' \<Longrightarrow> same_params s s''"
  by (simp add: same_params_def)

lemma same_params_task: "task s' = task s \<Longrightarrow> same_params s s'"
  by (simp add: same_params_def)

lemma same_paramsD:
  assumes "same_params s s'"
  shows "policy (task s' q) = policy (task s q)" "static_prio (task s' q) = static_prio (task s q)"
    "prio (task s' q) = prio (task s q)" "normal_prio (task s' q) = normal_prio (task s q)"
    "rt_priority (task s' q) = rt_priority (task s q)" "sched_class (task s' q) = sched_class (task s q)"
    "sched_reset_on_fork (task s' q) = sched_reset_on_fork (task s q)"
  using assms by (simp_all add: same_params_def task_params_def)

lemma same_params_upd [simp]:
  "same_params s (upd_se p f s)" "same_params s (upd_rt_se p g s)" "same_params s (upd_wrr_se p h s)"
  "same_params s (upd_rq k s)" "same_params s (upd_rt_rq i l s)" "same_params s (emit e s)"
  "same_params s (resched_task p s)" "same_params s (set_tsk_need_resched p s)"
  "same_params s (clear_tsk_need_resched p s)" "same_params s (inc_nr_running s)"
  "same_params s (dec_nr_running s)" "same_params s (cpuacct_charge env p d s)"
  "same_params s (update_rq_clock s)" "same_params s (set_load_weight p s)"
  by (simp_all add: same_params_def task_params_def set_load_weight_def Let_def)

lemma fold_same_params:
  assumes "\<And>x s. same_params s (f x s)"
  shows "same_params s (fold f xs s)"
proof (induction xs arbitrary: s)
  case (Cons x xs)
  show ?case using same_params_trans [OF assms Cons] by simp
qed simp

section \<open>The contract\<close>

locale params_contract =
  fixes ops :: "'a ksys_scheme sched_class_ops"
  assumes enqueue_params: "same_params s (enqueue_task_op ops p fl s)"
    and dequeue_params: "same_params s (dequeue_task_op ops p fl s)"
    and put_prev_params: "same_params s (put_prev_task_op ops p s)"
    and set_curr_params: "same_params s (set_curr_task_op ops s)"
    and fork_params: "task_fork_op ops = Some f \<Longrightarrow> same_params s (f p s)"
    and switched_from_params: "switched_from_op ops = Some f \<Longrightarrow> same_params s (f p s)"
    and switched_to_params: "same_params s (switched_to_op ops p s)"
    and prio_changed_params: "same_params s (prio_changed_op ops p old s)"
    and pick_params: "pick_next_task_op ops s = Some (r, s') \<Longrightarrow> same_params s s'"
    and tick_params: "same_params s (task_tick_op ops p s)"
    and check_preempt_params: "same_params s (check_preempt_curr_op ops p fl s)"
    and yield_params: "same_params s (yield_task_op ops s)"
begin

text \<open>Taking a task off its queue and stopping to run it, as every change of parameters does first.\<close>

lemma take_off_params:
  "same_params s
     (if running then put_prev_task_op ops p (if queued then dequeue_task_op ops p fl s else s)
      else (if queued then dequeue_task_op ops p fl s else s))"
  using same_params_trans [OF dequeue_params put_prev_params] dequeue_params put_prev_params by simp

end

section \<open>The weighted round-robin class\<close>

lemma update_curr_wrr_params [simp]: "same_params s (update_curr_wrr env s)"
  by (simp add: same_params_def task_params_def update_curr_wrr_def Let_def)

lemma wrr_params:
  "same_params s (enqueue_task_wrr env p fl s)" "same_params s (dequeue_task_wrr env p fl s)"
  "same_params s (put_prev_task_wrr env p s)" "same_params s (set_curr_task_wrr s)"
  "same_params s (task_fork_wrr p s)" "same_params s (switched_to_wrr env p s)"
  "same_params s (prio_changed_wrr p old s)"
  using same_paramsD [OF update_curr_wrr_params [of s env]]
  by (simp_all add: same_params_def task_params_def wrr_defs Let_def)

lemma wrr_pick_params: "pick_next_task_wrr env s = (r, s') \<Longrightarrow> same_params s s'"
  by (auto simp: same_params_def task_params_def pick_next_task_wrr_def Let_def split: if_splits)

lemma wrr_running_params:
  "same_params s (task_tick_wrr env p s)" "same_params s (check_preempt_curr_wrr p fl s)"
  "same_params s (yield_task_wrr s)"
  using same_paramsD [OF update_curr_wrr_params [of s env]]
  by (simp_all add: same_params_def task_params_def wrr_defs Let_def)

interpretation wrr_par: params_contract "wrr_sched_class_ops env" for env
  by unfold_locales (auto simp: wrr_sched_class_ops_def wrr_params wrr_running_params intro: wrr_pick_params)

section \<open>The real-time class\<close>

lemma queue_rt_entity1_task:
  "task (enqueue_rt_entity1 head e s) = task s" "task (dequeue_rt_entity1 env e s) = task s"
  by (simp_all add: rt_queue_defs Let_def)

lemma fold_task:
  assumes "\<And>e s. task (f e s) = task s"
  shows "task (fold f es s) = task s"
  by (induction es arbitrary: s) (simp_all add: assms)

lemma dequeue_rt_stack_task: "task (dequeue_rt_stack env e s) = task s"
  unfolding dequeue_rt_stack_def by (rule fold_task) (simp add: queue_rt_entity1_task)

lemma enqueue_rt_entity_task: "task (enqueue_rt_entity env e head s) = task s"
  unfolding enqueue_rt_entity_def
  by (subst fold_task) (simp_all add: queue_rt_entity1_task dequeue_rt_stack_task)

lemma dequeue_rt_entity_task: "task (dequeue_rt_entity env e s) = task s"
  unfolding dequeue_rt_entity_def
  by (subst fold_task) (simp_all add: queue_rt_entity1_task dequeue_rt_stack_task split: option.split)

lemma sched_rt_runtime_exceeded_task: "task (snd (sched_rt_runtime_exceeded env g s)) = task s"
  by (simp add: sched_rt_runtime_exceeded_def sched_rt_rq_dequeue_def Let_def dequeue_rt_entity_task
      split: option.split)

lemma charge_rt_entity_params: "same_params s (charge_rt_entity env c d e s)"
  by (simp add: same_params_def task_params_def charge_rt_entity_def Let_def case_prod_beta
      sched_rt_runtime_exceeded_task)

lemma update_curr_rt_params [simp]: "same_params s (update_curr_rt env s)"
proof (cases "sched_class (task s (curr (rq s))) = rt_sched_class")
  case True
  obtain d s1 where u: "update_curr_rt env s =
      (if \<not> rt_bandwidth_enabled s1 then s1
       else fold (charge_rt_entity env (curr (rq s)) d) (rt_chain s1 (RtTask (curr (rq s)))) s1)"
    and s1: "rt_upd_frame s s1" "\<And>q. sched_reset_on_fork (task s1 q) = sched_reset_on_fork (task s q)"
    using update_curr_rt_unfold [OF True] rt_upd_frame_reset by blast
  have "same_params s s1"
    using s1 by (simp add: same_params_def task_params_def rt_upd_frameD)
  with u show ?thesis
    using same_params_trans [OF _ fold_same_params [OF charge_rt_entity_params]] by auto
qed (simp add: update_curr_rt_def Let_def)

lemma rt_params:
  "same_params s (enqueue_task_rt env p fl s)" "same_params s (dequeue_task_rt env p fl s)"
  "same_params s (put_prev_task_rt env p s)" "same_params s (set_curr_task_rt s)"
  "same_params s (switched_to_rt p s)" "same_params s (prio_changed_rt p old s)"
proof -
  show "same_params s (enqueue_task_rt env p fl s)"
    by (simp add: same_params_def task_params_def enqueue_task_rt_def Let_def enqueue_rt_entity_task)
  have "same_params (update_curr_rt env s) (dequeue_task_rt env p fl s)"
    by (rule same_params_task) (simp add: dequeue_task_rt_def dequeue_rt_entity_task)
  then show "same_params s (dequeue_task_rt env p fl s)" by (rule same_params_trans [OF update_curr_rt_params])
qed (simp_all add: put_prev_task_rt_def set_curr_task_rt_def switched_to_rt_def prio_changed_rt_def)

lemma rt_pick_params: "pick_next_task_rt env s = Some (r, s') \<Longrightarrow> same_params s s'"
  by (auto simp: pick_next_task_rt_def split: if_splits option.splits)

lemma requeue_task_rt_task [simp]: "task (requeue_task_rt p head s) = task s"
  unfolding requeue_task_rt_def
  by (rule fold_task) (simp add: requeue_rt_entity_def unlink_rt_entity_def Let_def)

lemma watchdog_params: "same_params s (watchdog env p s)"
  by (simp add: same_params_def task_params_def watchdog_def Let_def)

lemma task_tick_rt_params: "same_params s (task_tick_rt env p s)"
proof -
  let ?s = "watchdog env p (update_curr_rt env s)"
  have 1: "same_params s ?s" by (rule same_params_trans [OF update_curr_rt_params watchdog_params])
  have "same_params ?s (task_tick_rt env p s)"
    by (simp add: task_tick_rt_def Let_def same_params_def task_params_def)
  with 1 show ?thesis by (rule same_params_trans)
qed

lemma rt_running_params:
  "same_params s (check_preempt_curr_rt p fl s)" "same_params s (yield_task_rt s)"
  by (simp_all add: check_preempt_curr_rt_def yield_task_rt_def same_params_task)

interpretation rt_par: params_contract "rt_sched_class_ops env" for env
  by unfold_locales
     (auto simp: rt_sched_class_ops_def rt_params rt_running_params task_tick_rt_params intro: rt_pick_params)

end
