(* ===== verification/Sched_Frame.thy ===== *)
theory Sched_Frame
  imports Sched_Params
begin

text \<open>
  The operations of the core that leave the scheduling parameters of all tasks alone:
  queueing, wake-ups, picking, the context switch, the tick and the main scheduler.
\<close>

section \<open>Queueing\<close>

lemma core_params:
  assumes "\<And>c. params_contract (C c)"
  shows "same_params s (enqueue_task C p fl s)" "same_params s (dequeue_task C p fl s)"
    "same_params s (check_class_changed C p c old s)"
proof -
  let ?q = "emit (SchedInfoQueued p) (update_rq_clock s)" and ?d = "emit (SchedInfoDequeued p) (update_rq_clock s)"
  have "same_params s ?q" "same_params s ?d" by (simp_all add: same_params_def)
  then show "same_params s (enqueue_task C p fl s)" "same_params s (dequeue_task C p fl s)"
    unfolding enqueue_task_def dequeue_task_def Let_def
    using params_contract.enqueue_params [OF assms] params_contract.dequeue_params [OF assms] same_params_trans
    by blast+
  have f: "same_params s (case switched_from_op (C c) of None \<Rightarrow> s | Some f \<Rightarrow> f p s)"
    using params_contract.switched_from_params [OF assms] by (auto split: option.split)
  show "same_params s (check_class_changed C p c old s)"
    unfolding check_class_changed_def Let_def
    using same_params_trans [OF f params_contract.switched_to_params [OF assms]]
      params_contract.prio_changed_params [OF assms]
    by auto
qed

lemma take_off_same:
  assumes "\<And>c. params_contract (C c)"
  shows "same_params s (let s = (if b then dequeue_task C p fl s else s)
                        in if r then put_prev_task_op (class_of C p s) p s else s)"
  using same_params_trans [OF core_params(2) [OF assms] params_contract.put_prev_params [OF assms]]
    core_params(2) [OF assms] params_contract.put_prev_params [OF assms]
  by (simp add: Let_def)

lemma put_back_same:
  assumes "\<And>c. params_contract (C c)"
  shows "same_params s
    (check_class_changed C p c old
       (let s = (if r then set_curr_task_op (class_of C p s) s else s)
        in if b then enqueue_task C p fl s else s))"
proof -
  have 1: "same_params s (if r then set_curr_task_op (class_of C p s) s else s)"
    using params_contract.set_curr_params [OF assms] by simp
  have 2: "same_params t (if b then enqueue_task C p fl t else t)" for t
    using core_params(1) [OF assms] by simp
  show ?thesis unfolding Let_def
    using same_params_trans [OF same_params_trans [OF 1 2] core_params(3) [OF assms]] .
qed

section \<open>Wake-ups\<close>

lemma same_params_upd_task:
  "(\<And>t. task_params (f t) = task_params t) \<Longrightarrow> same_params s (upd_task p f s)"
  by (simp add: same_params_def)

lemma check_preempt_curr_params:
  assumes C: "\<And>c. params_contract (C c)" and r: "check_preempt_curr C p fl s = Some s'"
  shows "same_params s s'"
proof -
  define inner where "inner = (if sched_class (task s p) = sched_class (task s (curr (rq s)))
      then Some (check_preempt_curr_op (class_of C (curr (rq s)) s) p fl s)
      else map_option (\<lambda>b. if b then resched_task (curr (rq s)) s else s)
             (class_before C sched_class_highest (sched_class (task s (curr (rq s)))) (sched_class (task s p))))"
  obtain s1 where s1: "inner = Some s1" "s' \<in> {s1, upd_rq (\<lambda>r. r\<lparr>skip_clock_update := 1\<rparr>) s1}"
    using r unfolding check_preempt_curr_def Let_def inner_def [symmetric] by (auto split: if_splits)
  have "same_params s s1"
    using s1(1) params_contract.check_preempt_params [OF C]
    by (auto simp: inner_def split: if_splits)
  then show ?thesis using s1(2) same_params_trans [OF _ same_params_upd(4)] by auto
qed

lemma ttwu_do_wakeup_params:
  assumes C: "\<And>c. params_contract (C c)" and r: "ttwu_do_wakeup C p fl s = Some s'"
  shows "same_params s s'"
proof -
  obtain s1 where s1: "check_preempt_curr C p fl s = Some s1" "s' = upd_task p (\<lambda>t. t\<lparr>t_state := TASK_RUNNING\<rparr>) s1"
    using r by (auto simp: ttwu_do_wakeup_def)
  have "same_params s1 s'" unfolding s1(2) by (rule same_params_upd_task) (simp add: task_params_def)
  with check_preempt_curr_params [OF C s1(1)] show ?thesis by (rule same_params_trans)
qed

lemma activate_params:
  assumes C: "\<And>c. params_contract (C c)"
  shows "same_params s (activate_task C p fl s)" "same_params s (deactivate_task C p fl s)"
    "same_params s (ttwu_activate C p fl s)"
proof -
  show 1: "same_params s (activate_task C p fl s)" and "same_params s (deactivate_task C p fl s)"
    unfolding activate_task_def deactivate_task_def Let_def
    using same_params_trans [OF same_params_upd(4) core_params(1) [OF C]] core_params(1) [OF C]
      same_params_trans [OF same_params_upd(4) core_params(2) [OF C]] core_params(2) [OF C]
    by simp_all
  have 2: "same_params t (upd_task p (\<lambda>t. t\<lparr>on_rq := True\<rparr>) t)" for t :: "'a ksys_scheme"
    by (rule same_params_upd_task) (simp add: task_params_def)
  have 3: "same_params t (if b then emit (WqWorkerWakingUp p) t else t)" for b and t :: "'a ksys_scheme"
    by simp
  show "same_params s (ttwu_activate C p fl s)"
    unfolding ttwu_activate_def Let_def by (rule same_params_trans [OF same_params_trans [OF 1 2] 3])
qed

lemma ttwu_stat_params [simp]: "same_params s (ttwu_stat p fl s)"
  by (simp add: ttwu_stat_def Let_def same_params_def task_params_def)

lemma try_to_wake_up_eq:
  "try_to_wake_up C p state fl s =
     (if t_state (task s p) AND state = 0 then Some (False, s)
      else map_option (\<lambda>s'. (True, ttwu_stat p fl s'))
             (if on_rq (task s p) then ttwu_do_wakeup C p fl s else ttwu_queue C p s))"
  by (cases "ttwu_do_wakeup C p fl s"; cases "ttwu_queue C p s")
     (simp_all add: try_to_wake_up_def ttwu_remote_def)

lemma try_to_wake_up_params:
  assumes C: "\<And>c. params_contract (C c)" and r: "try_to_wake_up C p state fl s = Some (b, s')"
  shows "same_params s s'"
proof -
  have wake: "same_params s s1" if "ttwu_do_wakeup C p fl s = Some s1" for s1
    using ttwu_do_wakeup_params [OF C that] .
  have queue: "same_params s s1" if "ttwu_queue C p s = Some s1" for s1
    by (rule same_params_trans [OF activate_params(3) [OF C]
          ttwu_do_wakeup_params [OF C that [unfolded ttwu_queue_def ttwu_do_activate_def]]])
  consider "s' = s" | s1 where "s' = ttwu_stat p fl s1" "ttwu_do_wakeup C p fl s = Some s1"
    | s1 where "s' = ttwu_stat p fl s1" "ttwu_queue C p s = Some s1"
    using r by (auto simp: try_to_wake_up_eq split: if_splits)
  then show ?thesis
    by cases (auto intro: same_params_trans [OF wake] same_params_trans [OF queue])
qed

lemma try_to_wake_up_local_params:
  assumes C: "\<And>c. params_contract (C c)" and r: "try_to_wake_up_local C p s = Some s'"
  shows "same_params s s'"
proof -
  define s1 where "s1 = (if \<not> on_rq (task s p) then ttwu_activate C p ENQUEUE_WAKEUP s else s)"
  have 1: "same_params s s1" using activate_params(3) [OF C] by (simp add: s1_def)
  consider "s' = s" | s2 where "s' = ttwu_stat p 0 s2" "ttwu_do_wakeup C p 0 s1 = Some s2"
    using r by (auto simp: try_to_wake_up_local_def s1_def Let_def split: if_splits)
  then show ?thesis
    by cases (auto intro: same_params_trans [OF same_params_trans [OF 1 ttwu_do_wakeup_params [OF C]]])
qed

lemma wake_up_new_task_params:
  assumes C: "\<And>c. params_contract (C c)" and r: "wake_up_new_task C p s = Some s'"
  shows "same_params s s'"
proof -
  let ?s = "upd_task p (\<lambda>t. t\<lparr>on_rq := True\<rparr>) (activate_task C p 0 s)"
  have "same_params (activate_task C p 0 s) ?s" by (rule same_params_upd_task) (simp add: task_params_def)
  moreover have "same_params ?s s'"
    using r by (intro check_preempt_curr_params [OF C]) (simp add: wake_up_new_task_def Let_def)
  ultimately have "same_params (activate_task C p 0 s) s'" by (rule same_params_trans)
  with activate_params(1) [OF C] show ?thesis by (rule same_params_trans)
qed

lemma pick_classes_params:
  assumes "pick_classes C c s = Some y" and C: "\<And>c. params_contract (C c)"
  shows "same_params s (snd y)"
proof -
  have "(\<forall>c. params_contract (C c)) \<longrightarrow> same_params s (snd y)"
  proof (rule pick_classes.raw_induct [of "\<lambda>C c s y. (\<forall>c. params_contract (C c)) \<longrightarrow> same_params s (snd y)",
        OF _ assms(1)], rule impI)
    fix pick and C :: "'a ksys_scheme class_table" and c s y
    assume IH: "\<And>C c s y. pick C c s = Some y \<Longrightarrow> (\<forall>c. params_contract (C c)) \<longrightarrow> same_params s (snd y)"
      and r: "(case pick_next_task_op (C c) s of None \<Rightarrow> None
        | Some (r, s) \<Rightarrow> (case r of Some p \<Rightarrow> Some (p, s)
           | None \<Rightarrow> (case cls_next (C c) of None \<Rightarrow> None | Some d \<Rightarrow> pick C d s))) = Some y"
      and C: "\<forall>c. params_contract (C c)"
    obtain q t where q: "pick_next_task_op (C c) s = Some (q, t)" using r by (auto split: option.splits)
    have t: "same_params s t" using C params_contract.pick_params [OF _ q] by blast
    consider p where "y = (p, t)" | d where "pick C d t = Some y"
      using r q by (auto split: option.splits)
    then show "same_params s (snd y)"
      by cases (use t C IH same_params_trans in \<open>simp, blast\<close>)
  qed
  with C show ?thesis by blast
qed

lemma pick_next_task_params:
  assumes C: "\<And>c. params_contract (C c)" and r: "pick_next_task C s = Some (p, s')"
  shows "same_params s s'"
proof -
  have cls: "pick_classes C c t = Some (p, s') \<Longrightarrow> same_params t s'" for c t
    using pick_classes_params [OF _ C] by fastforce
  have fair: "pick_next_task_op (C fair_sched_class) s = Some (q, t) \<Longrightarrow> same_params s t" for q t
    by (rule params_contract.pick_params [OF C])
  show ?thesis
    using r cls fair same_params_trans [OF fair cls]
    by (auto simp: pick_next_task_def split: if_splits option.splits)
qed

lemma context_switch_params [simp]: "same_params s (context_switch prev next s)"
  by (simp add: context_switch_def prepare_task_switch_def finish_task_switch_def Let_def same_params_def
      task_params_def split: option.split)

text \<open>The end of a round, after the pick.\<close>

definition switch_to_next :: "bool \<Rightarrow> tid \<Rightarrow> tid \<Rightarrow> 'a ksys_scheme \<Rightarrow> 'a ksys_scheme" where
  "switch_to_next sleeps prev next s =
     (let s = upd_rq (\<lambda>r. r\<lparr>skip_clock_update := 0\<rparr>) (clear_tsk_need_resched prev s)
      in if prev \<noteq> next then
           context_switch prev next
             (upd_task prev (\<lambda>t. if sleeps then t\<lparr>nvcsw := nvcsw t + 1\<rparr> else t\<lparr>nivcsw := nivcsw t + 1\<rparr>)
               (upd_rq (\<lambda>r. r\<lparr>nr_switches := nr_switches r + 1, curr := next\<rparr>) s))
         else s)"

lemma switch_to_next_params: "same_params s (switch_to_next sleeps prev next s)"
proof -
  let ?f = "\<lambda>t :: task_struct. if sleeps then t\<lparr>nvcsw := nvcsw t + 1\<rparr> else t\<lparr>nivcsw := nivcsw t + 1\<rparr>"
  have f: "same_params t (upd_task prev ?f t)" for t :: "'a ksys_scheme"
    by (rule same_params_upd_task) (simp add: task_params_def)
  note 1 = same_params_trans [OF same_params_upd(9) same_params_upd(4)]
  note 2 = same_params_trans [OF same_params_trans [OF same_params_upd(4) f] context_switch_params]
  show ?thesis
    unfolding switch_to_next_def Let_def
    by (cases "prev = next") (simp_all only: 1 same_params_trans [OF 1 2] refl not_True_eq_False not_False_eq_True if_True if_False)
qed

lemma schedule_round_eq:
  "schedule_round env C s =
     (let prev = curr (rq s); s0 = schedule_debug s;
          sleeps = (t_state (task s prev) \<noteq> 0 \<and> \<not> preempt_active env prev)
      in case (if sleeps then
                 (if signal_pending_state env (t_state (task s prev)) prev
                  then Some (upd_task prev (\<lambda>t. t\<lparr>t_state := TASK_RUNNING\<rparr>) s0)
                  else deactivate_prev env C prev s0)
               else Some s0) of
           None \<Rightarrow> None
         | Some s1 \<Rightarrow> map_option (\<lambda>(next, s2). switch_to_next sleeps prev next s2)
                         (pick_next_task C (put_prev_task C prev s1)))"
proof -
  have *: "(case o1 of None \<Rightarrow> None | Some s1 \<Rightarrow> map_option (\<lambda>(n, s2). g n s2) (h s1)) =
      o1 \<bind> (\<lambda>s1. h s1 \<bind> (\<lambda>(n, s2). Some (g n s2)))" for o1 h and g :: "tid \<Rightarrow> 'a ksys_scheme \<Rightarrow> 'a ksys_scheme"
    by (cases o1) (auto simp: map_conv_bind_option split_def comp_def)
  show ?thesis
    unfolding schedule_round_def Let_def * switch_to_next_def
    by (simp add: schedule_debug_def if_distrib [of "\<lambda>f. upd_task _ f _"] cong: if_cong)
qed

lemma put_prev_task_params:
  assumes C: "\<And>c. params_contract (C c)"
  shows "same_params s (put_prev_task C p s)"
  unfolding put_prev_task_def Let_def
  using params_contract.put_prev_params [OF C] same_params_trans [OF same_params_upd(13) params_contract.put_prev_params [OF C]]
  by simp

lemma if_case_SomeD:
  "(if b then (case x of None \<Rightarrow> Some t | Some q \<Rightarrow> f q) else Some t) = Some t' \<Longrightarrow> t' = t \<or> (\<exists>q. f q = Some t')"
  by (cases b; cases x) auto

lemma deactivate_prev_params:
  assumes C: "\<And>c. params_contract (C c)" and r: "deactivate_prev env C p s = Some s'"
  shows "same_params s s'"
proof -
  define t where "t = upd_task p (\<lambda>t. t\<lparr>on_rq := False\<rparr>) (deactivate_task C p DEQUEUE_SLEEP s)"
  have "same_params (deactivate_task C p DEQUEUE_SLEEP s) t"
    unfolding t_def by (rule same_params_upd_task) (simp add: task_params_def)
  then have 1: "same_params s t" by (rule same_params_trans [OF activate_params(2) [OF C]])
  have "(if t_flags (task t p) AND PF_WQ_WORKER \<noteq> 0 then
           (case wq_worker_sleeping env p of None \<Rightarrow> Some t | Some q \<Rightarrow> try_to_wake_up_local C q t)
         else Some t) = Some s'"
    using r unfolding deactivate_prev_def Let_def t_def .
  from if_case_SomeD [OF this] consider "s' = t" | q where "try_to_wake_up_local C q t = Some s'" by blast
  then show ?thesis
  proof cases
    case (2 q)
    show ?thesis by (rule same_params_trans [OF 1 try_to_wake_up_local_params [OF C 2]])
  qed (simp add: 1)
qed

lemma schedule_round_params:
  assumes C: "\<And>c. params_contract (C c)" and r: "schedule_round env C s = Some s'"
  shows "same_params s s'"
proof -
  let ?prev = "curr (rq s)"
  define sleeps where "sleeps = (t_state (task s ?prev) \<noteq> 0 \<and> \<not> preempt_active env ?prev)"
  define o1 where "o1 = (if sleeps then
                 (if signal_pending_state env (t_state (task s ?prev)) ?prev
                  then Some (upd_task ?prev (\<lambda>t. t\<lparr>t_state := TASK_RUNNING\<rparr>) (schedule_debug s))
                  else deactivate_prev env C ?prev (schedule_debug s))
               else Some (schedule_debug s))"
  obtain s1 n s2 where s1: "o1 = Some s1" and s2: "pick_next_task C (put_prev_task C ?prev s1) = Some (n, s2)"
    and s': "s' = switch_to_next sleeps ?prev n s2"
    using r unfolding schedule_round_eq Let_def o1_def [symmetric] sleeps_def [symmetric]
    by (auto split: option.splits)
  have "same_params (schedule_debug s) s1"
    using s1 deactivate_prev_params [OF C] by (auto simp: o1_def same_params_def task_params_def split: if_splits)
  then have "same_params s s1" using same_params_upd(4) same_params_trans unfolding schedule_debug_def by blast
  moreover have "same_params s1 s2"
    by (rule same_params_trans [OF put_prev_task_params [OF C] pick_next_task_params [OF C s2]])
  ultimately have "same_params s s2" by (rule same_params_trans)
  then show ?thesis unfolding s' by (rule same_params_trans [OF _ switch_to_next_params])
qed

lemma schedule1_params:
  assumes "schedule1 env C s = Some s'" and C: "\<And>c. params_contract (C c)"
  shows "same_params s s'"
proof -
  have "(\<forall>c. params_contract (C c)) \<longrightarrow> same_params s s'"
  proof (rule schedule1.raw_induct [of "\<lambda>env C s s'. (\<forall>c. params_contract (C c)) \<longrightarrow> same_params s s'",
        OF _ assms(1)], rule impI)
    fix sched and env and C :: "'a ksys_scheme class_table" and s s'
    assume IH: "\<And>env C s s'. sched env C s = Some s' \<Longrightarrow> (\<forall>c. params_contract (C c)) \<longrightarrow> same_params s s'"
      and r: "(case schedule_round env C s of None \<Rightarrow> None
        | Some s \<Rightarrow> if test_tsk_need_resched s (curr (rq s)) then sched env C s else Some s) = Some s'"
      and C: "\<forall>c. params_contract (C c)"
    obtain t where t: "schedule_round env C s = Some t" "t = s' \<or> sched env C t = Some s'"
      using r by (auto split: option.splits if_splits)
    have "same_params s t" using schedule_round_params [OF _ t(1)] C by blast
    moreover have "same_params t s'" using t(2) IH C by auto
    ultimately show "same_params s s'" by (rule same_params_trans)
  qed
  with C show ?thesis by blast
qed

lemma schedule_params:
  assumes C: "\<And>c. params_contract (C c)"
  shows "schedule env C s = Some s' \<Longrightarrow> same_params s s'"
    and "sys_sched_yield env C s = Some s' \<Longrightarrow> same_params s s'"
proof -
  have w: "same_params t (sched_submit_work env p t)" for p and t :: "'a ksys_scheme"
    by (simp add: sched_submit_work_def)
  show 1: "schedule env C t = Some s' \<Longrightarrow> same_params t s'" for t
    unfolding schedule_def by (rule same_params_trans [OF w schedule1_params [OF _ C]])
  note y = same_params_trans [OF same_params_upd(4) params_contract.yield_params [OF C]]
  show "sys_sched_yield env C s = Some s' \<Longrightarrow> same_params s s'"
    unfolding sys_sched_yield_def Let_def by (rule same_params_trans [OF y 1])
qed

lemma update_cpu_load_active_task:
  "update_cpu_load_active env s = Some s' \<Longrightarrow> task s' = task s"
  by (auto simp: update_cpu_load_active_def update_cpu_load_def calc_load_account_active_def
      calc_load_fold_active_def Let_def split: option.splits if_splits)

lemma scheduler_tick_params:
  assumes C: "\<And>c. params_contract (C c)" and r: "scheduler_tick env C s = Some s'"
  shows "same_params s s'"
proof -
  obtain s1 where s1: "update_cpu_load_active env (update_rq_clock (emit SchedClockTick s)) = Some s1"
    and s': "s' = emit PerfEventTaskTick (task_tick_op (class_of C (curr (rq s)) s1) (curr (rq s)) s1)"
    using r by (auto simp: scheduler_tick_def Let_def bind_eq_Some_conv)
  have "same_params s s1" using update_cpu_load_active_task [OF s1] by (intro same_params_task) simp
  then show ?thesis
    unfolding s' by (rule same_params_trans) (rule same_params_trans [OF params_contract.tick_params [OF C] same_params_upd(6)])
qed

end
