(* ===== verification/Sched_Type.thy ===== *)
theory Sched_Type
  imports Sched_Frame
begin

text \<open>
  The ranges of the scheduling parameters, as a typing of task structures, and that every
  operation that changes parameters keeps all tasks well typed.
\<close>

section \<open>Well-typed tasks\<close>

definition valid_policy :: "int \<Rightarrow> bool" where
  "valid_policy pol \<longleftrightarrow>
     pol = SCHED_NORMAL \<or> pol = SCHED_FIFO \<or> pol = SCHED_RR \<or> pol = SCHED_BATCH \<or> pol = SCHED_IDLE \<or>
     pol = SCHED_WRR"

text \<open>
  A task of the real-time class has a real-time priority: it indexes the lists of the class.
  Its static priority indexes the tables of weights.
\<close>

definition task_ok :: "task_struct \<Rightarrow> bool" where
  "task_ok t \<longleftrightarrow>
     valid_policy (policy t) \<and> 100 \<le> static_prio t \<and> static_prio t < 140 \<and>
     0 \<le> rt_priority t \<and> rt_priority t < 100 \<and> (rt_policy (policy t) \<longleftrightarrow> rt_priority t \<noteq> 0) \<and>
     normal_prio t = normal_prio_of t \<and> 0 \<le> prio t \<and> prio t \<le> MAX_PRIO \<and>
     (sched_class t = rt_sched_class \<longrightarrow> prio t < 100)"

definition tasks_ok :: "'a ksys_scheme \<Rightarrow> bool" where
  "tasks_ok s \<longleftrightarrow> (\<forall>p. task_ok (task s p))"

text \<open>The priority a task inherits is not below its own and is a priority.\<close>

definition getprio_ok :: "kenv \<Rightarrow> bool" where
  "getprio_ok env \<longleftrightarrow> (\<forall>p n. 0 \<le> n \<longrightarrow> 0 \<le> rt_mutex_getprio env p n \<and> rt_mutex_getprio env p n \<le> n)"

definition ext_params_ok :: "'a ksys_scheme ext_classes \<Rightarrow> bool" where
  "ext_params_ok X \<longleftrightarrow>
     params_contract (stop_class_ops X) \<and> params_contract (fair_class_ops X) \<and> params_contract (idle_class_ops X)"

lemma class_table_params: "ext_params_ok X \<Longrightarrow> params_contract (class_table env X c)"
  using rt_par.params_contract_axioms wrr_par.params_contract_axioms
  by (cases c) (auto simp: ext_params_ok_def)

lemma task_ok_params: "task_params t = task_params t' \<Longrightarrow> task_ok t = task_ok t'"
  by (simp add: task_params_def task_ok_def normal_prio_of_def normal_prio1_def task_has_rt_policy_def)

lemma tasks_ok_same:
  assumes "same_params s s'" shows "tasks_ok s' = tasks_ok s"
proof -
  have "task_ok (task s' p) = task_ok (task s p)" for p
    using assms by (intro task_ok_params) (simp add: same_params_def)
  then show ?thesis by (simp add: tasks_ok_def)
qed

lemma tasks_okI: "same_params s s' \<Longrightarrow> tasks_ok s \<Longrightarrow> tasks_ok s'"
  by (simp add: tasks_ok_same)

lemma tasks_ok_upd:
  assumes "tasks_ok s" "task_ok (f (task s p))" shows "tasks_ok (upd_task p f s)"
  using assms by (simp add: tasks_ok_def)

lemma normal_prio_range:
  assumes "task_ok t" shows "0 \<le> normal_prio t" "normal_prio t < 140"
  using assms
  by (auto simp: task_ok_def normal_prio_of_def normal_prio1_def task_has_rt_policy_def prio_defs)

lemma upd_task_comp: "upd_task p f (upd_task p g s) = upd_task p (\<lambda>t. f (g t)) s"
  by (simp add: upd_task_def)

section \<open>Preservation\<close>

context params_contract
begin

lemma enqueue_ok: "tasks_ok s \<Longrightarrow> tasks_ok (enqueue_task_op ops p fl s)"
  by (simp add: tasks_ok_same [OF enqueue_params])

end

lemma set_user_nice_ok:
  assumes C: "\<And>c. params_contract (C c)" and ok: "tasks_ok s"
  shows "tasks_ok (set_user_nice C p nice s)"
proof (cases "TASK_NICE (task s p) = nice \<or> nice < - 20 \<or> nice > 19 \<or> task_has_rt_policy (task s p)")
  case True
  have "task_ok ((task s p)\<lparr>static_prio := NICE_TO_PRIO nice\<rparr>)" if "- 20 \<le> nice" "nice \<le> 19" "task_has_rt_policy (task s p)"
    using ok that
    by (auto simp: tasks_ok_def task_ok_def normal_prio_of_def task_has_rt_policy_def NICE_TO_PRIO_def prio_defs)
  with True ok show ?thesis by (auto simp: set_user_nice_def intro: tasks_ok_upd)
next
  case False
  define s1 where "s1 = (if on_rq (task s p) then dequeue_task C p 0 s else s)"
  have same1: "same_params s s1" using core_params(2) [OF C] by (simp add: s1_def)
  then have ok1: "tasks_ok s1" using ok by (rule tasks_okI)
  define pr where "pr = (if \<not> rt_prio (prio (task s1 p)) then NICE_TO_PRIO nice else prio (task s1 p))"
  define F where "F = (\<lambda>t :: task_struct. t\<lparr>static_prio := NICE_TO_PRIO nice, normal_prio := NICE_TO_PRIO nice, prio := pr\<rparr>)"
  have pol: "\<not> task_has_rt_policy (task s1 p)"
    using False same_paramsD(1) [OF same1] by (simp add: task_has_rt_policy_def)
  have "task_ok (F (task s1 p))"
    using ok1 False pol
    by (auto simp: F_def pr_def tasks_ok_def task_ok_def normal_prio_of_def normal_prio1_def
        task_has_rt_policy_def NICE_TO_PRIO_def prio_defs rt_prio_def split: if_splits)
  then have okF: "tasks_ok (upd_task p F s1)" by (rule tasks_ok_upd [OF ok1])
  define s2 where "s2 = (let s = upd_task p (\<lambda>t. t\<lparr>static_prio := NICE_TO_PRIO nice\<rparr>) s1;
      s = set_load_weight p s; (q, s) = effective_prio p s in upd_task p (\<lambda>t. t\<lparr>prio := q\<rparr>) s)"
  have "same_params (upd_task p F s1) s2"
    using pol
    by (cases "rt_prio (prio (task s1 p))"; cases "policy (task s1 p) = SCHED_IDLE")
       (simp_all add: same_params_def task_params_def s2_def F_def pr_def effective_prio_def Let_def
        set_load_weight_def normal_prio_of_def normal_prio1_def task_has_rt_policy_def)
  then have ok2: "tasks_ok s2" using okF by (rule tasks_okI)
  have ok3: "tasks_ok (enqueue_task C p 0 s2)" using core_params(1) [OF C] ok2 by (rule tasks_okI)
  have "set_user_nice C p nice s \<in>
      {s2, enqueue_task C p 0 s2, resched_task (curr (rq (enqueue_task C p 0 s2))) (enqueue_task C p 0 s2)}"
    using False by (simp add: set_user_nice_def s1_def s2_def Let_def case_prod_beta)
  moreover have "tasks_ok (resched_task q (enqueue_task C p 0 s2))" for q
    using same_params_upd(7) ok3 by (rule tasks_okI)
  ultimately show ?thesis using ok2 ok3 by auto
qed


lemma sys_nice_ok:
  assumes "\<And>c. params_contract (C c)" "tasks_ok s"
  shows "tasks_ok (snd (sys_nice env C n s))"
  using assms set_user_nice_ok [of C s]
  by (auto simp: sys_nice_def Let_def split: sum.split)

text \<open>A change of parameters between taking the task off its queue and putting it back.\<close>

definition around ::
  "'a ksys_scheme class_table \<Rightarrow> tid \<Rightarrow> (task_struct \<Rightarrow> task_struct) \<Rightarrow> u32 \<Rightarrow> 'a ksys_scheme \<Rightarrow> 'a ksys_scheme" where
  "around C p f fl s =
     (let queued = on_rq (task s p);
          running = task_current s p;
          c = sched_class (task s p);
          old = prio (task s p);
          s = upd_task p f (let s = (if queued then dequeue_task C p 0 s else s)
                            in if running then put_prev_task_op (class_of C p s) p s else s);
          s = (if running then set_curr_task_op (class_of C p s) s else s)
      in check_class_changed C p c old (if queued then enqueue_task C p fl s else s))"

lemma around_ok:
  assumes C: "\<And>c. params_contract (C c)" and ok: "tasks_ok s"
    and f: "\<And>t. task_ok t \<Longrightarrow> task_ok (f t)"
  shows "tasks_ok (around C p f fl s)"
proof -
  let ?t = "let s1 = (if on_rq (task s p) then dequeue_task C p 0 s else s)
            in if task_current s p then put_prev_task_op (class_of C p s1) p s1 else s1"
  have ok1: "tasks_ok ?t" using take_off_same [OF C] ok by (rule tasks_okI)
  then have "task_ok (f (task ?t p))" using f unfolding tasks_ok_def by blast
  with ok1 have "tasks_ok (upd_task p f ?t)" by (rule tasks_ok_upd)
  with put_back_same [OF C] show ?thesis unfolding around_def Let_def by (rule tasks_okI)
qed

lemma around_params:
  assumes C: "\<And>c. params_contract (C c)"
    and f: "\<And>t t'. task_params t = task_params t' \<Longrightarrow> task_params (f t) = task_params (f t')"
  shows "same_params (upd_task p f s) (around C p f fl s)"
proof -
  let ?t = "let s1 = (if on_rq (task s p) then dequeue_task C p 0 s else s)
            in if task_current s p then put_prev_task_op (class_of C p s1) p s1 else s1"
  have t: "same_params s ?t" by (rule take_off_same [OF C])
  have "same_params (upd_task p f s) (upd_task p f ?t)"
    unfolding same_params_def
  proof
    fix q
    have "task_params (f (task ?t p)) = task_params (f (task s p))" using t f unfolding same_params_def by blast
    moreover have "task_params (task ?t q) = task_params (task s q)" using t unfolding same_params_def by blast
    ultimately show "task_params (task (upd_task p f ?t) q) = task_params (task (upd_task p f s) q)"
      by (simp only: upd_task_proj if_distrib [of task_params])
  qed
  with put_back_same [OF C] show ?thesis unfolding around_def Let_def by (rule same_params_trans [rotated])
qed

lemma rt_mutex_setprio_around:
  assumes "p \<noteq> idle (rq s)" "0 \<le> pr" "pr \<le> MAX_PRIO"
  shows "rt_mutex_setprio C p pr s = Some (around C p
     (\<lambda>t. t\<lparr>sched_class := (if rt_prio pr then rt_sched_class else fair_sched_class), prio := pr\<rparr>)
     (if prio (task s p) < pr then ENQUEUE_HEAD else 0) s)"
  using assms by (cases "rt_prio pr") (simp_all add: rt_mutex_setprio_def around_def Let_def upd_task_comp)

lemma rt_mutex_setprio_ok:
  assumes C: "\<And>c. params_contract (C c)" and ok: "tasks_ok s"
    and r: "rt_mutex_setprio C p pr s = Some s'"
  shows "tasks_ok s'"
proof (cases "p = idle (rq s)")
  case False
  have pr: "0 \<le> pr" "pr \<le> MAX_PRIO" using r by (auto simp: rt_mutex_setprio_def split: if_splits)
  have f: "task_ok t \<Longrightarrow>
      task_ok (t\<lparr>sched_class := (if rt_prio pr then rt_sched_class else fair_sched_class), prio := pr\<rparr>)" for t
    using pr by (auto simp: task_ok_def normal_prio_of_def normal_prio1_def task_has_rt_policy_def rt_prio_def prio_defs)
  show ?thesis
    using r around_ok [OF C ok f] unfolding rt_mutex_setprio_around [OF False pr] by auto
qed (use r ok in \<open>auto simp: rt_mutex_setprio_def split: if_splits\<close>)

text \<open>The two functions of \<^verbatim>\<open>core.c\<close> that write a task, as functions on task structures.\<close>

definition load_weighted :: "task_struct \<Rightarrow> task_struct" where
  "load_weighted t = t\<lparr>se := (se t)\<lparr>se_load :=
     (if policy t = SCHED_IDLE then \<lparr>lw_weight = WEIGHT_IDLEPRIO, lw_inv_weight = WMULT_IDLEPRIO\<rparr>
      else \<lparr>lw_weight = prio_to_weight ! nat (static_prio t - MAX_RT_PRIO),
            lw_inv_weight = prio_to_wmult ! nat (static_prio t - MAX_RT_PRIO)\<rparr>)\<rparr>\<rparr>"

lemma set_load_weight_task: "set_load_weight p s = upd_task p load_weighted s"
  by (simp add: set_load_weight_def upd_se_def upd_task_def load_weighted_def Let_def)

definition new_policy :: "kenv \<Rightarrow> tid \<Rightarrow> int \<Rightarrow> int \<Rightarrow> bool \<Rightarrow> task_struct \<Rightarrow> task_struct" where
  "new_policy env p pol pr reset t =
     (let n = (if rt_policy pol then MAX_RT_PRIO - 1 - pr else static_prio t);
          c = (if pol = SCHED_WRR then wrr_sched_class
               else if rt_prio (rt_mutex_getprio env p n) then rt_sched_class else fair_sched_class)
      in load_weighted (t\<lparr>sched_reset_on_fork := reset, policy := pol, rt_priority := pr, normal_prio := n,
           prio := rt_mutex_getprio env p n, sched_class := c\<rparr>))"

lemma task_ok_load_weighted [simp]: "task_ok (load_weighted t) = task_ok t"
  by (rule task_ok_params) (simp add: load_weighted_def task_params_def)

lemma new_policy_ok:
  assumes t: "task_ok t" and env: "getprio_ok env" and pol: "valid_policy pol"
    and pr: "0 \<le> pr" "pr < 100" "rt_policy pol \<longleftrightarrow> pr \<noteq> 0"
  shows "task_ok (new_policy env p pol pr reset t)"
proof -
  define n where "n = (if rt_policy pol then MAX_RT_PRIO - 1 - pr else static_prio t)"
  have n1: "0 \<le> n" "n < 140" using t pr n_def by (auto simp: task_ok_def prio_defs)
  then have g: "0 \<le> rt_mutex_getprio env p n" "rt_mutex_getprio env p n \<le> n"
    using env by (simp_all add: getprio_ok_def)
  show ?thesis
    unfolding new_policy_def Let_def n_def [symmetric] task_ok_load_weighted
    using t pol pr n1 g
    by (simp add: task_ok_def normal_prio_of_def normal_prio1_def task_has_rt_policy_def rt_prio_def prio_defs)
       (simp add: n_def prio_defs split: if_splits)
qed

lemma setscheduler1_new_policy:
  "setscheduler1 env p pol pr (upd_task p (\<lambda>t. t\<lparr>sched_reset_on_fork := reset\<rparr>) s) =
     upd_task p (new_policy env p pol pr reset) s"
  by (simp add: setscheduler1_def new_policy_def Let_def upd_task_def set_load_weight_task normal_prio_of_def
      task_has_rt_policy_def normal_prio1_def)

lemma change_policy_around:
  assumes C: "\<And>c. params_contract (C c)"
  shows "change_policy env C p pol pr reset s =
    emit (RtMutexAdjustPi p) (around C p (new_policy env p pol pr reset) 0 s)"
proof -
  let ?t = "let s1 = (if on_rq (task s p) then dequeue_task C p 0 s else s)
            in if task_current s p then put_prev_task_op (class_of C p s1) p s1 else s1"
  have same: "same_params s ?t" by (rule take_off_same [OF C])
  show ?thesis
    using same_paramsD(3,6) [OF same, of p]
    unfolding change_policy_def around_def Let_def setscheduler1_new_policy by simp
qed

lemma change_policy_params:
  assumes C: "\<And>c. params_contract (C c)"
  shows "same_params (upd_task p (new_policy env p pol pr reset) s) (change_policy env C p pol pr reset s)"
proof -
  have "same_params (upd_task p (new_policy env p pol pr reset) s) (around C p (new_policy env p pol pr reset) 0 s)"
    by (rule around_params [OF C]) (simp add: task_params_def new_policy_def load_weighted_def Let_def)
  then show ?thesis
    unfolding change_policy_around [OF C] by (rule same_params_trans [OF _ same_params_upd(6)])
qed

lemma requested_policy_valid:
  "requested_policy t pol = Inr (pol', reset) \<Longrightarrow> valid_policy (policy t) \<Longrightarrow> valid_policy pol'"
  by (auto simp: requested_policy_def valid_policy_def Let_def split: if_splits)

lemma sched_setscheduler1_cases:
  obtains (error) e where "sched_setscheduler1 env C p pol pr user s = (Inl e, s)"
      "e = EINVAL \<or> e = EPERM \<or> security_task_setscheduler env p = Inl e"
  | (same) pol' reset where "requested_policy (task s p) pol = Inr (pol', reset)"
      "0 \<le> pr" "pr < 100" "rt_policy pol' \<longleftrightarrow> pr \<noteq> 0"
      "policy (task s p) = pol'" "rt_policy pol' \<Longrightarrow> rt_priority (task s p) = pr"
      "sched_setscheduler1 env C p pol pr user s = (Inr (), s)"
  | (change) pol' reset where "requested_policy (task s p) pol = Inr (pol', reset)"
      "0 \<le> pr" "pr < 100" "rt_policy pol' \<longleftrightarrow> pr \<noteq> 0"
      "sched_setscheduler1 env C p pol pr user s = (Inr (), change_policy env C p pol' pr reset s)"
proof (cases "requested_policy (task s p) pol")
  case (Inl e)
  moreover have "e = EINVAL" using Inl by (auto simp: requested_policy_def Let_def split: if_splits)
  ultimately show thesis using error by (simp add: sched_setscheduler1_def)
next
  case (Inr q)
  obtain pol' reset where q: "q = (pol', reset)" by (cases q)
  let ?r = "sched_setscheduler1 env C p pol pr user s"
  consider "pr < 0 \<or> pr > 99 \<or> rt_policy pol' \<noteq> (pr \<noteq> 0)"
    | "0 \<le> pr" "pr \<le> 99" "rt_policy pol' \<longleftrightarrow> pr \<noteq> 0" by linarith
  then show thesis
  proof cases
    case 1
    then have "?r = (Inl EINVAL, s)"
      using Inr q by (auto simp: sched_setscheduler1_def prio_defs)
    then show thesis by (rule error) simp
  next
    case 2
    have "(\<exists>e. ?r = (Inl e, s) \<and> (e = EINVAL \<or> e = EPERM \<or> security_task_setscheduler env p = Inl e)) \<or>
        ?r = (Inr (), s) \<and> pol' = policy (task s p) \<and> (\<not> rt_policy pol' \<or> pr = rt_priority (task s p)) \<or>
        ?r = (Inr (), change_policy env C p pol' pr reset s)"
      using Inr q 2 by (simp add: sched_setscheduler1_def prio_defs split: sum.split) blast
    with 2 Inr q error same change show thesis by fastforce
  qed
qed

lemma sched_setscheduler1_ok:
  assumes C: "\<And>c. params_contract (C c)" and ok: "tasks_ok s" and env: "getprio_ok env"
  shows "tasks_ok (snd (sched_setscheduler1 env C p pol pr user s))"
proof (cases rule: sched_setscheduler1_cases [of env C p pol pr user s])
  case (change pol' reset)
  have "valid_policy pol'"
    using requested_policy_valid [OF change(1)] ok by (simp add: tasks_ok_def task_ok_def)
  then have "tasks_ok (around C p (new_policy env p pol' pr reset) 0 s)"
    by (intro around_ok C ok new_policy_ok env change(2-4))
  with same_params_upd(6) have "tasks_ok (emit (RtMutexAdjustPi p) (around C p (new_policy env p pol' pr reset) 0 s))"
    by (rule tasks_okI)
  then show ?thesis by (simp add: change(5) change_policy_around [OF C])
qed (use ok in simp_all)

text \<open>The parameters of a child, which is a copy of the running task, after \<^verbatim>\<open>sched_fork\<close>.\<close>

definition forked :: "task_struct \<Rightarrow> task_struct" where
  "forked t =
     (let t = (if sched_reset_on_fork t then
                 let t = (if task_has_rt_policy t
                          then t\<lparr>policy := SCHED_NORMAL, static_prio := NICE_TO_PRIO 0, rt_priority := 0\<rparr>
                          else if PRIO_TO_NICE (static_prio t) < 0 then t\<lparr>static_prio := NICE_TO_PRIO 0\<rparr>
                          else t)
                 in t\<lparr>normal_prio := static_prio t, prio := static_prio t, sched_reset_on_fork := False\<rparr>
               else t\<lparr>prio := normal_prio t\<rparr>)
      in if rt_prio (prio t) then t else t\<lparr>sched_class := fair_sched_class\<rparr>)"

lemma forked_ok: "task_ok t \<Longrightarrow> task_ok (forked t)"
  by (simp add: forked_def task_ok_def normal_prio_of_def normal_prio1_def task_has_rt_policy_def rt_prio_def
      prio_defs NICE_TO_PRIO_def PRIO_TO_NICE_def Let_def valid_policy_def)
     (auto simp: rt_policy_def policy_defs)

lemma sched_fork_params:
  assumes C: "\<And>c. params_contract (C c)"
    and child: "p \<noteq> curr (rq s)" "task_params (task s p) = task_params (task s (curr (rq s)))"
  shows "same_params (upd_task p forked s) (sched_fork C p s)"
proof -
  have n: "normal_prio (task s (curr (rq s))) = normal_prio (task s p)"
    using child(2) by (simp add: task_params_def)
  have "\<exists>s1. sched_fork C p s = (case task_fork_op (class_of C p s1) of None \<Rightarrow> s1 | Some h \<Rightarrow> h p s1) \<and>
      same_params (upd_task p forked s) s1"
    unfolding sched_fork_def Let_def
    by (rule exI, rule conjI, rule refl)
       (use child(1) n in \<open>simp add: same_params_def task_params_def forked_def sched_fork1_def Let_def
          task_has_rt_policy_def normal_prio1_def set_load_weight_task load_weighted_def\<close>)
  then obtain s1
    where s1: "sched_fork C p s = (case task_fork_op (class_of C p s1) of None \<Rightarrow> s1 | Some h \<Rightarrow> h p s1)"
    and same: "same_params (upd_task p forked s) s1" by blast
  have "same_params s1 (sched_fork C p s)"
    unfolding s1 using params_contract.fork_params [OF C] by (auto split: option.split)
  with same show ?thesis by (rule same_params_trans)
qed

lemma sched_fork_ok:
  assumes "\<And>c. params_contract (C c)" "tasks_ok s"
    and "p \<noteq> curr (rq s)" "task_params (task s p) = task_params (task s (curr (rq s)))"
  shows "tasks_ok (sched_fork C p s)"
proof (rule tasks_okI)
  show "same_params (upd_task p forked s) (sched_fork C p s)" by (rule sched_fork_params) (fact assms)+
  show "tasks_ok (upd_task p forked s)"
    using assms(2) forked_ok [of "task s p"] by (intro tasks_ok_upd) (simp_all add: tasks_ok_def)
qed

section \<open>The steps of the core\<close>

text \<open>
  The entry points of the core in any order. A task that is forked is a copy of the running
  one, as \<^verbatim>\<open>dup_task_struct\<close> leaves it.
\<close>

inductive core_step ::
  "kenv \<Rightarrow> 'a ksys_scheme class_table \<Rightarrow> 'a ksys_scheme \<Rightarrow> 'a ksys_scheme \<Rightarrow> bool" for env C where
  core_tick: "scheduler_tick env C s = Some s' \<Longrightarrow> core_step env C s s'"
| core_schedule: "schedule env C s = Some s' \<Longrightarrow> core_step env C s s'"
| core_yield: "sys_sched_yield env C s = Some s' \<Longrightarrow> core_step env C s s'"
| core_wake: "try_to_wake_up C p state fl s = Some (b, s') \<Longrightarrow> core_step env C s s'"
| core_wake_new: "wake_up_new_task C p s = Some s' \<Longrightarrow> core_step env C s s'"
| core_fork: "p \<noteq> curr (rq s) \<Longrightarrow> task_params (task s p) = task_params (task s (curr (rq s))) \<Longrightarrow>
    core_step env C s (sched_fork C p s)"
| core_nice: "core_step env C s (snd (sys_nice env C n s))"
| core_setprio: "rt_mutex_setprio C p pr s = Some s' \<Longrightarrow> core_step env C s s'"
| core_setscheduler: "core_step env C s (snd (sched_setscheduler1 env C p pol pr user s))"

lemma core_step_ok:
  assumes C: "\<And>c. params_contract (C c)" and env: "getprio_ok env"
    and step: "core_step env C s s'" and ok: "tasks_ok s"
  shows "tasks_ok s'"
  using step
proof cases
  case core_tick
  show ?thesis by (rule tasks_okI [OF scheduler_tick_params [OF C core_tick] ok])
next
  case core_schedule
  show ?thesis by (rule tasks_okI [OF schedule_params(1) [OF C core_schedule] ok])
next
  case core_yield
  show ?thesis by (rule tasks_okI [OF schedule_params(2) [OF C core_yield] ok])
next
  case core_wake
  show ?thesis by (rule tasks_okI [OF try_to_wake_up_params [OF C core_wake] ok])
next
  case core_wake_new
  show ?thesis by (rule tasks_okI [OF wake_up_new_task_params [OF C core_wake_new] ok])
next
  case core_fork
  show ?thesis unfolding core_fork(1) by (rule sched_fork_ok [OF C ok core_fork(2,3)])
next
  case core_nice
  show ?thesis unfolding core_nice by (rule sys_nice_ok [OF C ok])
next
  case core_setprio
  show ?thesis by (rule rt_mutex_setprio_ok [OF C ok core_setprio])
next
  case core_setscheduler
  show ?thesis unfolding core_setscheduler by (rule sched_setscheduler1_ok [OF C ok env])
qed

lemma core_steps_ok:
  assumes C: "\<And>c. params_contract (C c)" and env: "getprio_ok env"
    and steps: "(core_step env C)\<^sup>*\<^sup>* s s'" and ok: "tasks_ok s"
  shows "tasks_ok s'"
  using steps ok by induction (simp_all add: core_step_ok [OF C env])

lemma weight_tables_length: "length prio_to_weight = 40" "length prio_to_wmult = 40"
  by (simp_all add: prio_to_weight_def prio_to_wmult_def)

lemma tasks_ok_weight_index:
  assumes "tasks_ok s"
  shows "nat (static_prio (task s p) - MAX_RT_PRIO) < 40"
proof -
  have "task_ok (task s p)" using assms by (simp add: tasks_ok_def)
  then have "100 \<le> static_prio (task s p)" "static_prio (task s p) < 140" by (simp_all add: task_ok_def)
  then show ?thesis by (simp add: prio_defs nat_less_iff)
qed

end
