(* ===== verification/Sched_Pick.thy ===== *)
theory Sched_Pick
  imports Sched_Core Rt_Pick
begin

text \<open>
  The choice of the next task over all classes, on top of the contract every class keeps
  for its own pick.
\<close>

section \<open>What the core relies on of the classes outside the repository\<close>

text \<open>
  \<open>I\<close> and \<open>R\<close> give, for the classes outside the repository, their invariant and their
  runnable tasks. The chain of classes goes from the stop class through the two classes of
  the repository and the fair class to the idle class, which always has a task.
\<close>

definition ext_chain :: "'s ext_classes \<Rightarrow> bool" where
  "ext_chain X \<longleftrightarrow>
     cls_next (stop_class_ops X) = Some rt_sched_class \<and>
     cls_next (fair_class_ops X) = Some idle_sched_class \<and>
     cls_next (idle_class_ops X) = None"

definition ext_pick_ok ::
  "'s ext_classes \<Rightarrow> (sched_class_id \<Rightarrow> 's \<Rightarrow> bool) \<Rightarrow> (sched_class_id \<Rightarrow> 's \<Rightarrow> tid set) \<Rightarrow> bool" where
  "ext_pick_ok X I R \<longleftrightarrow>
     ext_chain X \<and>
     pick_contract (stop_class_ops X) (I stop_sched_class) (R stop_sched_class) \<and>
     pick_contract (fair_class_ops X) (I fair_sched_class) (R fair_sched_class) \<and>
     pick_contract (idle_class_ops X) (I idle_sched_class) (R idle_sched_class) \<and>
     (\<forall>s. I idle_sched_class s \<longrightarrow> R idle_sched_class s \<noteq> {})"

fun class_inv ::
  "kenv \<Rightarrow> rt_ent set \<Rightarrow> (sched_class_id \<Rightarrow> 'a ksys_scheme \<Rightarrow> bool) \<Rightarrow> sched_class_id \<Rightarrow>
     'a ksys_scheme \<Rightarrow> bool" where
  "class_inv env U I rt_sched_class s = rt_class_inv env U s"
| "class_inv env U I wrr_sched_class s = wrr_inv env s"
| "class_inv env U I c s = I c s"

fun class_runnable ::
  "rt_ent set \<Rightarrow> (sched_class_id \<Rightarrow> 'a ksys_scheme \<Rightarrow> tid set) \<Rightarrow> sched_class_id \<Rightarrow>
     'a ksys_scheme \<Rightarrow> tid set" where
  "class_runnable U R rt_sched_class s = rt_runnables U s"
| "class_runnable U R wrr_sched_class s = set (wq s)"
| "class_runnable U R c s = R c s"

text \<open>The position of a class in the chain.\<close>

fun class_rank :: "sched_class_id \<Rightarrow> nat" where
  "class_rank stop_sched_class = 0"
| "class_rank rt_sched_class = 1"
| "class_rank wrr_sched_class = 2"
| "class_rank fair_sched_class = 3"
| "class_rank idle_sched_class = 4"

text \<open>The count of queued tasks of the run queue: those of each class, the fair ones as the fair class counts them.\<close>

definition nr_running_ok ::
  "rt_ent set \<Rightarrow> (sched_class_id \<Rightarrow> 'a ksys_scheme \<Rightarrow> tid set) \<Rightarrow> 'a ksys_scheme \<Rightarrow> bool" where
  "nr_running_ok U R s \<longleftrightarrow>
     finite (R stop_sched_class s) \<and>
     card (R stop_sched_class s) + card (rt_queued U s) + length (wq s) < 2 ^ 32 \<and>
     nr_running (rq s) =
       of_nat (card (R stop_sched_class s) + card (rt_queued U s) + length (wq s)) + cfs_h_nr_running (rq s)"

section \<open>The contract of every class in the table\<close>

lemma class_table_pick:
  assumes "ext_pick_ok X I R"
  shows "pick_contract (class_table env X c) (class_inv env U I c) (class_runnable U R c)"
proof (cases c)
  case rt_sched_class
  have "class_inv env U I rt_sched_class = rt_class_inv env U"
    "class_runnable U R rt_sched_class = rt_runnables U" by (simp_all add: fun_eq_iff)
  then show ?thesis using rt_cls.pick_contract_axioms rt_sched_class by simp
next
  case wrr_sched_class
  have "class_inv env U I wrr_sched_class = wrr_inv env"
    "class_runnable U R wrr_sched_class = (\<lambda>s. set (wq s))" by (simp_all add: fun_eq_iff)
  then show ?thesis using wrr_cls.pick_contract_axioms wrr_sched_class by simp
next
  case stop_sched_class
  have "class_inv env U I stop_sched_class = I stop_sched_class"
    "class_runnable U R stop_sched_class = R stop_sched_class" by (simp_all add: fun_eq_iff)
  then show ?thesis using assms stop_sched_class by (simp add: ext_pick_ok_def)
next
  case fair_sched_class
  have "class_inv env U I fair_sched_class = I fair_sched_class"
    "class_runnable U R fair_sched_class = R fair_sched_class" by (simp_all add: fun_eq_iff)
  then show ?thesis using assms fair_sched_class by (simp add: ext_pick_ok_def)
next
  case idle_sched_class
  have "class_inv env U I idle_sched_class = I idle_sched_class"
    "class_runnable U R idle_sched_class = R idle_sched_class" by (simp_all add: fun_eq_iff)
  then show ?thesis using assms idle_sched_class by (simp add: ext_pick_ok_def)
qed

lemma class_next:
  assumes "ext_chain X"
  shows "cls_next (class_table env X c) =
    (case c of stop_sched_class \<Rightarrow> Some rt_sched_class | rt_sched_class \<Rightarrow> Some wrr_sched_class
     | wrr_sched_class \<Rightarrow> Some fair_sched_class | fair_sched_class \<Rightarrow> Some idle_sched_class
     | idle_sched_class \<Rightarrow> None)"
  using assms by (cases c) (simp_all add: ext_chain_def rt_sched_class_ops_def wrr_sched_class_ops_def)

lemma class_next_rank:
  assumes "ext_chain X" "cls_next (class_table env X c) = Some d"
  shows "class_rank d = Suc (class_rank c)"
  using assms(2) unfolding class_next [OF assms(1)] by (cases c) auto

lemma class_next_None:
  assumes "ext_chain X" "cls_next (class_table env X c) = None"
  shows "c = idle_sched_class"
  using assms(2) unfolding class_next [OF assms(1)] by (cases c) auto

lemma class_rank_inject: "class_rank c = class_rank d \<longleftrightarrow> c = d"
  by (cases c; cases d) simp_all

section \<open>Picking over the classes\<close>

text \<open>A task of class \<open>c\<close> is picked, and no class before it has one to run.\<close>

definition picks_first ::
  "kenv \<Rightarrow> 'a ksys_scheme ext_classes \<Rightarrow> rt_ent set \<Rightarrow>
     (sched_class_id \<Rightarrow> 'a ksys_scheme \<Rightarrow> tid set) \<Rightarrow> 'a ksys_scheme \<Rightarrow> (tid \<times> 'a ksys_scheme) option \<Rightarrow> bool" where
  "picks_first env X U R s r \<longleftrightarrow>
     (\<exists>c p s'. r = Some (p, s') \<and> pick_next_task_op (class_table env X c) s = Some (Some p, s') \<and>
        p \<in> class_runnable U R c s \<and> (\<forall>d. class_rank d < class_rank c \<longrightarrow> class_runnable U R d s = {}))"

lemma pick_classes_first:
  assumes ext: "ext_pick_ok X I R" and inv: "\<And>c. class_inv env U I c s"
    and before: "\<And>d. class_rank d < class_rank c \<Longrightarrow> class_runnable U R d s = {}"
  shows "picks_first env X U R s (pick_classes (class_table env X) c s)"
  using before
proof (induction "4 - class_rank c" arbitrary: c)
  case (Suc n)
  note IH = Suc.hyps(1) and n = Suc.hyps(2) and bef = Suc.prems
  note con = class_table_pick [OF ext, of env c U]
  show ?case
  proof (cases rule: pick_contract.pick_cases [OF con inv [of c]])
    case 1
    have chain: "ext_chain X" using ext by (simp add: ext_pick_ok_def)
    obtain d where d: "cls_next (class_table env X c) = Some d"
      using class_next_None [OF chain, of env c] n by (cases "cls_next (class_table env X c)") auto
    note rank = class_next_rank [OF chain d]
    have "class_runnable U R e s = {}" if "class_rank e < class_rank d" for e
      using that bef 1(2) class_rank_inject [of e c] rank by (cases "class_rank e < class_rank c") auto
    from IH [OF _ this] n rank
    have "picks_first env X U R s (pick_classes (class_table env X) d s)" by simp
    then show ?thesis by (simp add: pick_classes.simps [of _ c] 1 d)
  next
    case (2 p s')
    then have "pick_classes (class_table env X) c s = Some (p, s')" by (simp add: pick_classes.simps)
    with 2 bef show ?thesis unfolding picks_first_def by blast
  qed
next
  case 0
  then have c: "c = idle_sched_class" by (cases c) auto
  have ne: "class_runnable U R c s \<noteq> {}" using ext inv [of c] by (simp add: c ext_pick_ok_def)
  obtain p s' where p: "pick_next_task_op (class_table env X c) s = Some (Some p, s')" "p \<in> class_runnable U R c s"
    by (cases rule: pick_contract.pick_cases [OF class_table_pick [OF ext, of env c U] inv [of c]]) (use ne in auto)
  then have "pick_classes (class_table env X) c s = Some (p, s')" by (simp add: pick_classes.simps)
  with p 0 show ?case unfolding picks_first_def by blast
qed

text \<open>When the fair tasks are all there are, the other queues are empty.\<close>

lemma nr_running_fair_only:
  assumes ok: "nr_running_ok U R s" and U: "finite U" and eq: "nr_running (rq s) = cfs_h_nr_running (rq s)"
  shows "R stop_sched_class s = {}" "rt_runnables U s = {}" "wq s = []"
proof -
  let ?n = "card (R stop_sched_class s) + card (rt_queued U s) + length (wq s)"
  have "(of_nat ?n :: ulong) = 0" using ok eq by (simp add: nr_running_ok_def)
  then have "?n = 0" using ok of_nat_eq_0_iff_small [of ?n, where 'a = 32] by (simp add: nr_running_ok_def)
  moreover have "finite (rt_queued U s)"
  proof (rule finite_subset)
    show "rt_queued U s \<subseteq> (\<lambda>e. case e of RtTask p \<Rightarrow> p | RtGroup g \<Rightarrow> 0) ` U"
      by (force simp: rt_queued_def)
  qed (use U in simp)
  ultimately show "R stop_sched_class s = {}" "rt_runnables U s = {}" "wq s = []"
    using ok by (auto simp: nr_running_ok_def rt_runnables_def rt_queued_def rt_runnable_def)
qed

lemma pick_next_task_first:
  assumes ext: "ext_pick_ok X I R" and inv: "\<And>c. class_inv env U I c s" and ok: "nr_running_ok U R s"
  shows "picks_first env X U R s (pick_next_task (class_table env X) s)"
proof (cases "nr_running (rq s) = cfs_h_nr_running (rq s)")
  case False
  then show ?thesis
    using pick_classes_first [OF ext inv, where c = stop_sched_class]
    by (simp add: pick_next_task_def sched_class_highest_def)
next
  case True
  have "rt_class_inv env U s" using inv [of rt_sched_class] by simp
  then have "finite U" by (simp add: rt_class_inv_def rt_inv_ex_def ents_ok_def)
  note e = nr_running_fair_only [OF ok this True]
  have before: "class_runnable U R d s = {}" if "class_rank d < class_rank fair_sched_class" for d
    using that e by (cases d) auto
  show ?thesis
  proof (cases rule: pick_contract.pick_cases [OF class_table_pick [OF ext] inv, of fair_sched_class])
    case 1
    then show ?thesis
      using True pick_classes_first [OF ext inv, where c = stop_sched_class]
      by (simp add: pick_next_task_def sched_class_highest_def)
  next
    case (2 p s')
    then have "pick_next_task (class_table env X) s = Some (p, s')"
      using True by (simp add: pick_next_task_def)
    with 2 before show ?thesis unfolding picks_first_def by blast
  qed
qed

text \<open>The class of the woken task comes before that of the running one.\<close>

lemma class_before_rank:
  assumes "ext_chain X" "class_rank c \<le> class_rank a" "class_rank c \<le> class_rank b"
  shows "class_before (class_table env X) c a b = Some (class_rank b < class_rank a)"
  using assms(2,3)
proof (induction "4 - class_rank c" arbitrary: c rule: less_induct)
  case less
  consider "c = a" | "c = b" "c \<noteq> a" | "c \<noteq> a" "c \<noteq> b" by blast
  then show ?case
  proof cases
    case 3
    then have lt: "class_rank c < class_rank a" "class_rank c < class_rank b"
      using less.prems class_rank_inject by (metis le_neq_implies_less)+
    then have "class_rank c < 4" by (cases a) auto
    then obtain d where d: "cls_next (class_table env X c) = Some d"
      using class_next_None [OF assms(1), of env c] by (cases "cls_next (class_table env X c)") auto
    note rank = class_next_rank [OF assms(1) d]
    show ?thesis
      using less.hyps [of d] lt rank \<open>class_rank c < 4\<close> 3 d by (simp add: class_before.simps [of _ c])
  qed (use less.prems class_rank_inject [of a b] in \<open>subst class_before.simps, auto\<close>)+
qed

lemma class_before_highest:
  "ext_chain X \<Longrightarrow> class_before (class_table env X) sched_class_highest a b = Some (class_rank b < class_rank a)"
  by (rule class_before_rank) (simp_all add: sched_class_highest_def)

end
