(* ===== verification/Sched_Flow.thy ===== *)
theory Sched_Flow
  imports Sched_Frame Sched_Pick
begin

text \<open>
  How the parts of the core work together on tasks of the weighted round-robin class: a
  wake-up puts the task at the tail of its list, and a tick at the end of a slice with the
  following call of the scheduler hands the processor to the next task of the list.
\<close>

section \<open>The processor load is always computed\<close>

lemma decay_loop_total:
  assumes "idx < 5" "j \<le> 7" "unat m < 2 ^ (7 - j)"
  shows "\<exists>l. decay_loop load m idx j = Some l"
  using assms
proof (induction load m idx j rule: decay_loop.induct)
  case (1 load m idx j)
  show ?case
  proof (cases "m = 0")
    case True
    then show ?thesis by (simp add: decay_loop.simps)
  next
    case False
    with "1.prems"(2,3) have j: "j < 7" by (cases "j = 7") (auto simp: unat_eq_zero)
    then have "(2 :: nat) ^ (7 - j) = 2 * 2 ^ (7 - (j + 1))"
      by (metis Suc_diff_Suc Suc_eq_plus1 power_Suc)
    then have h: "unat (drop_bit 1 m) < 2 ^ (7 - (j + 1))"
      using "1.prems"(3) by (simp only: One_nat_def unat_half)
    obtain d where d: "table_at degrade_factor idx j = Some d"
      using table_at_degrade [OF "1.prems"(1), of j] j by auto
    show ?thesis
    proof (cases "m mod 2 = 0")
      case True
      have "decay_loop load m idx j = decay_loop load (drop_bit 1 m) idx (j + 1)"
        using False True by (subst decay_loop.simps) simp
      with "1.IH"(2) [OF False _ "1.prems"(1) _ h] True j show ?thesis by simp
    next
      case odd: False
      have "decay_loop load m idx j = decay_loop (drop_bit DEGRADE_SHIFT (load * d)) (drop_bit 1 m) idx (j + 1)"
        using False odd d by (subst decay_loop.simps) simp
      with "1.IH"(1) [OF False odd d "1.prems"(1) _ h] j show ?thesis by simp
    qed
  qed
qed

lemma decay_load_missed_total:
  assumes "idx < 5"
  shows "\<exists>l. decay_load_missed load missed idx = Some l"
proof (cases "ucast (degrade_zero_ticks ! idx) \<le> missed")
  case True
  then show ?thesis using assms by (auto simp: decay_load_missed_def degrade_zero_ticks_def)
next
  case False
  then have "unat missed < unat (ucast (degrade_zero_ticks ! idx) :: ulong)"
    by (simp add: word_less_nat_alt [symmetric] not_le)
  then have m: "unat missed < 2 ^ (7 - 0)" using degrade_zero_ticks_le [OF assms] by simp
  have len: "length degrade_zero_ticks = 5" by (simp add: degrade_zero_ticks_def)
  show ?thesis
    using decay_loop_total [OF assms _ m] assms False by (simp add: decay_load_missed_def len)
qed

lemma cpu_load_loop_total:
  assumes "length cl = 5"
  shows "\<exists>cl'. cpu_load_loop (CPU_LOAD_IDX_MAX - 1) this pending cl = Some cl'"
proof -
  have "\<exists>l. cpu_load_entry this pending i (cl ! i) = Some l" if "1 \<le> i" "i \<le> 4" for i
    using decay_load_missed_total [of i "cl ! i" "pending - 1"] that
    by (auto simp: cpu_load_entry_def Let_def)
  then have "cpu_load_entry this pending i (cl ! i) = Some (the (cpu_load_entry this pending i (cl ! i)))"
    if "1 \<le> i" "i \<le> 4" for i
    using that by fastforce
  from cpu_load_loop_eq [OF assms this] show ?thesis by blast
qed

text \<open>What the load accounting leaves alone.\<close>

lemma update_cpu_load_active_frame:
  assumes "length (cpu_load (rq s)) = 5"
  obtains s' where "update_cpu_load_active env s = Some s'" "task s' = task s" "rt_rqs s' = rt_rqs s"
    "wrr_rq_of (rq s') = wrr_rq_of (rq s)" "nr_running (rq s') = nr_running (rq s)"
    "cfs_h_nr_running (rq s') = cfs_h_nr_running (rq s)" "curr (rq s') = curr (rq s)"
    "stop (rq s') = stop (rq s)" "nr_switches (rq s') = nr_switches (rq s)"
proof -
  obtain s1 where s1: "update_cpu_load s = Some s1" "task s1 = task s" "rt_rqs s1 = rt_rqs s"
    "wrr_rq_of (rq s1) = wrr_rq_of (rq s)" "nr_running (rq s1) = nr_running (rq s)"
    "cfs_h_nr_running (rq s1) = cfs_h_nr_running (rq s)" "curr (rq s1) = curr (rq s)"
    "stop (rq s1) = stop (rq s)" "nr_switches (rq s1) = nr_switches (rq s)"
  proof (cases "jiffies s = last_load_update_tick (rq s)")
    case True
    then show thesis
      by (intro that [of "upd_rq (\<lambda>r. r\<lparr>nr_load_updates := nr_load_updates r + 1\<rparr>) s"])
         (simp_all add: update_cpu_load_def Let_def)
  next
    case False
    obtain cl where "cpu_load_loop (CPU_LOAD_IDX_MAX - 1) (lw_weight (rq_load (rq s)))
        (jiffies s - last_load_update_tick (rq s)) ((cpu_load (rq s))[0 := lw_weight (rq_load (rq s))]) = Some cl"
      using cpu_load_loop_total assms by (metis length_list_update)
    then show thesis
      using False
      by (intro that [of "upd_rq (\<lambda>r. r\<lparr>nr_load_updates := nr_load_updates r + 1,
            last_load_update_tick := jiffies s, cpu_load := cl\<rparr>) s"])
         (simp_all add: update_cpu_load_def Let_def upd_rq_def)
  qed
  show thesis
    using s1 by (intro that [of "calc_load_account_active env s1"])
      (simp_all add: update_cpu_load_active_def calc_load_account_active_def calc_load_fold_active_def Let_def)
qed

section \<open>Waking a task of the class\<close>

lemma ENQUEUE_WAKEUP_tail: "(ENQUEUE_WAKEUP OR ENQUEUE_WAKING) AND ENQUEUE_HEAD = 0"
  by (simp add: ENQUEUE_WAKEUP_def ENQUEUE_WAKING_def ENQUEUE_HEAD_def)

lemma enqueue_task_wrr_frame:
  "on_rq (task (enqueue_task_wrr env p fl s) q) = on_rq (task s q)"
  "sched_class (task (enqueue_task_wrr env p fl s) q) = sched_class (task s q)"
  "t_state (task (enqueue_task_wrr env p fl s) q) = t_state (task s q)"
  "curr (rq (enqueue_task_wrr env p fl s)) = curr (rq s)"
  "rt_rqs (enqueue_task_wrr env p fl s) = rt_rqs s"
  by (simp_all add: wrr_defs Let_def)

lemma ttwu_activate_wrr:
  fixes s :: "'a ksys_scheme" and env X p
  assumes "sched_class (task s p) = wrr_sched_class"
  defines "s' \<equiv> ttwu_activate (class_table env X) p (ENQUEUE_WAKEUP OR ENQUEUE_WAKING) s"
  shows "wq s' = wq s @ [p]" "on_rq (task s' q) = (q = p \<or> on_rq (task s q))"
    "need_resched (task s' q) = need_resched (task s q)" "sched_class (task s' q) = sched_class (task s q)"
    "t_state (task s' q) = t_state (task s q)"
    "curr (rq s') = curr (rq s)" "nr_running (rq s') = nr_running (rq s) + 1"
    "wrr_inv env s \<Longrightarrow> p \<notin> set (wq s) \<Longrightarrow> task_addr p \<Longrightarrow> wrr_inv env s'"
proof -
  define t where "t = emit (SchedInfoQueued p) (update_rq_clock
      (if task_contributes_to_load (task s p)
       then upd_rq (\<lambda>r. r\<lparr>nr_uninterruptible := nr_uninterruptible r - 1\<rparr>) s else s))"
  have t: "task t = task s" "wrr_rq_of (rq t) = wrr_rq_of (rq s)" "curr (rq t) = curr (rq s)"
    "nr_running (rq t) = nr_running (rq s)"
    by (simp_all add: t_def)
  have e: "enqueue_task_op (wrr_sched_class_ops env) = enqueue_task_wrr env" by (simp add: wrr_sched_class_ops_def)
  let ?e = "enqueue_task_wrr env p (ENQUEUE_WAKEUP OR ENQUEUE_WAKING) t"
  define u where "u = upd_task p (\<lambda>t. t\<lparr>on_rq := True\<rparr>) ?e"
  have s': "s' = (if t_flags (task u p) AND PF_WQ_WORKER \<noteq> 0 then emit (WqWorkerWakingUp p) u else u)"
    using assms(1)
    unfolding s'_def ttwu_activate_def activate_task_def enqueue_task_def Let_def t_def u_def
    by (simp add: e)
  have eq: "rq s' = rq ?e" "task s' q = task u q" for q by (simp_all add: s' u_def)
  show "wq s' = wq s @ [p]" "curr (rq s') = curr (rq s)" "nr_running (rq s') = nr_running (rq s) + 1"
    by (simp_all add: eq enqueue_task_wrr_effect enqueue_task_wrr_frame ENQUEUE_WAKEUP_tail t)
  show "on_rq (task s' q) = (q = p \<or> on_rq (task s q))"
    "need_resched (task s' q) = need_resched (task s q)" "sched_class (task s' q) = sched_class (task s q)"
    "t_state (task s' q) = t_state (task s q)"
    by (simp_all add: eq u_def enqueue_task_wrr_effect enqueue_task_wrr_frame t)
  assume inv: "wrr_inv env s" and p: "p \<notin> set (wq s)" "task_addr p"
  have "wrr_inv env t = wrr_inv env s" by (rule wrr_inv_cong) (simp_all add: t)
  then have "wrr_inv env ?e" using inv p by (intro wrr_inv_enqueue) (simp_all add: t)
  moreover have "wrr_inv env s' = wrr_inv env ?e" by (rule wrr_inv_cong) (simp_all add: eq u_def)
  ultimately show "wrr_inv env s'" by simp
qed

text \<open>
  The check for preemption by a woken task of the class: within the class nothing changes;
  otherwise the running task is to be rescheduled when its class comes later.
\<close>

lemma check_preempt_curr_wrr_task:
  fixes s :: "'a ksys_scheme"
  assumes X: "ext_chain X" and p: "sched_class (task s p) = wrr_sched_class"
  obtains s' where "check_preempt_curr (class_table env X) p fl s = Some s'"
    "rt_rqs s' = rt_rqs s" "wrr_rq_of (rq s') = wrr_rq_of (rq s)" "curr (rq s') = curr (rq s)"
    "nr_running (rq s') = nr_running (rq s)"
    "\<And>q. task s' q = (task s q)\<lparr>need_resched := need_resched (task s q) \<or>
       q = curr (rq s) \<and> class_rank wrr_sched_class < class_rank (sched_class (task s (curr (rq s))))\<rparr>"
proof -
  let ?c = "curr (rq s)"
  define b where "b = (class_rank wrr_sched_class < class_rank (sched_class (task s ?c)))"
  define s1 where "s1 = (if b then resched_task ?c s else s)"
  define s' where "s' = (if on_rq (task s1 (curr (rq s1))) \<and> test_tsk_need_resched s1 (curr (rq s1))
                   then upd_rq (\<lambda>r. r\<lparr>skip_clock_update := 1\<rparr>) s1 else s1)"
  have s1: "task s1 q = (task s q)\<lparr>need_resched := need_resched (task s q) \<or> q = ?c \<and> b\<rparr>" "rq s1 = rq s"
    "rt_rqs s1 = rt_rqs s" for q
    by (simp_all add: s1_def resched_task_def set_tsk_need_resched_def)
  have "check_preempt_curr (class_table env X) p fl s = Some s'"
  proof (cases "sched_class (task s ?c) = wrr_sched_class")
    case True
    then show ?thesis
      using p by (simp add: check_preempt_curr_def Let_def s'_def s1_def b_def wrr_sched_class_ops_def
          check_preempt_curr_wrr_def)
  next
    case False
    then show ?thesis
      using p by (simp add: check_preempt_curr_def Let_def s'_def s1_def b_def class_before_highest [OF X])
  qed
  moreover have "task s' = task s1" "rt_rqs s' = rt_rqs s1" "wrr_rq_of (rq s') = wrr_rq_of (rq s1)"
    "curr (rq s') = curr (rq s1)" "nr_running (rq s') = nr_running (rq s1)"
    by (simp_all add: s'_def)
  ultimately show thesis using that s1 unfolding b_def by metis
qed

lemma ttwu_stat_frame:
  "rq (ttwu_stat p fl s) = (rq s)\<lparr>ttwu_count := ttwu_count (rq s) + 1\<rparr>"
  "on_rq (task (ttwu_stat p fl s) q) = on_rq (task s q)"
  "t_state (task (ttwu_stat p fl s) q) = t_state (task s q)"
  "need_resched (task (ttwu_stat p fl s) q) = need_resched (task s q)"
  "wrr (task (ttwu_stat p fl s) q) = wrr (task s q)"
  "sched_task_group (task (ttwu_stat p fl s) q) = sched_task_group (task s q)"
  by (simp_all add: ttwu_stat_def Let_def)

lemma try_to_wake_up_wrr_task:
  fixes s :: "'a ksys_scheme"
  assumes X: "ext_chain X" and inv: "wrr_inv env s" and p: "sched_class (task s p) = wrr_sched_class"
    and sleeps: "\<not> on_rq (task s p)" "p \<notin> set (wq s)" "task_addr p" and match: "t_state (task s p) AND state \<noteq> 0"
  obtains s' where "try_to_wake_up (class_table env X) p state fl s = Some (True, s')"
    "wrr_inv env s'" "wq s' = wq s @ [p]" "on_rq (task s' p)" "t_state (task s' p) = TASK_RUNNING"
    "curr (rq s') = curr (rq s)" "nr_running (rq s') = nr_running (rq s) + 1"
    "\<And>q. need_resched (task s' q) \<longleftrightarrow> need_resched (task s q) \<or>
       q = curr (rq s) \<and> class_rank wrr_sched_class < class_rank (sched_class (task s (curr (rq s))))"
proof -
  define t where "t = ttwu_activate (class_table env X) p (ENQUEUE_WAKEUP OR ENQUEUE_WAKING) s"
  note act = ttwu_activate_wrr [OF p, of env X, folded t_def]
  have pt: "sched_class (task t p) = wrr_sched_class" using p act(4) by simp
  obtain u where u: "check_preempt_curr (class_table env X) p 0 t = Some u"
    "rt_rqs u = rt_rqs t" "wrr_rq_of (rq u) = wrr_rq_of (rq t)" "curr (rq u) = curr (rq t)"
    "nr_running (rq u) = nr_running (rq t)"
    "\<And>q. task u q = (task t q)\<lparr>need_resched := need_resched (task t q) \<or>
       q = curr (rq t) \<and> class_rank wrr_sched_class < class_rank (sched_class (task t (curr (rq t))))\<rparr>"
    by (rule check_preempt_curr_wrr_task [OF X pt, of env 0]) blast
  define v where "v = upd_task p (\<lambda>t. t\<lparr>t_state := TASK_RUNNING\<rparr>) u"
  have v: "try_to_wake_up (class_table env X) p state fl s = Some (True, ttwu_stat p fl v)"
    using sleeps(1) match u(1)
    by (simp add: try_to_wake_up_eq ttwu_queue_def ttwu_do_activate_def ttwu_do_wakeup_def t_def v_def)
  have "wrr_inv env (ttwu_stat p fl v) = wrr_inv env t"
    by (rule wrr_inv_cong) (simp_all add: ttwu_stat_frame v_def u)
  then have "wrr_inv env (ttwu_stat p fl v)" using act(8) inv sleeps(2,3) by simp
  then show thesis
    using v by (intro that [of "ttwu_stat p fl v"]) (simp_all add: ttwu_stat_frame v_def u act)
qed

section \<open>The tick and the scheduler\<close>

lemma task_tick_wrr_frame:
  "curr (rq (task_tick_wrr env p s)) = curr (rq s)" "stop (rq (task_tick_wrr env p s)) = stop (rq s)"
  "nr_running (rq (task_tick_wrr env p s)) = nr_running (rq s)"
  "cfs_h_nr_running (rq (task_tick_wrr env p s)) = cfs_h_nr_running (rq s)"
  "nr_switches (rq (task_tick_wrr env p s)) = nr_switches (rq s)"
  "rt_rqs (task_tick_wrr env p s) = rt_rqs s"
  "sched_class (task (task_tick_wrr env p s) q) = sched_class (task s q)"
  "t_state (task (task_tick_wrr env p s) q) = t_state (task s q)"
  "on_rq (task (task_tick_wrr env p s) q) = on_rq (task s q)"
  by (simp_all add: task_tick_wrr_def requeue_task_wrr_def update_curr_wrr_def Let_def)

lemma scheduler_tick_wrr:
  fixes s :: "'a ksys_scheme"
  assumes inv: "wrr_inv env s" and len: "length (cpu_load (rq s)) = 5"
    and c: "c = curr (rq s)" "sched_class (task s c) = wrr_sched_class"
  obtains t s' where "scheduler_tick env (class_table env X) s = Some s'"
    "s' = emit PerfEventTaskTick (task_tick_wrr env c t)" "task t = task s" "rt_rqs t = rt_rqs s"
    "wrr_rq_of (rq t) = wrr_rq_of (rq s)" "nr_running (rq t) = nr_running (rq s)"
    "cfs_h_nr_running (rq t) = cfs_h_nr_running (rq s)" "curr (rq t) = curr (rq s)"
    "stop (rq t) = stop (rq s)" "nr_switches (rq t) = nr_switches (rq s)"
    "wrr_inv env t"
proof -
  define s0 where "s0 = update_rq_clock (emit SchedClockTick s)"
  have len0: "length (cpu_load (rq s0)) = 5"
    using len by (simp add: s0_def update_rq_clock_def update_rq_clock_task_def Let_def)
  have sw: "nr_switches (rq s0) = nr_switches (rq s)"
    by (simp add: s0_def update_rq_clock_def update_rq_clock_task_def Let_def)
  obtain t where t: "update_cpu_load_active env s0 = Some t" "task t = task s0" "rt_rqs t = rt_rqs s0"
    "wrr_rq_of (rq t) = wrr_rq_of (rq s0)" "nr_running (rq t) = nr_running (rq s0)"
    "cfs_h_nr_running (rq t) = cfs_h_nr_running (rq s0)" "curr (rq t) = curr (rq s0)"
    "stop (rq t) = stop (rq s0)" "nr_switches (rq t) = nr_switches (rq s0)"
    by (rule update_cpu_load_active_frame [OF len0, of env])
  have "wrr_inv env t = wrr_inv env s" by (rule wrr_inv_cong) (simp_all add: t s0_def)
  then have "wrr_inv env t" using inv by simp
  moreover have "scheduler_tick env (class_table env X) s = Some (emit PerfEventTaskTick (task_tick_wrr env c t))"
    using t(1) c by (simp add: scheduler_tick_def Let_def s0_def [symmetric] t(2) wrr_sched_class_ops_def)
      (simp add: s0_def wrr_sched_class_ops_def)
  ultimately show thesis
    using t sw by (intro that [of "emit PerfEventTaskTick (task_tick_wrr env c t)" t]) (simp_all add: s0_def)
qed

text \<open>The stop class has nothing to run while no stop task is set.\<close>

definition stop_idle :: "'a ksys_scheme ext_classes \<Rightarrow> bool" where
  "stop_idle X \<longleftrightarrow> (\<forall>s. stop (rq s) = None \<longrightarrow> pick_next_task_op (stop_class_ops X) s = Some (None, s))"

lemma pick_next_task_wrr_turn:
  assumes X: "ext_chain X" "stop_idle X" and s: "stop (rq s) = None" "rt_nr_running (rt_rqs s []) = 0"
    "nr_running (rq s) \<noteq> cfs_h_nr_running (rq s)" and inv: "wrr_inv env s" and q: "wq s = n # ns"
  shows "pick_next_task (class_table env X) s = Some (n, s)"
proof -
  have "pick_classes (class_table env X) wrr_sched_class s = Some (n, s)"
    by (subst pick_classes.simps) (simp add: wrr_sched_class_ops_def pick_next_task_wrr_eq [OF inv] q)
  then have "pick_classes (class_table env X) rt_sched_class s = Some (n, s)"
    using s(2) by (subst pick_classes.simps) (simp add: rt_sched_class_ops_def pick_next_task_rt_def)
  then have "pick_classes (class_table env X) stop_sched_class s = Some (n, s)"
    using X s(1) by (subst pick_classes.simps) (simp add: stop_idle_def ext_chain_def)
  then show ?thesis using s(3) by (simp add: pick_next_task_def sched_class_highest_def)
qed

lemma put_prev_wrr:
  fixes s :: "'a ksys_scheme" and env X p
  assumes "sched_class (task s p) = wrr_sched_class"
  defines "s' \<equiv> put_prev_task (class_table env X) p s"
  shows "rt_rqs s' = rt_rqs s" "wrr_rq_of (rq s') = wrr_rq_of (rq s)" "curr (rq s') = curr (rq s)"
    "stop (rq s') = stop (rq s)" "nr_running (rq s') = nr_running (rq s)"
    "cfs_h_nr_running (rq s') = cfs_h_nr_running (rq s)" "nr_switches (rq s') = nr_switches (rq s)"
    "wrr (task s' q) = wrr (task s q)" "sched_task_group (task s' q) = sched_task_group (task s q)"
    "need_resched (task s' q) = need_resched (task s q)" "t_mm (task s' q) = t_mm (task s q)"
proof -
  define t where "t = (if on_rq (task s p) \<or> skip_clock_update (rq s) < 0 then update_rq_clock s else s)"
  have t: "task t = task s" "rt_rqs t = rt_rqs s" "wrr_rq_of (rq t) = wrr_rq_of (rq s)" "curr (rq t) = curr (rq s)"
    "stop (rq t) = stop (rq s)" "nr_running (rq t) = nr_running (rq s)"
    "cfs_h_nr_running (rq t) = cfs_h_nr_running (rq s)" "nr_switches (rq t) = nr_switches (rq s)"
    by (simp_all add: t_def update_rq_clock_def update_rq_clock_task_def Let_def)
  have s': "s' = put_prev_task_wrr env p t"
    using assms(1) unfolding s'_def put_prev_task_def Let_def t_def [symmetric]
    by (simp add: t(1) wrr_sched_class_ops_def)
  show "rt_rqs s' = rt_rqs s" "wrr_rq_of (rq s') = wrr_rq_of (rq s)" "curr (rq s') = curr (rq s)"
    "stop (rq s') = stop (rq s)" "nr_running (rq s') = nr_running (rq s)"
    "cfs_h_nr_running (rq s') = cfs_h_nr_running (rq s)" "nr_switches (rq s') = nr_switches (rq s)"
    "wrr (task s' q) = wrr (task s q)" "sched_task_group (task s' q) = sched_task_group (task s q)"
    "need_resched (task s' q) = need_resched (task s q)" "t_mm (task s' q) = t_mm (task s q)"
    by (simp_all add: s' put_prev_task_wrr_def t update_curr_wrr_def Let_def)
qed

lemma switch_to_next_frame:
  fixes s :: "'a ksys_scheme" and prev n b
  assumes "prev \<noteq> n"
  defines "s' \<equiv> switch_to_next b prev n s"
  shows "curr (rq s') = n" "nr_switches (rq s') = nr_switches (rq s) + 1"
    "wrr_rq_of (rq s') = wrr_rq_of (rq s)" "wrr (task s' q) = wrr (task s q)"
    "sched_task_group (task s' q) = sched_task_group (task s q)"
    "need_resched (task s' q) = (q \<noteq> prev \<and> need_resched (task s q))"
proof -
  let ?t = "upd_task prev (\<lambda>t. if b then t\<lparr>nvcsw := nvcsw t + 1\<rparr> else t\<lparr>nivcsw := nivcsw t + 1\<rparr>)
     (upd_rq (\<lambda>r. r\<lparr>nr_switches := nr_switches r + 1, curr := n\<rparr>)
       (upd_rq (\<lambda>r. r\<lparr>skip_clock_update := 0\<rparr>) (clear_tsk_need_resched prev s)))"
  have s': "s' = context_switch prev n ?t" using assms(1) by (simp add: s'_def switch_to_next_def Let_def)
  have cs: "curr (rq (context_switch prev n t)) = curr (rq t)"
    "nr_switches (rq (context_switch prev n t)) = nr_switches (rq t)"
    "wrr_rq_of (rq (context_switch prev n t)) = wrr_rq_of (rq t)"
    "wrr (task (context_switch prev n t) q) = wrr (task t q)"
    "sched_task_group (task (context_switch prev n t) q) = sched_task_group (task t q)"
    "need_resched (task (context_switch prev n t) q) = need_resched (task t q)" for t :: "'a ksys_scheme"
    by (simp_all add: context_switch_def prepare_task_switch_def finish_task_switch_def Let_def split: option.split)
  show "curr (rq s') = n" "nr_switches (rq s') = nr_switches (rq s) + 1"
    "wrr_rq_of (rq s') = wrr_rq_of (rq s)" "wrr (task s' q) = wrr (task s q)"
    "sched_task_group (task s' q) = sched_task_group (task s q)"
    "need_resched (task s' q) = (q \<noteq> prev \<and> need_resched (task s q))"
    by (simp_all add: s' cs clear_tsk_need_resched_def)
qed

lemma schedule_wrr_turn:
  fixes s :: "'a ksys_scheme"
  assumes X: "ext_chain X" "stop_idle X" and s: "stop (rq s) = None" "rt_nr_running (rt_rqs s []) = 0"
    "nr_running (rq s) \<noteq> cfs_h_nr_running (rq s)" and inv: "wrr_inv env s" and q: "wq s = n # ns"
    and c: "sched_class (task s (curr (rq s))) = wrr_sched_class" "t_state (task s (curr (rq s))) = 0"
    and n: "n \<noteq> curr (rq s)" "\<not> need_resched (task s n)"
  obtains s' where "schedule env (class_table env X) s = Some s'" "curr (rq s') = n" "wq s' = wq s"
    "wrr_inv env s'" "nr_switches (rq s') = nr_switches (rq s) + 1" "\<And>q. wrr (task s' q) = wrr (task s q)"
    "\<And>q. need_resched (task s' q) = (q \<noteq> curr (rq s) \<and> need_resched (task s q))"
proof -
  let ?c = "curr (rq s)" and ?C = "class_table env X"
  define u where "u = put_prev_task ?C ?c (schedule_debug s)"
  have cd: "sched_class (task (schedule_debug s) ?c) = wrr_sched_class" using c by (simp add: schedule_debug_def)
  note u = put_prev_wrr [OF cd, of env X, folded u_def]
  have "wrr_inv env u = wrr_inv env s" by (rule wrr_inv_cong) (simp_all add: u schedule_debug_def)
  then have invu: "wrr_inv env u" using inv by simp
  have p: "pick_next_task ?C u = Some (n, u)"
    by (rule pick_next_task_wrr_turn [OF X _ _ _ invu, of n ns]) (use s q in \<open>simp_all add: u schedule_debug_def\<close>)
  define s' where "s' = switch_to_next False ?c n u"
  note sw = switch_to_next_frame [OF n(1) [symmetric], of False u, folded s'_def]
  have "schedule_round env ?C s = Some s'"
    using c(2) p by (simp add: schedule_round_eq Let_def u_def [symmetric] s'_def)
  then have "schedule1 env ?C s = Some s'"
    using n by (subst schedule1.simps) (simp add: test_tsk_need_resched_def sw u schedule_debug_def)
  then have "schedule env ?C s = Some s'" using c(2) by (simp add: schedule_def sched_submit_work_def)
  moreover have "wrr_inv env s' = wrr_inv env u" by (rule wrr_inv_cong) (simp_all add: sw)
  ultimately show thesis
    using invu by (intro that [of s']) (simp_all add: sw u schedule_debug_def)
qed

end
