(* ===== verification/Sched_Core_Correct.thy ===== *)
theory Sched_Core_Correct
  imports Sched_Type Sched_Flow Rt_Correct Wrr_Correct
begin

text \<open>
  Correctness of the scheduler core: the choice over all classes, wake-ups, the tick with the
  following reschedule, changes of policy, and the ranges of all scheduling parameters.
\<close>

section \<open>An evaluated state\<close>

text \<open>
  Classes outside the repository for the evaluations: the stop class runs the stop task when
  there is one, the fair class has no tasks, and the idle class runs the idle task.
\<close>

definition ex_class :: "sched_class_id option \<Rightarrow> ('s \<Rightarrow> tid option) \<Rightarrow> 's sched_class_ops" where
  "ex_class nxt pick =
     \<lparr>cls_next = nxt, enqueue_task_op = (\<lambda>p fl s. s), dequeue_task_op = (\<lambda>p fl s. s),
      yield_task_op = (\<lambda>s. s), check_preempt_curr_op = (\<lambda>p fl s. s),
      pick_next_task_op = (\<lambda>s. Some (pick s, s)), put_prev_task_op = (\<lambda>p s. s),
      set_curr_task_op = (\<lambda>s. s), task_tick_op = (\<lambda>p s. s), task_fork_op = None,
      switched_from_op = None, switched_to_op = (\<lambda>p s. s), prio_changed_op = (\<lambda>p old s. s),
      get_rr_interval_op = (\<lambda>p s. Some 0)\<rparr>"

definition ex_ext :: "gsys ext_classes" where
  "ex_ext =
     \<lparr>stop_class_ops = ex_class (Some rt_sched_class) (\<lambda>s. stop (rq s)),
      fair_class_ops = ex_class (Some idle_sched_class) (\<lambda>s. None),
      idle_class_ops = ex_class None (\<lambda>s. Some (idle (rq s)))\<rparr>"

fun ex_runnable :: "sched_class_id \<Rightarrow> gsys \<Rightarrow> tid set" where
  "ex_runnable stop_sched_class s = set_option (stop (rq s))"
| "ex_runnable idle_sched_class s = {idle (rq s)}"
| "ex_runnable c s = {}"

text \<open>
  Task 3, of the background group, and task 2 are tasks of the weighted round-robin class and
  queued in that order; task 3 runs. Task 5 of the class sleeps.
\<close>

definition ex_wrr_task :: task_struct where
  "ex_wrr_task = ex_task\<lparr>policy := SCHED_WRR, sched_class := wrr_sched_class\<rparr>"

definition ex_core0 :: gsys where
  "ex_core0 = ksys.extend
     (ex_ksys\<lparr>task := (\<lambda>p. ex_task)(2 := ex_wrr_task\<lparr>on_rq := True\<rparr>,
                3 := ex_wrr_task\<lparr>on_rq := True, sched_task_group := [1]\<rparr>,
                5 := ex_wrr_task\<lparr>t_state := TASK_INTERRUPTIBLE\<rparr>)\<rparr>)
     (gsys.fields (\<lambda>g. []) [2, 3, 5] \<lparr>rt_period = 1000000000, rtb_runtime = 950000000, rt_timer_active = False\<rparr>)"

definition ex_core1 :: gsys where
  "ex_core1 = enqueue_task_wrr ex_env 2 0 (enqueue_task_wrr ex_env 3 0 ex_core0)"

definition ex_core :: gsys where
  "ex_core = init_tg_rt_entry [] (init_rt_rq [] (upd_rq (\<lambda>r. r\<lparr>curr := 3\<rparr>) ex_core1))"

lemma ex_core0_fields:
  "task ex_core0 = (\<lambda>p. ex_task)(2 := ex_wrr_task\<lparr>on_rq := True\<rparr>,
     3 := ex_wrr_task\<lparr>on_rq := True, sched_task_group := [1]\<rparr>,
     5 := ex_wrr_task\<lparr>t_state := TASK_INTERRUPTIBLE\<rparr>)"
  "rq ex_core0 = ex_rq" "rt_rqs ex_core0 = (\<lambda>g. ex_rt_rq)"
  by (simp_all add: ex_core0_def ex_ksys_def ksys.defs gsys.defs)

lemma enqueue_task_wrr_rest:
  "stop (rq (enqueue_task_wrr env p fl s)) = stop (rq s)" "idle (rq (enqueue_task_wrr env p fl s)) = idle (rq s)"
  "cfs_h_nr_running (rq (enqueue_task_wrr env p fl s)) = cfs_h_nr_running (rq s)"
  "cpu_load (rq (enqueue_task_wrr env p fl s)) = cpu_load (rq s)"
  "same_params s (enqueue_task_wrr env p fl s)"
  by (simp_all add: wrr_defs Let_def same_params_def task_params_def)

lemma rt_init_fields:
  "task (init_tg_rt_entry [] (init_rt_rq [] s)) = task s" "rq (init_tg_rt_entry [] (init_rt_rq [] s)) = rq s"
  "rt_nr_running (rt_rqs (init_tg_rt_entry [] (init_rt_rq [] s)) []) = rt_nr_running (rt_rqs s [])"
  by (simp_all add: init_tg_rt_entry_def init_rt_rq_def Let_def)

lemma ex_core1_fields:
  "wq ex_core1 = [3, 2]" "nr_running (rq ex_core1) = 2" "cfs_h_nr_running (rq ex_core1) = 0"
  "stop (rq ex_core1) = None" "idle (rq ex_core1) = 0" "cpu_load (rq ex_core1) = [0, 0, 0, 0, 0]"
  "rt_rqs ex_core1 = (\<lambda>g. ex_rt_rq)" "slice_of ex_core1 3 = 1"
  "need_resched (task ex_core1 q) = False" "t_state (task ex_core1 q) = t_state (task ex_core0 q)"
  "on_rq (task ex_core1 q) = on_rq (task ex_core0 q)" "sched_class (task ex_core1 q) = sched_class (task ex_core0 q)"
  by (simp_all add: ex_core1_def enqueue_task_wrr_effect enqueue_task_wrr_frame enqueue_task_wrr_rest ex_core0_fields
      ex_rq_def ex_wrr_task_def ex_task_def ENQUEUE_HEAD_def ex_group_weight ex_weight_slice)

lemma ex_core_fields:
  "wq ex_core = [3, 2]" "nr_running (rq ex_core) = 2" "cfs_h_nr_running (rq ex_core) = 0"
  "stop (rq ex_core) = None" "idle (rq ex_core) = 0" "length (cpu_load (rq ex_core)) = 5" "curr (rq ex_core) = 3"
  "slice_of ex_core 3 = 1" "need_resched (task ex_core q) = False"
  "t_state (task ex_core q) = (if q = 5 then TASK_INTERRUPTIBLE else 0)"
  "on_rq (task ex_core q) = (q = 2 \<or> q = 3)"
  "sched_class (task ex_core q) = (if q \<in> {2, 3, 5} then wrr_sched_class else fair_sched_class)"
  "rt_nr_running (rt_rqs ex_core []) = 0"
  by (simp_all add: ex_core_def rt_init_fields ex_core1_fields ex_core0_fields ex_wrr_task_def ex_task_def ex_rt_rq_def)

lemma ex_core_wrr_inv: "wrr_inv ex_env ex_core"
proof -
  have "wrr_inv ex_env ex_core0" by (simp add: wrr_inv_def ex_core0_fields ex_rq_def)
  then have "wrr_inv ex_env ex_core1" unfolding ex_core1_def
    by (intro wrr_inv_enqueue)
       (simp_all add: enqueue_task_wrr_effect ex_core0_fields ex_rq_def task_addr_def ENQUEUE_HEAD_def)
  moreover have "wrr_inv ex_env ex_core = wrr_inv ex_env ex_core1"
    by (rule wrr_inv_cong) (simp_all add: ex_core_def rt_init_fields)
  ultimately show ?thesis by simp
qed

lemma ex_core_rt_inv: "rt_class_inv ex_env {} ex_core"
proof -
  have "rt_reachable ex_env {} ex_core" unfolding ex_core_def
    by (rule rt_reach_init) (simp_all add: ex_core1_fields ex_core0_fields ex_wrr_task_def ex_rt_rq_def)
  then show ?thesis using ex_first_bit_ok by (rule rt_reachable_inv)
qed

lemma ex_core_tasks_ok: "tasks_ok ex_core"
proof -
  have ok: "task_ok ex_task" "task_ok ex_wrr_task"
    by (simp_all add: task_ok_def valid_policy_def ex_task_def ex_wrr_task_def rt_policy_def policy_defs
        normal_prio_of_def normal_prio1_def task_has_rt_policy_def prio_defs)
  have p: "task_params (task ex_core0 q) = task_params (if q \<in> {2, 3, 5} then ex_wrr_task else ex_task)" for q
    by (simp add: ex_core0_fields task_params_def)
  have "task_ok (task ex_core0 q)" for q using task_ok_params [OF p [of q]] ok by simp
  then have 0: "tasks_ok ex_core0" by (simp add: tasks_ok_def)
  have 1: "same_params ex_core0 ex_core1"
    unfolding ex_core1_def by (rule same_params_trans [OF enqueue_task_wrr_rest(5) enqueue_task_wrr_rest(5)])
  have "same_params ex_core1 ex_core" by (rule same_params_task) (simp add: ex_core_def rt_init_fields)
  with 1 have "same_params ex_core0 ex_core" by (rule same_params_trans)
  then show ?thesis using 0 by (rule tasks_okI)
qed

lemma ex_ext_chain: "ext_chain ex_ext"
  by (simp add: ext_chain_def ex_ext_def ex_class_def)

lemma ex_ext_stop_idle: "stop_idle ex_ext"
  by (simp add: stop_idle_def ex_ext_def ex_class_def)

lemma ex_ext_pick_ok: "ext_pick_ok ex_ext (\<lambda>c s. True) ex_runnable"
proof -
  have c: "pick_contract (ex_class nxt pick) (\<lambda>s. True) R" if "\<And>s. R s = set_option (pick s)" for nxt pick and R :: "gsys \<Rightarrow> tid set"
    by unfold_locales (auto simp: ex_class_def that)
  show ?thesis
    unfolding ext_pick_ok_def by (simp add: ex_ext_chain) (simp add: ex_ext_def c)
qed

lemma ex_ext_params_ok: "ext_params_ok ex_ext"
proof -
  have "params_contract (ex_class nxt pick)" for nxt and pick :: "gsys \<Rightarrow> tid option"
    by unfold_locales (auto simp: ex_class_def)
  then show ?thesis by (simp add: ext_params_ok_def ex_ext_def)
qed

lemma ex_getprio_ok: "getprio_ok ex_env"
  by (simp add: getprio_ok_def ex_env_def)

section \<open>The choice over all classes\<close>

text \<open>
  C2. The pick of the core always returns. The task picked is a runnable task of the first
  class of the chain that has one, chosen by that class: a stop task before every real-time
  task, real-time before weighted round-robin, that before fair, and the idle task last.
  The shortcut for a run queue with fair tasks only gives the same choice as the loop.
\<close>

theorem pick_next_task_by_class:
  assumes "ext_pick_ok X I R" "\<forall>c. class_inv env U I c s" "nr_running_ok U R s"
  shows "\<exists>c p s'. pick_next_task (class_table env X) s = Some (p, s') \<and>
           pick_next_task_op (class_table env X c) s = Some (Some p, s') \<and> p \<in> class_runnable U R c s \<and>
           (\<forall>d. class_rank d < class_rank c \<longrightarrow> class_runnable U R d s = {})"
  using pick_next_task_first [OF assms(1) _ assms(3), of env] assms(2) unfolding picks_first_def by blast

theorem pick_next_task_by_class_witness:
  "\<exists>c p s'. pick_next_task (class_table ex_env ex_ext) ex_core = Some (p, s') \<and>
     p \<in> class_runnable {} ex_runnable c ex_core \<and>
     (\<forall>d. class_rank d < class_rank c \<longrightarrow> class_runnable {} ex_runnable d ex_core = {})"
proof -
  have inv: "\<forall>c. class_inv ex_env {} (\<lambda>c s. True) c ex_core"
  proof
    show "class_inv ex_env {} (\<lambda>c s. True) c ex_core" for c
      by (cases c) (simp_all add: ex_core_rt_inv ex_core_wrr_inv)
  qed
  have "rt_queued {} ex_core = {}" by (simp add: rt_queued_def)
  then have "nr_running_ok {} ex_runnable ex_core"
    by (simp add: nr_running_ok_def ex_core_fields)
  from pick_next_task_by_class [OF ex_ext_pick_ok inv this] show ?thesis by blast
qed

section \<open>Wake-ups\<close>

text \<open>
  C18. Waking a sleeping task of the weighted round-robin class: when its state is not among
  those to be woken, nothing happens. Otherwise it becomes the last task of the list, is on
  the run queue and in state \<^verbatim>\<open>TASK_RUNNING\<close>, the counts of the class and of the run
  queue stay right, and the running task is marked for rescheduling exactly when its class
  comes after the weighted round-robin class (or it was marked before).
\<close>

theorem try_to_wake_up_wrr:
  fixes s :: "'a ksys_scheme"
  assumes "ext_chain X" "wrr_inv env s" "sched_class (task s p) = wrr_sched_class"
    and "\<not> on_rq (task s p)" "p \<notin> set (queue (wrr_rq_of (rq s)))" "task_addr p"
  shows "if t_state (task s p) AND state = 0
         then try_to_wake_up (class_table env X) p state fl s = Some (False, s)
         else \<exists>s'. try_to_wake_up (class_table env X) p state fl s = Some (True, s') \<and>
           wrr_inv env s' \<and> queue (wrr_rq_of (rq s')) = queue (wrr_rq_of (rq s)) @ [p] \<and>
           on_rq (task s' p) \<and> t_state (task s' p) = TASK_RUNNING \<and>
           curr (rq s') = curr (rq s) \<and> nr_running (rq s') = nr_running (rq s) + 1 \<and>
           (\<forall>q. need_resched (task s' q) \<longleftrightarrow> need_resched (task s q) \<or> q = curr (rq s) \<and>
              sched_class (task s q) \<in> {fair_sched_class, idle_sched_class})"
proof (cases "t_state (task s p) AND state = 0")
  case True
  then show ?thesis by (simp add: try_to_wake_up_eq)
next
  case False
  have cls: "class_rank wrr_sched_class < class_rank c \<longleftrightarrow> c \<in> {fair_sched_class, idle_sched_class}" for c
    by (cases c) simp_all
  show ?thesis
    unfolding if_not_P [OF False]
    by (rule try_to_wake_up_wrr_task [OF assms(1-6) False, of fl]) (use cls in blast)
qed

theorem try_to_wake_up_wrr_witness:
  "\<exists>s'. try_to_wake_up (class_table ex_env ex_ext) 5 TASK_NORMAL 0 ex_core = Some (True, s') \<and>
     queue (wrr_rq_of (rq s')) = [3, 2, 5] \<and> t_state (task s' 5) = TASK_RUNNING \<and>
     \<not> need_resched (task s' 3)"
proof -
  have ne: "t_state (task ex_core 5) AND TASK_NORMAL \<noteq> 0"
    by (simp add: ex_core_fields TASK_NORMAL_def TASK_INTERRUPTIBLE_def TASK_UNINTERRUPTIBLE_def)
  have "\<exists>s'. try_to_wake_up (class_table ex_env ex_ext) 5 TASK_NORMAL 0 ex_core = Some (True, s') \<and>
      wrr_inv ex_env s' \<and> queue (wrr_rq_of (rq s')) = queue (wrr_rq_of (rq ex_core)) @ [5] \<and>
      on_rq (task s' 5) \<and> t_state (task s' 5) = TASK_RUNNING \<and>
      curr (rq s') = curr (rq ex_core) \<and> nr_running (rq s') = nr_running (rq ex_core) + 1 \<and>
      (\<forall>q. need_resched (task s' q) \<longleftrightarrow> need_resched (task ex_core q) \<or> q = curr (rq ex_core) \<and>
         sched_class (task ex_core q) \<in> {fair_sched_class, idle_sched_class})"
    using try_to_wake_up_wrr [OF ex_ext_chain ex_core_wrr_inv, of 5 TASK_NORMAL 0] ne
    by (simp add: ex_core_fields task_addr_def)
  then show ?thesis by (auto simp: ex_core_fields)
qed

section \<open>The tick and the reschedule\<close>

text \<open>
  C1. The last tick of a slice and the following call of the scheduler, together: when the
  running task of the weighted round-robin class heads the list, \<open>n\<close> is next in it, and no
  class before has a task, the tick returns and marks the running task; the call of
  \<^verbatim>\<open>schedule\<close> returns with \<open>n\<close> running, the old task at the tail of the list with a
  refilled slice and no mark, and one more switch counted.
\<close>

theorem tick_and_schedule_rotate:
  fixes s :: "'a ksys_scheme"
  assumes "ext_chain X" "stop_idle X" "wrr_inv env s" "queue (wrr_rq_of (rq s)) = c # n # ps"
    and "curr (rq s) = c" "sched_class (task s c) = wrr_sched_class" "t_state (task s c) = TASK_RUNNING"
    and "time_slice (wrr (task s c)) = 1" "\<not> need_resched (task s n)"
    and "stop (rq s) = None" "rt_nr_running (rt_rqs s []) = 0" "nr_running (rq s) \<noteq> cfs_h_nr_running (rq s)"
    and "length (cpu_load (rq s)) = 5"
  shows "\<exists>s1 s2. scheduler_tick env (class_table env X) s = Some s1 \<and> need_resched (task s1 c) \<and> curr (rq s1) = c \<and>
    schedule env (class_table env X) s1 = Some s2 \<and> curr (rq s2) = n \<and>
    queue (wrr_rq_of (rq s2)) = n # ps @ [c] \<and> wrr_inv env s2 \<and>
    time_slice (wrr (task s2 c)) = weight_slice env (weight (wrr (task s c))) \<and>
    \<not> need_resched (task s2 c) \<and> nr_switches (rq s2) = nr_switches (rq s) + 1"
proof -
  obtain t s1 where s1: "scheduler_tick env (class_table env X) s = Some s1"
    "s1 = emit PerfEventTaskTick (task_tick_wrr env c t)" and t: "task t = task s" "rt_rqs t = rt_rqs s"
    "wrr_rq_of (rq t) = wrr_rq_of (rq s)" "nr_running (rq t) = nr_running (rq s)"
    "cfs_h_nr_running (rq t) = cfs_h_nr_running (rq s)" "curr (rq t) = curr (rq s)"
    "stop (rq t) = stop (rq s)" "nr_switches (rq t) = nr_switches (rq s)" "wrr_inv env t"
    by (rule scheduler_tick_wrr [OF assms(3,13) assms(5) [symmetric] assms(6), of X])
  have d: "distinct (wq t)" using t(9) by (simp add: wrr_inv_def)
  then have ne: "n \<noteq> c" using assms(4) t(3) by auto
  have rot: "slice_ends t c" "c \<in> set (wq t)" "2 \<le> length (wq t)"
    using assms(4,8) by (simp_all add: slice_ends_def t)
  note tick = task_tick_wrr_effect [OF d, of env c] task_tick_wrr_frame [of env c t]
  have q: "wq s1 = n # ps @ [c]"
    using rot d assms(4) ne by (simp add: s1(2) tick t list_move_tail_hd)
  have "wrr_inv env s1 = wrr_inv env (task_tick_wrr env c t)" by (rule wrr_inv_cong) (simp_all add: s1(2))
  then have inv: "wrr_inv env s1" using wrr_inv_tick [OF t(9)] by simp
  have c1: "curr (rq s1) = c" by (simp add: s1(2) tick t assms(5))
  have mark: "need_resched (task s1 c)" "\<not> need_resched (task s1 n)"
    using rot ne assms(9) by (simp_all add: s1(2) tick t)
  obtain s2 where s2: "schedule env (class_table env X) s1 = Some s2" "curr (rq s2) = n" "wq s2 = wq s1"
    "wrr_inv env s2" "nr_switches (rq s2) = nr_switches (rq s1) + 1" "\<And>q. wrr (task s2 q) = wrr (task s1 q)"
    "\<And>q. need_resched (task s2 q) = (q \<noteq> curr (rq s1) \<and> need_resched (task s1 q))"
    by (rule schedule_wrr_turn [OF assms(1,2) _ _ _ inv q])
       (use assms mark ne c1 in \<open>simp_all add: s1(2) tick t TASK_RUNNING_def\<close>)
  have "time_slice (wrr (task s2 c)) = weight_slice env (weight (wrr (task s c)))"
    using rot by (simp add: s2(6) s1(2) tick t)
  moreover have "nr_switches (rq s2) = nr_switches (rq s) + 1" by (simp add: s2(5) s1(2) tick t)
  moreover have "\<not> need_resched (task s2 c)" by (simp add: s2(7) c1)
  ultimately show ?thesis using s1(1) mark(1) c1 s2(1-4) q by auto
qed

theorem tick_and_schedule_rotate_witness:
  "\<exists>s1 s2. scheduler_tick ex_env (class_table ex_env ex_ext) ex_core = Some s1 \<and>
     schedule ex_env (class_table ex_env ex_ext) s1 = Some s2 \<and> curr (rq s2) = 2 \<and>
     queue (wrr_rq_of (rq s2)) = [2, 3]"
  using tick_and_schedule_rotate [OF ex_ext_chain ex_ext_stop_idle ex_core_wrr_inv, of 3 2 "[]"]
  by (auto simp: ex_core_fields TASK_RUNNING_def)

section \<open>Changes of policy\<close>



text \<open>
  C16. Ranges. From a state in which all tasks are well typed, every sequence of ticks,
  reschedules, yields, wake-ups, forks, nice values, inherited priorities and policy
  changes, successful or not, leads to such a state: the policy is one of the six, the real-time priority is
  from 1 to 99 exactly for the real-time policies, the normal priority is the one of the
  policy, the priority is between 0 and \<^verbatim>\<open>MAX_PRIO\<close> and a real-time one for a task
  of the real-time class, and the static priority is an index of the weight tables.
\<close>

theorem core_tasks_well_typed:
  assumes "ext_params_ok X" "getprio_ok env" "tasks_ok s" "(core_step env (class_table env X))\<^sup>*\<^sup>* s s'"
  shows "valid_policy (policy (task s' p)) \<and>
    (if rt_policy (policy (task s' p)) then 1 \<le> rt_priority (task s' p) \<and> rt_priority (task s' p) \<le> 99
     else rt_priority (task s' p) = 0) \<and>
    normal_prio (task s' p) = normal_prio_of (task s' p) \<and>
    0 \<le> prio (task s' p) \<and> prio (task s' p) \<le> MAX_PRIO \<and>
    (sched_class (task s' p) = rt_sched_class \<longrightarrow> prio (task s' p) < MAX_RT_PRIO) \<and>
    MAX_RT_PRIO \<le> static_prio (task s' p) \<and>
    nat (static_prio (task s' p) - MAX_RT_PRIO) < length prio_to_weight \<and>
    nat (static_prio (task s' p) - MAX_RT_PRIO) < length prio_to_wmult"
proof -
  have ok: "tasks_ok s'"
    by (rule core_steps_ok [OF class_table_params [OF assms(1)] assms(2,4,3)])
  then have t: "task_ok (task s' p)" by (simp add: tasks_ok_def)
  have "100 \<le> static_prio (task s' p)" using t by (simp add: task_ok_def)
  with t tasks_ok_weight_index [OF ok, of p] show ?thesis
    unfolding weight_tables_length by (simp add: task_ok_def prio_defs)
qed

theorem core_tasks_well_typed_witness:
  "rt_priority (task (snd (sys_nice ex_env (class_table ex_env ex_ext) 5
     (snd (sched_setscheduler1 ex_env (class_table ex_env ex_ext) 7 SCHED_FIFO 20 False ex_core)))) 7) \<le> 99"
proof -
  let ?C = "class_table ex_env ex_ext"
  let ?s1 = "snd (sched_setscheduler1 ex_env ?C 7 SCHED_FIFO 20 False ex_core)"
  have steps: "(core_step ex_env ?C)\<^sup>*\<^sup>* ex_core (snd (sys_nice ex_env ?C 5 ?s1))"
    by (rule converse_rtranclp_into_rtranclp, rule core_setscheduler, rule r_into_rtranclp, rule core_nice)
  show ?thesis
    using core_tasks_well_typed [OF ex_ext_params_ok ex_getprio_ok ex_core_tasks_ok steps, of 7] by (auto split: if_splits)
qed

section \<open>Forks of tasks of the weighted round-robin class\<close>

text \<open>
  C36. A child of a task of the weighted round-robin class is put into the fair class, and
  keeps the policy \<^verbatim>\<open>SCHED_WRR\<close>. The calls that would repair it do nothing: setting the
  policy \<^verbatim>\<open>SCHED_WRR\<close> again, with or without the reset flag, succeeds and leaves
  every part of the state as it was, the class included.
\<close>

theorem sched_fork_wrr_leaves_class:
  fixes s :: "'a ksys_scheme"
  assumes "ext_params_ok X" "tasks_ok s" "p \<noteq> curr (rq s)"
    and "task_params (task s p) = task_params (task s (curr (rq s)))"
    and "policy (task s (curr (rq s))) = SCHED_WRR" "sched_class (task s (curr (rq s))) = wrr_sched_class"
  shows "sched_class (task (sched_fork (class_table env X) p s) p) = fair_sched_class \<and>
    policy (task (sched_fork (class_table env X) p s) p) = SCHED_WRR \<and>
    (\<forall>(t :: 'a ksys_scheme) pol. policy (task t p) = SCHED_WRR \<and> stop (rq t) \<noteq> Some p \<and>
       pol \<in> {SCHED_WRR, SCHED_WRR OR SCHED_RESET_ON_FORK} \<longrightarrow>
       sched_setscheduler_nocheck env (class_table env X) p pol 0 t = (Inr (), t))"
proof -
  have same: "same_params (upd_task p forked s) (sched_fork (class_table env X) p s)"
    by (rule sched_fork_params [OF class_table_params [OF assms(1)] assms(3,4)])
  have pol: "policy (task s p) = SCHED_WRR" "task_ok (task s p)"
    using assms(2,4,5) by (simp_all add: task_params_def tasks_ok_def)
  have nrt: "\<not> rt_policy SCHED_WRR" by (simp add: rt_policy_def policy_defs)
  have f: "sched_class (forked (task s p)) = fair_sched_class" "policy (forked (task s p)) = SCHED_WRR"
    using pol nrt
    by (simp_all add: forked_def Let_def task_has_rt_policy_def rt_prio_def prio_defs task_ok_def
        normal_prio_of_def normal_prio1_def NICE_TO_PRIO_def)
  have "sched_setscheduler_nocheck env (class_table env X) p pol 0 t = (Inr (), t)"
    if h: "policy (task t p) = SCHED_WRR" "stop (rq t) \<noteq> Some p" "pol \<in> {SCHED_WRR, SCHED_WRR OR SCHED_RESET_ON_FORK}"
    for t :: "'a ksys_scheme" and pol
  proof -
    have "requested_policy (task t p) pol = Inr (SCHED_WRR, pol \<noteq> SCHED_WRR)"
      using h(3) by (auto simp: requested_policy_def SCHED_WRR_def SCHED_RESET_ON_FORK_def)
    then show ?thesis
      using h(1,2) nrt
      by (simp add: sched_setscheduler_nocheck_def sched_setscheduler1_def prio_defs)
  qed
  with same_paramsD(1,6) [OF same, of p] f show ?thesis by simp
qed

theorem sched_fork_wrr_leaves_class_witness:
  "sched_class (task (sched_fork (class_table ex_env ex_ext) 2 ex_core) 2) = fair_sched_class \<and>
   policy (task (sched_fork (class_table ex_env ex_ext) 2 ex_core) 2) = SCHED_WRR"
proof -
  have p: "task_params (task ex_core 2) = task_params ex_wrr_task" "task_params (task ex_core 3) = task_params ex_wrr_task"
    by (simp_all add: ex_core_def rt_init_fields ex_core1_def ex_core0_fields wrr_defs Let_def task_params_def)
  then have "policy (task ex_core 3) = SCHED_WRR" by (simp add: task_params_def ex_wrr_task_def)
  then show ?thesis
    using sched_fork_wrr_leaves_class [OF ex_ext_params_ok ex_core_tasks_ok, of 2 ex_env] p
    by (simp add: ex_core_fields)
qed

end
