(* ===== verification/Proc_Mem.thy ===== *)
theory Proc_Mem
  imports Kernel_Prelude
begin

text \<open>
  What the two modules that look into the memory of other processes share
  (\<^verbatim>\<open>mtest.c\<close> and \<^verbatim>\<open>watch.c\<close>): the walk through the page tables of a
  process on a 64-bit machine, memory as bytes, and the C strings they parse and print.

  The macros of the page tables belong to the kernel and are the record \<open>pgt\<close>; an entry is
  named by its address, and the three upper levels do not change while the modules run.
\<close>

section \<open>Page tables\<close>

definition PAGE_SIZE :: u64 where "PAGE_SIZE = 4096"

definition PAGE_MASK :: u64 where "PAGE_MASK = NOT (PAGE_SIZE - 1)"

record pgt =
  pgd_index :: "u64 \<Rightarrow> u64"
  pgd_none :: "u64 \<Rightarrow> bool"
  pgd_bad :: "u64 \<Rightarrow> bool"
  p4d_offset :: "u64 \<Rightarrow> u64 \<Rightarrow> u64"
  p4d_none :: "u64 \<Rightarrow> bool"
  p4d_bad :: "u64 \<Rightarrow> bool"
  pud_offset :: "u64 \<Rightarrow> u64 \<Rightarrow> u64"
  pud_none :: "u64 \<Rightarrow> bool"
  pud_bad :: "u64 \<Rightarrow> bool"
  pmd_offset :: "u64 \<Rightarrow> u64 \<Rightarrow> u64"
  pmd_none :: "u64 \<Rightarrow> bool"
  pmd_bad :: "u64 \<Rightarrow> bool"
  pte_offset_kernel :: "u64 \<Rightarrow> u64 \<Rightarrow> u64"

text \<open>
  The address of the lowest entry for \<open>addr\<close> below the top table \<open>pgd0\<close>, or \<open>None\<close> where the
  modules report that an entry of the path is missing. An entry has eight bytes.
\<close>

definition pte_walk :: "'a pgt_scheme \<Rightarrow> u64 \<Rightarrow> u64 \<Rightarrow> u64 option" where
  "pte_walk T pgd0 addr =
     (let pgd = pgd0 + 8 * pgd_index T addr in
      if pgd_none T pgd \<or> pgd_bad T pgd then None
      else
        let p4d = p4d_offset T pgd addr in
        if p4d_none T p4d \<or> p4d_bad T p4d then None
        else
          let pud = pud_offset T p4d addr in
          if pud_none T pud \<or> pud_bad T pud then None
          else
            let pmd = pmd_offset T pud addr in
            if pmd_none T pmd \<or> pmd_bad T pmd then None
            else
              let pte = pte_offset_kernel T pmd addr in
              if pte = 0 then None else Some pte)"

section \<open>Memory\<close>

text \<open>
  Kernel memory, byte by byte; a byte that is not mapped cannot be accessed. An
  \<^verbatim>\<open>unsigned long\<close> has eight bytes, the lowest first.
\<close>

type_synonym kmem = "u64 \<Rightarrow> u8 option"

primrec load_bytes :: "kmem \<Rightarrow> u64 \<Rightarrow> nat \<Rightarrow> u8 list option" where
  "load_bytes M a 0 = Some []"
| "load_bytes M a (Suc n) =
     (case M a of None \<Rightarrow> None
      | Some b \<Rightarrow> (case load_bytes M (a + 1) n of None \<Rightarrow> None | Some bs \<Rightarrow> Some (b # bs)))"

primrec word_of_bytes :: "u8 list \<Rightarrow> u64" where
  "word_of_bytes [] = 0"
| "word_of_bytes (b # bs) = ucast b + 256 * word_of_bytes bs"

definition load64 :: "kmem \<Rightarrow> u64 \<Rightarrow> u64 option" where
  "load64 M a = map_option word_of_bytes (load_bytes M a 8)"

primrec bytes_of_word :: "nat \<Rightarrow> u64 \<Rightarrow> u8 list" where
  "bytes_of_word 0 v = []"
| "bytes_of_word (Suc n) v = ucast v # bytes_of_word n (drop_bit 8 v)"

primrec store_bytes :: "kmem \<Rightarrow> u64 \<Rightarrow> u8 list \<Rightarrow> kmem option" where
  "store_bytes M a [] = Some M"
| "store_bytes M a (b # bs) =
     (if M a = None then None else store_bytes (M(a := Some b)) (a + 1) bs)"

definition store64 :: "kmem \<Rightarrow> u64 \<Rightarrow> u64 \<Rightarrow> kmem option" where
  "store64 M a v = store_bytes M a (bytes_of_word 8 v)"

section \<open>C strings\<close>

definition c_string :: "string \<Rightarrow> string" where
  "c_string buf = takeWhile (\<lambda>c. c \<noteq> CHR 0x00) buf"

text \<open>\<^verbatim>\<open>strsep\<close> with the delimiter \<^verbatim>\<open>" "\<close>: the token, and the rest of the string if there is one.\<close>

definition strsep :: "string option \<Rightarrow> (string \<times> string option) option" where
  "strsep iter =
     (case iter of
        None \<Rightarrow> None
      | Some s \<Rightarrow>
          (if CHR '' '' \<in> set s
           then Some (takeWhile (\<lambda>c. c \<noteq> CHR '' '') s, Some (tl (dropWhile (\<lambda>c. c \<noteq> CHR '' '') s)))
           else Some (s, None)))"

definition iter_size :: "string option \<Rightarrow> nat" where
  "iter_size iter = (case iter of None \<Rightarrow> 0 | Some s \<Rightarrow> Suc (length s))"

lemma strsep_decreases: "strsep iter = Some (t, iter') \<Longrightarrow> iter_size iter' < iter_size iter"
proof (cases iter)
  case (Some s)
  assume "strsep iter = Some (t, iter')"
  moreover have "length (tl (dropWhile (\<lambda>c. c \<noteq> CHR '' '') s)) < length s" if "CHR '' '' \<in> set s"
    using that length_dropWhile_le [of "\<lambda>c. c \<noteq> CHR '' ''" s]
    by (cases "dropWhile (\<lambda>c. c \<noteq> CHR '' '') s") auto
  ultimately show ?thesis using Some by (auto simp: strsep_def iter_size_def split: if_splits)
qed (simp add: strsep_def)

text \<open>The tokens of words without spaces, separated by single spaces and with one at the end.\<close>

lemma strsep_word:
  assumes "CHR '' '' \<notin> set w"
  shows "strsep (Some (w @ CHR '' '' # rest)) = Some (w, Some rest)"
proof -
  have t: "takeWhile (\<lambda>c. c \<noteq> CHR '' '') (w @ CHR '' '' # rest) = w"
    and d: "dropWhile (\<lambda>c. c \<noteq> CHR '' '') (w @ CHR '' '' # rest) = CHR '' '' # rest"
    using assms by (induction w) auto
  show ?thesis by (simp add: strsep_def t d)
qed

lemma strsep_end: "strsep (Some []) = Some ([], None)" "strsep None = None"
  by (simp_all add: strsep_def)

section \<open>Bytes\<close>

lemma length_bytes_of_word [simp]: "length (bytes_of_word n v) = n"
  by (induction n arbitrary: v) simp_all

lemma unat_ucast8: "unat (ucast (w :: u64) :: u8) = unat w mod 256"
  by (simp add: unsigned_ucast_eq take_bit_eq_mod)

lemma unat_ucast64: "unat (ucast (b :: u8) :: u64) = unat b"
proof -
  have "unat b < 2 ^ 8" using unsigned_less [of b, where 'a=nat] by simp
  then have "unat b < 2 ^ 64" by (rule less_le_trans) simp
  then show ?thesis by (simp only: unsigned_ucast_eq) (simp add: take_bit_nat_eq_self)
qed

lemma ucast_low_byte: "(ucast (ucast (b :: u8) + 256 * w :: u64) :: u8) = b"
proof -
  have b: "unat b < 256" using unsigned_less [of b, where 'a=nat] by simp
  have d: "(256 :: nat) dvd 2 ^ 64" by (rule dvdI [of _ _ "2 ^ 56"]) simp
  have m: "(256 * n) mod 2 ^ 64 mod 256 = (0 :: nat)" for n by (simp only: mod_mod_cancel [OF d]) simp
  have "unat (ucast b + 256 * w :: u64) mod 256 = (unat b + (256 * unat w) mod 2 ^ 64) mod 2 ^ 64 mod 256"
    by (simp only: unat_word_ariths unat_ucast64) simp
  also have "\<dots> = (unat b + (256 * unat w) mod 2 ^ 64 mod 256) mod 256"
    by (simp only: mod_mod_cancel [OF d] mod_add_right_eq)
  also have "\<dots> = unat b" using b by (simp only: m) simp
  finally show ?thesis by (simp only: word_unat_eq_iff unat_ucast8)
qed

definition mapped :: "kmem \<Rightarrow> u64 \<Rightarrow> nat \<Rightarrow> bool" where
  "mapped M a n \<longleftrightarrow> (\<forall>i<n. M (a + of_nat i) \<noteq> None)"

lemma mapped_Suc: "mapped M a (Suc n) \<longleftrightarrow> M a \<noteq> None \<and> mapped M (a + 1) n"
  by (simp add: mapped_def All_less_Suc2 add.assoc)

lemma load_bytes_mapped:
  "mapped M a n \<Longrightarrow> \<exists>bs. load_bytes M a n = Some bs \<and> (0 < n \<longrightarrow> M a = Some (hd bs))"
proof (induction n arbitrary: a)
  case (Suc n)
  then obtain bs where "load_bytes M (a + 1) n = Some bs" by (auto simp: mapped_Suc)
  with Suc.prems show ?case by (auto simp: mapped_Suc)
qed simp

lemma load64_low_byte:
  assumes "mapped M a 8"
  obtains v where "load64 M a = Some v" "M a = Some (ucast v)"
proof -
  have M: "M a \<noteq> None" "mapped M (a + 1) 7" using assms mapped_Suc [of M a 7] by simp_all
  obtain bs where "load_bytes M (a + 1) 7 = Some bs" using load_bytes_mapped [OF M(2)] by blast
  moreover obtain b where "M a = Some b" using M(1) by blast
  ultimately have "load_bytes M a (Suc 7) = Some (b # bs)" "M a = Some b"
    by (simp_all only: load_bytes.simps option.case)
  then show thesis
    by (intro that [of "word_of_bytes (b # bs)"]) (simp_all add: load64_def ucast_low_byte del: load_bytes.simps)
qed

text \<open>Storing bytes changes those bytes and no others.\<close>

lemma unat_Suc_pred: "d \<noteq> 0 \<Longrightarrow> unat (d :: u64) = Suc (unat (d - 1))"
  by (simp add: unat_minus_one unat_gt_0)

lemma store_bytes_mapped:
  assumes "length bs \<le> 8" "mapped M a (length bs)"
  shows "store_bytes M a bs =
    Some (\<lambda>x. if unat (x - a) < length bs then Some (bs ! unat (x - a)) else M x)"
  using assms
proof (induction bs arbitrary: M a)
  case (Cons b bs)
  let ?M = "M(a := Some b)"
  have m: "mapped ?M (a + 1) (length bs)" using Cons.prems(2) unfolding length_Cons mapped_Suc by (simp add: mapped_def)
  have d: "x - (a + 1) = x - a - 1" for x :: u64 by simp
  have "a - (a + 1) = - 1" by simp
  then have "unat (a - (a + 1)) = 2 ^ 64 - 1" by (simp only: unsigned_minus_1_eq_mask) (simp add: mask_eq_exp_minus_1)
  then have a: "\<not> unat (a - (a + 1)) < length bs" using Cons.prems(1) by simp
  have "(if unat (x - (a + 1)) < length bs then Some (bs ! unat (x - (a + 1))) else ?M x) =
      (if unat (x - a) < length (b # bs) then Some ((b # bs) ! unat (x - a)) else M x)" for x
  proof (cases "x = a")
    case True
    then show ?thesis using a by simp
  next
    case False
    then have "unat (x - a) = Suc (unat (x - (a + 1)))" using unat_Suc_pred [of "x - a"] by (simp only: d) simp
    then show ?thesis using False by simp
  qed
  note eq = this
  have "store_bytes M a (b # bs) = store_bytes ?M (a + 1) bs" using Cons.prems(2) by (auto simp: mapped_Suc)
  also have "\<dots> = Some (\<lambda>x. if unat (x - (a + 1)) < length bs then Some (bs ! unat (x - (a + 1))) else ?M x)"
    using Cons.prems(1) by (intro Cons.IH m) simp
  finally show ?case by (simp only: eq)
qed (simp add: mapped_def)

text \<open>A signed byte extended to eight bytes: the byte, then seven copies of its sign.\<close>

lemma bytes_of_word_nth: "i < n \<Longrightarrow> bytes_of_word n v ! i = ucast (drop_bit (8 * i) v)"
proof (induction n arbitrary: v i)
  case (Suc n)
  then show ?case by (cases i) (simp_all add: drop_bit_drop_bit add.commute)
qed simp

lemma sign_fill:
  assumes "1 \<le> i" "i < 8"
  shows "(ucast (drop_bit (8 * i) (scast (b :: u8) :: u64)) :: u8) = (if bit b 7 then - 1 else 0)"
proof (rule bit_eqI)
  fix j assume "possible_bit TYPE(u8) j"
  then have "j < 8" by simp
  then show "bit (ucast (drop_bit (8 * i) (scast b :: u64)) :: u8) j = bit (if bit b 7 then - 1 else 0 :: u8) j"
    using assms by (auto simp: bit_simps)
qed

lemma ucast_scast_byte: "(ucast (scast (b :: u8) :: u64) :: u8) = b"
  by (rule bit_eqI) (auto simp: bit_simps)

lemma store64_byte:
  assumes "mapped M a 8"
  shows "store64 M a (scast b) =
    Some (\<lambda>x. if x = a then Some b else if unat (x - a) < 8 then Some (if bit b 7 then - 1 else 0) else M x)"
proof -
  have "(if unat (x - a) < 8 then Some (bytes_of_word 8 (scast b) ! unat (x - a)) else M x) =
      (if x = a then Some b else if unat (x - a) < 8 then Some (if bit b 7 then - 1 else 0) else M x)" for x
  proof (cases "x = a")
    case True
    then show ?thesis by (simp add: bytes_of_word_nth ucast_scast_byte)
  next
    case False
    then have "1 \<le> unat (x - a)" by (simp add: unat_gt_0 Suc_le_eq)
    with False show ?thesis by (simp add: bytes_of_word_nth sign_fill)
  qed
  with assms show ?thesis by (simp add: store64_def store_bytes_mapped)
qed

end
