(* ===== verification/Mtest.thy ===== *)
theory Mtest
  imports Proc_Mem
begin

text \<open>
  The module \<^verbatim>\<open>project_memory space/mtest/mtest.c\<close>: commands written to
  \<^verbatim>\<open>/proc/mtest\<close> read or write a byte of the memory of a process, and the file returns
  the byte that was read.

  \<open>None\<close> is a crash: a null or unmapped pointer is followed, or an array is accessed
  outside its bounds. The kernel functions the module calls are the record \<open>mtest_env\<close>:
  \<^verbatim>\<open>kstrtoul\<close> in base 0 stores nothing when it fails, and its result is not
  tested, so that the variable keeps what the stack held (\<open>stack_pid\<close>, \<open>stack_addr\<close>,
  \<open>stack_content\<close>).
\<close>

section \<open>Data\<close>

definition MAX_SIZE :: nat where "MAX_SIZE = 128"

record mm_struct =
  mm_pgd :: u64

record mtask =
  task_mm :: "mm_struct option"

record mtest_env = pgt +
  kstrtoul :: "string \<Rightarrow> u64 option"
  find_task :: "u32 \<Rightarrow> mtask option"
  pte_page :: "u64 \<Rightarrow> u64"
  kmap_local_page :: "u64 \<Rightarrow> u64"
  user_writable :: "u64 \<Rightarrow> bool"
  stack_pid :: u64
  stack_addr :: u64
  stack_content :: u64

record mtest =
  output_buf :: "u8 list"
  out_len :: u32
  mem :: kmem
  ptes :: "u64 \<Rightarrow> u64"
  proc_ent :: bool

section \<open>The functions of mtest.c\<close>

text \<open>The pointer \<open>-1\<close> stands for an error of the walk.\<close>

definition get_addr :: "mtest_env \<Rightarrow> mtest \<Rightarrow> mtask option \<Rightarrow> u64 \<Rightarrow> u64 option" where
  "get_addr env s tsk addr =
     (case tsk of
        None \<Rightarrow> None
      | Some t \<Rightarrow>
          (case task_mm t of
             None \<Rightarrow> None
           | Some mm \<Rightarrow>
               (case pte_walk env (mm_pgd mm) addr of
                  None \<Rightarrow> Some (- 1)
                | Some pte \<Rightarrow>
                    (let kernel_addr = kmap_local_page env (pte_page env (ptes s pte));
                         kernel_base = kernel_addr AND PAGE_MASK;
                         kernel_offset = addr AND NOT PAGE_MASK
                     in Some (kernel_base OR kernel_offset)))))"

text \<open>\<^verbatim>\<open>strlen\<close> of an array of bytes that holds a zero.\<close>

definition strlen8 :: "u8 list \<Rightarrow> nat" where
  "strlen8 bs = length (takeWhile (\<lambda>b. b \<noteq> 0) bs)"

text \<open>
  The comparison in \<^verbatim>\<open>proc_read\<close> is one of unsigned 64-bit numbers, \<^verbatim>\<open>count\<close> is an
  \<^verbatim>\<open>int\<close>, and the copy always starts at the beginning of \<^verbatim>\<open>output\<close>. The result is
  an error or the bytes copied, with the new position.
\<close>

definition mtest_proc_read :: "mtest_env \<Rightarrow> u64 \<Rightarrow> u64 \<Rightarrow> mtest \<Rightarrow> ((errno + u8 list) \<times> u64 \<times> mtest) option" where
  "mtest_proc_read env len pos s =
     (let s = s\<lparr>out_len := of_nat (strlen8 (output_buf s))\<rparr>;
          rest = scast (out_len s) - pos;
          count = (if rest > len then ucast len else ucast rest) :: u32;
          n = scast count :: u64
      in if \<not> user_writable env n then Some (Inl EFAULT, pos, s)
         else if unat n > length (output_buf s) then None
         else Some (Inr (take (unat n) (output_buf s)), pos + n, s))"

text \<open>
  The loops over the arguments. The address is parsed as \<^verbatim>\<open>"0x"\<close> followed by the
  token, in a buffer of \<open>MAX_SIZE\<close> bytes.
\<close>

definition parse_addr :: "mtest_env \<Rightarrow> string \<Rightarrow> u64 \<Rightarrow> u64 option" where
  "parse_addr env token addr =
     (if 2 + length token + 1 > MAX_SIZE then None
      else Some (case kstrtoul env (''0x'' @ token) of None \<Rightarrow> addr | Some v \<Rightarrow> v))"

function read_args ::
  "mtest_env \<Rightarrow> string option \<Rightarrow> nat \<Rightarrow> u64 \<Rightarrow> u64 \<Rightarrow> (u64 \<times> u64) option" where
  "read_args env iter count target_pid addr =
     (case strsep iter of
        None \<Rightarrow> Some (target_pid, addr)
      | Some (token, iter) \<Rightarrow>
          if token = '''' then read_args env iter count target_pid addr
          else if count = 0 then
            read_args env iter (count + 1)
              (case kstrtoul env token of None \<Rightarrow> target_pid | Some v \<Rightarrow> v) addr
          else if count = 1 then
            (case parse_addr env token addr of
               None \<Rightarrow> None
             | Some a \<Rightarrow> read_args env iter (count + 1) target_pid a)
          else read_args env iter count target_pid addr)"
  by pat_completeness auto
termination
  by (relation "measure (\<lambda>(env, iter, c, p, a). iter_size iter)") (auto dest: strsep_decreases)

declare read_args.simps [simp del]

function write_args ::
  "mtest_env \<Rightarrow> string option \<Rightarrow> nat \<Rightarrow> u64 \<Rightarrow> u64 \<Rightarrow> u64 \<Rightarrow> (u64 \<times> u64 \<times> u64) option" where
  "write_args env iter count target_pid addr content =
     (case strsep iter of
        None \<Rightarrow> Some (target_pid, addr, content)
      | Some (token, iter) \<Rightarrow>
          if token = '''' then write_args env iter count target_pid addr content
          else if count = 0 then
            write_args env iter (count + 1)
              (case kstrtoul env token of None \<Rightarrow> target_pid | Some v \<Rightarrow> v) addr content
          else if count = 1 then
            (case parse_addr env token addr of
               None \<Rightarrow> None
             | Some a \<Rightarrow> write_args env iter (count + 1) target_pid a content)
          else if count = 2 then
            write_args env iter (count + 1) target_pid addr
              (case kstrtoul env token of None \<Rightarrow> content | Some v \<Rightarrow> v)
          else write_args env iter count target_pid addr content)"
  by pat_completeness auto
termination
  by (relation "measure (\<lambda>(env, iter, c, p, a, v). iter_size iter)") (auto dest: strsep_decreases)

declare write_args.simps [simp del]

text \<open>
  The two commands. The read loads an \<^verbatim>\<open>unsigned long\<close> and keeps its low byte; the
  write stores a \<^verbatim>\<open>char\<close> extended to an \<^verbatim>\<open>unsigned long\<close>. The process is looked
  up by the low 32 bits of the number given.
\<close>

definition do_read :: "mtest_env \<Rightarrow> string option \<Rightarrow> mtest \<Rightarrow> mtest option" where
  "do_read env iter s =
     (case read_args env iter 0 (stack_pid env) (stack_addr env) of
        None \<Rightarrow> None
      | Some (target_pid, addr) \<Rightarrow>
          (case get_addr env s (find_task env (ucast target_pid)) addr of
             None \<Rightarrow> None
           | Some vaddr \<Rightarrow>
               map_option (\<lambda>v. s\<lparr>output_buf := (output_buf s)[0 := ucast v, 1 := 0]\<rparr>) (load64 (mem s) vaddr)))"

definition do_write :: "mtest_env \<Rightarrow> string option \<Rightarrow> mtest \<Rightarrow> mtest option" where
  "do_write env iter s =
     (case write_args env iter 0 (stack_pid env) (stack_addr env) (stack_content env) of
        None \<Rightarrow> None
      | Some (target_pid, addr, content) \<Rightarrow>
          (case get_addr env s (find_task env (ucast target_pid)) addr of
             None \<Rightarrow> None
           | Some vaddr \<Rightarrow>
               map_option (\<lambda>m. s\<lparr>mem := m\<rparr>)
                 (store64 (mem s) vaddr (scast (ucast content :: u8)))))"

definition mtest_proc_write ::
  "mtest_env \<Rightarrow> string \<Rightarrow> nat \<Rightarrow> int \<Rightarrow> mtest \<Rightarrow> ((errno + nat) \<times> mtest) option" where
  "mtest_proc_write env ubuf len pos s =
     (if pos > 0 \<or> len > MAX_SIZE then Some (Inl EFAULT, s)
      else if length ubuf < len then Some (Inl EFAULT, s)
      else if len = 0 \<or> len \<ge> MAX_SIZE then None
      else
        let tmp_buffer = (take len ubuf)[len - 1 := CHR '' ''];
            phase_buffer = c_string tmp_buffer
        in case strsep (Some phase_buffer) of
             None \<Rightarrow> None
           | Some (token, iter) \<Rightarrow>
               if token = ''r'' then map_option (Pair (Inr (len + 1))) (do_read env iter s)
               else if token = ''w'' then map_option (Pair (Inr (len + 1))) (do_write env iter s)
               else Some (Inr (len + 1), s))"

text \<open>The entry points: \<open>created\<close> tells whether the file could be created.\<close>

definition mtest_init :: "bool \<Rightarrow> mtest \<Rightarrow> mtest status" where
  "mtest_init created s =
     (let s = s\<lparr>proc_ent := created\<rparr> in
      if \<not> proc_ent s then (Inl EFAULT, s) else (Inr (), s))"

definition mtest_exit :: "mtest \<Rightarrow> mtest" where
  "mtest_exit s = s\<lparr>proc_ent := False\<rparr>"

section \<open>Commands\<close>

text \<open>A word of a command.\<close>

definition is_word :: "string \<Rightarrow> bool" where
  "is_word w \<longleftrightarrow> w \<noteq> [] \<and> CHR '' '' \<notin> set w \<and> CHR 0x00 \<notin> set w"

definition command :: "string list \<Rightarrow> string" where
  "command ws = concat (map (\<lambda>w. w @ '' '') ws)"

lemma command_Cons: "command (w # ws) = w @ CHR '' '' # command ws"
  by (simp add: command_def)

lemma strsep_command: "is_word w \<Longrightarrow> strsep (Some (command (w # ws))) = Some (w, Some (command ws))"
  by (simp add: command_Cons strsep_word is_word_def)

lemma command_Nil: "strsep (Some (command [])) = Some ([], None)"
  by (simp add: command_def strsep_end)

lemma c_string_command: "list_all is_word ws \<Longrightarrow> c_string (command ws) = command ws"
  by (auto simp: c_string_def command_def is_word_def list_all_iff)

text \<open>What \<^verbatim>\<open>fprintf\<close> of the words with a line end leaves in the buffer.\<close>

lemma command_line:
  assumes "ws \<noteq> []"
  shows "(butlast (command ws) @ [c])[length (command ws) - 1 := CHR '' ''] = command ws"
proof -
  obtain us w where "ws = us @ [w]" using assms by (cases ws rule: rev_exhaust) auto
  then have "command ws = (command us @ w) @ [CHR '' '']" by (simp add: command_def)
  moreover have "((command us @ w) @ [c])[length (command us @ w) := CHR '' ''] = (command us @ w) @ [CHR '' '']"
    by (rule list_update_length)
  ultimately show ?thesis by (simp only: butlast_snoc length_append_singleton diff_Suc_1)
qed

definition line :: "string list \<Rightarrow> string" where
  "line ws = butlast (command ws) @ [CHR 0x0A]"

lemma length_line: "ws \<noteq> [] \<Longrightarrow> length (line ws) = length (command ws)"
proof -
  assume "ws \<noteq> []"
  then have "command ws \<noteq> []" by (cases ws) (simp_all add: command_def)
  then show ?thesis by (simp add: line_def)
qed

lemma mtest_proc_write_line:
  assumes "ws \<noteq> []" "list_all is_word ws" "length (line ws) < MAX_SIZE" "pos \<le> 0"
  shows "mtest_proc_write env (line ws) (length (line ws)) pos s =
     (if hd ws = ''r'' then map_option (Pair (Inr (length (line ws) + 1))) (do_read env (Some (command (tl ws))) s)
      else if hd ws = ''w'' then map_option (Pair (Inr (length (line ws) + 1))) (do_write env (Some (command (tl ws))) s)
      else Some (Inr (length (line ws) + 1), s))"
proof -
  obtain w us where ws: "ws = w # us" using assms(1) by (cases ws) auto
  have ne: "line ws \<noteq> []" by (simp add: line_def)
  have buf: "c_string ((take (length (line ws)) (line ws))[length (line ws) - 1 := CHR '' '']) = command ws"
    using command_line [OF assms(1)] c_string_command [OF assms(2)] length_line [OF assms(1)]
    by (simp add: line_def)
  have "strsep (Some (command ws)) = Some (w, Some (command us))"
    using assms(2) strsep_command by (simp add: ws)
  then show ?thesis
    using assms(3,4) ne buf by (simp add: mtest_proc_write_def Let_def ws)
qed

lemma read_args_words:
  assumes "is_word p" "is_word a" "length a + 3 \<le> MAX_SIZE"
    and "kstrtoul env p = Some pid" "kstrtoul env (''0x'' @ a) = Some addr"
  shows "read_args env (Some (command [p, a])) 0 tp ta = Some (pid, addr)"
proof -
  have ne: "p \<noteq> []" "a \<noteq> []" using assms by (simp_all add: is_word_def)
  have 3: "read_args env (Some (command [])) 2 pid addr = Some (pid, addr)"
    by (simp add: read_args.simps command_Nil strsep_end)
  have "parse_addr env a ta = Some addr" using assms(3,5) by (simp add: parse_addr_def MAX_SIZE_def)
  with 3 have 2: "read_args env (Some (command [a])) 1 pid ta = Some (pid, addr)"
    using ne by (subst read_args.simps) (simp add: strsep_command [OF assms(2)] numeral_2_eq_2)
  then show ?thesis
    using ne assms(4) by (subst read_args.simps) (simp add: strsep_command [OF assms(1)])
qed

lemma write_args_words:
  assumes "is_word p" "is_word a" "is_word v" "length a + 3 \<le> MAX_SIZE"
    and "kstrtoul env p = Some pid" "kstrtoul env (''0x'' @ a) = Some addr" "kstrtoul env v = Some content"
  shows "write_args env (Some (command [p, a, v])) 0 tp ta tv = Some (pid, addr, content)"
proof -
  have ne: "p \<noteq> []" "a \<noteq> []" "v \<noteq> []" using assms by (simp_all add: is_word_def)
  have "write_args env (Some (command [])) 3 pid addr content = Some (pid, addr, content)"
    by (simp add: write_args.simps command_Nil strsep_end)
  then have 3: "write_args env (Some (command [v])) 2 pid addr tv = Some (pid, addr, content)"
    using ne assms(7) by (subst write_args.simps) (simp add: strsep_command [OF assms(3)])
  have "parse_addr env a ta = Some addr" using assms(4,6) by (simp add: parse_addr_def MAX_SIZE_def)
  with 3 have 2: "write_args env (Some (command [a, v])) 1 pid ta tv = Some (pid, addr, content)"
    using ne by (subst write_args.simps) (simp add: strsep_command [OF assms(2)] numeral_2_eq_2)
  then show ?thesis
    using ne assms(5) by (subst write_args.simps) (simp add: strsep_command [OF assms(1)])
qed

end
