(* ===== verification/Mtest_Correct.thy ===== *)
theory Mtest_Correct
  imports Mtest
begin

text \<open>
  Correctness of the memory module: a byte that is written through the file is read back
  through it, what else the write changes, and the inputs that crash the module.
\<close>

section \<open>Effects of the commands\<close>

lemma do_read_byte:
  assumes "read_args env iter 0 (stack_pid env) (stack_addr env) = Some (pid, addr)"
    and "get_addr env s (find_task env (ucast pid)) addr = Some va" "mapped (mem s) va 8"
  obtains b where "mem s va = Some b"
    "do_read env iter s = Some (s\<lparr>output_buf := (output_buf s)[0 := b, 1 := 0]\<rparr>)"
proof -
  obtain v where "load64 (mem s) va = Some v" "mem s va = Some (ucast v)"
    using load64_low_byte [OF assms(3)] by blast
  with assms show thesis by (intro that [of "ucast v"]) (simp_all add: do_read_def)
qed

lemma do_write_byte:
  assumes "write_args env iter 0 (stack_pid env) (stack_addr env) (stack_content env) = Some (pid, addr, v)"
    and "get_addr env s (find_task env (ucast pid)) addr = Some va" "mapped (mem s) va 8"
  shows "do_write env iter s =
    Some (s\<lparr>mem := (\<lambda>x. if x = va then Some (ucast v)
      else if unat (x - va) < 8 then Some (if bit v 7 then - 1 else 0) else mem s x)\<rparr>)"
proof -
  have "bit (ucast v :: u8) 7 = bit v 7" by (simp add: bit_simps)
  then show ?thesis using assms store64_byte [OF assms(3), of "ucast v"] by (simp add: do_write_def)
qed

lemma proc_read_byte:
  assumes "length (output_buf s) = MAX_SIZE" "1 \<le> len" "user_writable env 0" "user_writable env 1"
  shows "\<exists>pos s'. mtest_proc_read env len 0 (s\<lparr>output_buf := (output_buf s)[0 := b, 1 := 0]\<rparr>) =
    Some (Inr (if b = 0 then [] else [b]), pos, s')"
proof -
  obtain x y ys where o: "output_buf s = x # y # ys"
    using assms(1) by (auto simp: MAX_SIZE_def numeral_eq_Suc length_Suc_conv)
  let ?s = "s\<lparr>output_buf := (output_buf s)[0 := b, 1 := 0]\<rparr>"
  have out: "output_buf ?s = b # 0 # ys" by (simp add: o)
  have n: "strlen8 (output_buf ?s) = (if b = 0 then 0 else 1)" by (simp only: out) (simp add: strlen8_def)
  have le: "\<not> len < 1" using assms(2) by (simp only: not_less)
  show ?thesis
  proof (cases "b = 0")
    case True
    with n assms(3) show ?thesis by (simp add: mtest_proc_read_def Let_def)
  next
    case False
    with n assms(4) le show ?thesis by (simp add: mtest_proc_read_def Let_def o)
  qed
qed

section \<open>An evaluated module\<close>

text \<open>
  Process 7 has a page table in which every page is present and mapped at the address 0x100000 of
  the kernel; numbers are parsed for the few words used.
\<close>

definition ex_mtest_env :: mtest_env where
  "ex_mtest_env =
     \<lparr>pgd_index = (\<lambda>a. 0), pgd_none = (\<lambda>e. False), pgd_bad = (\<lambda>e. False),
      p4d_offset = (\<lambda>e a. e), p4d_none = (\<lambda>e. False), p4d_bad = (\<lambda>e. False),
      pud_offset = (\<lambda>e a. e), pud_none = (\<lambda>e. False), pud_bad = (\<lambda>e. False),
      pmd_offset = (\<lambda>e a. e), pmd_none = (\<lambda>e. False), pmd_bad = (\<lambda>e. False),
      pte_offset_kernel = (\<lambda>e a. e),
      kstrtoul = (\<lambda>w. if w = ''7'' then Some 7 else if w = ''0x1010'' then Some 0x1010
                     else if w = ''200'' then Some 200 else None),
      find_task = (\<lambda>n. if n = 7 then Some \<lparr>task_mm = Some \<lparr>mm_pgd = 0x5000\<rparr>\<rparr> else None),
      pte_page = (\<lambda>v. v), kmap_local_page = (\<lambda>p. 0x100000), user_writable = (\<lambda>n. n \<le> 128),
      stack_pid = 0, stack_addr = 0, stack_content = 0\<rparr>"

definition ex_mtest :: mtest where
  "ex_mtest = \<lparr>output_buf = replicate 128 0, out_len = 0, mem = (\<lambda>a. Some 42),
     ptes = (\<lambda>e. 0), proc_ent = True\<rparr>"

lemma ex_get_addr:
  "get_addr ex_mtest_env s (find_task ex_mtest_env 7) 0x1010 = Some 0x100010"
  by (simp add: get_addr_def ex_mtest_env_def pte_walk_def Let_def PAGE_MASK_def PAGE_SIZE_def)

section \<open>Properties\<close>

text \<open>
  C33. Round trip through the file. The command to write a value to an address of a process
  succeeds when the address is mapped, stores the low byte of the value at the kernel
  address of that byte, and a command to read it followed by a read of the file
  returns exactly that byte (nothing if it is zero, which ends a string). But the write
  changes seven more bytes: those after it become copies of the sign of the byte. All
  other memory is unchanged. Both commands report one more byte than they were given.
\<close>

theorem mtest_write_then_read:
  assumes "list_all is_word [p, a, v]" "length (line [''w'', p, a, v]) < MAX_SIZE"
    and "kstrtoul env p = Some pid" "kstrtoul env (''0x'' @ a) = Some addr" "kstrtoul env v = Some val"
    and "get_addr env s (find_task env (ucast pid)) addr = Some va" "mapped (mem s) va 8"
    and "length (output_buf s) = MAX_SIZE" "1 \<le> len" "user_writable env 0" "user_writable env 1"
  shows "\<exists>s1 s2 s3 pos.
    mtest_proc_write env (line [''w'', p, a, v]) (length (line [''w'', p, a, v])) 0 s =
      Some (Inr (length (line [''w'', p, a, v]) + 1), s1) \<and>
    mem s1 va = Some (ucast val) \<and>
    (\<forall>x. 1 \<le> unat (x - va) \<and> unat (x - va) < 8 \<longrightarrow> mem s1 x = Some (if bit val 7 then 0xFF else 0)) \<and>
    (\<forall>x. 8 \<le> unat (x - va) \<longrightarrow> mem s1 x = mem s x) \<and>
    mtest_proc_write env (line [''r'', p, a]) (length (line [''r'', p, a])) 0 s1 =
      Some (Inr (length (line [''r'', p, a]) + 1), s2) \<and> mem s2 = mem s1 \<and>
    mtest_proc_read env len 0 s2 =
      Some (Inr (if (ucast val :: u8) = 0 then [] else [ucast val]), pos, s3)"
proof -
  have w: "is_word p" "is_word a" "is_word v" using assms(1) by simp_all
  have kw: "is_word ''w''" "is_word ''r''" by (simp_all add: is_word_def)
  have len: "length a + 3 \<le> MAX_SIZE" "length (line [''r'', p, a]) < MAX_SIZE"
    using assms(2) by (simp_all add: length_line command_def)
  define m where "m = (\<lambda>x. if x = va then Some (ucast val)
      else if unat (x - va) < 8 then Some (if bit val 7 then - 1 else 0) else mem s x)"
  let ?s1 = "s\<lparr>mem := m\<rparr>"
  have "write_args env (Some (command [p, a, v])) 0 (stack_pid env) (stack_addr env) (stack_content env) =
      Some (pid, addr, val)"
    by (rule write_args_words [OF w len(1) assms(3-5)])
  then have "do_write env (Some (command [p, a, v])) s = Some ?s1"
    using do_write_byte [OF _ assms(6,7)] by (simp add: m_def)
  then have 1: "mtest_proc_write env (line [''w'', p, a, v]) (length (line [''w'', p, a, v])) 0 s =
      Some (Inr (length (line [''w'', p, a, v]) + 1), ?s1)"
    using assms(2) w kw by (subst mtest_proc_write_line) simp_all
  have g: "get_addr env ?s1 (find_task env (ucast pid)) addr = Some va" using assms(6) by (simp add: get_addr_def cong: option.case_cong)
  have "mapped (mem ?s1) va 8" using assms(7) by (simp add: mapped_def m_def)
  then obtain b where b: "mem ?s1 va = Some b"
    "do_read env (Some (command [p, a])) ?s1 = Some (?s1\<lparr>output_buf := (output_buf ?s1)[0 := b, 1 := 0]\<rparr>)"
    using do_read_byte [OF read_args_words [OF w(1,2) len(1) assms(3,4)] g] by blast
  let ?s2 = "?s1\<lparr>output_buf := (output_buf ?s1)[0 := b, 1 := 0]\<rparr>"
  have 2: "mtest_proc_write env (line [''r'', p, a]) (length (line [''r'', p, a])) 0 ?s1 =
      Some (Inr (length (line [''r'', p, a]) + 1), ?s2)"
    using len(2) w kw b(2) by (subst mtest_proc_write_line) simp_all
  obtain pos s3 where 3: "mtest_proc_read env len 0 ?s2 = Some (Inr (if b = 0 then [] else [b]), pos, s3)"
    using proc_read_byte [of ?s1 len env b] assms(8-11) by auto
  have eb: "b = ucast val" using b(1) by (simp add: m_def)
  have neg: "(- 1 :: u8) = 0xFF" by simp
  have "\<forall>x. 1 \<le> unat (x - va) \<and> unat (x - va) < 8 \<longrightarrow> m x = Some (if bit val 7 then 0xFF else 0)"
    by (auto simp: m_def)
  moreover have "\<forall>x. 8 \<le> unat (x - va) \<longrightarrow> m x = mem s x" by (auto simp: m_def)
  moreover have "m va = Some (ucast val)" by (simp add: m_def)
  ultimately show ?thesis using 1 2 3
    by - (rule exI [of _ ?s1], rule exI [of _ ?s2], rule exI [of _ s3], rule exI [of _ pos], simp add: eb)
qed

theorem mtest_write_then_read_witness:
  "\<exists>s1 s2 s3 pos.
    mtest_proc_write ex_mtest_env ''w 7 1010 200\<newline>'' 13 0 ex_mtest = Some (Inr 14, s1) \<and>
    mem s1 0x100010 = Some 200 \<and> mem s1 0x100011 = Some 0xFF \<and> mem s1 0x100018 = Some 42 \<and>
    mtest_proc_write ex_mtest_env ''r 7 1010\<newline>'' 9 0 s1 = Some (Inr 10, s2) \<and>
    mtest_proc_read ex_mtest_env 100 0 s2 = Some (Inr [200], pos, s3)"
proof -
  have l: "line [''w'', ''7'', ''1010'', ''200''] = ''w 7 1010 200\<newline>''" "line [''r'', ''7'', ''1010''] = ''r 7 1010\<newline>''"
    by (simp_all add: line_def command_def)
  have ll: "length ''w 7 1010 200\<newline>'' = 13" "length ''r 7 1010\<newline>'' = 9" by simp_all
  have m: "mapped (mem ex_mtest) 0x100010 8" by (simp add: mapped_def ex_mtest_def)
  have g: "get_addr ex_mtest_env ex_mtest (find_task ex_mtest_env (ucast (7 :: u64))) 0x1010 = Some 0x100010"
    using ex_get_addr [of ex_mtest] by simp
  have k: "kstrtoul ex_mtest_env ''7'' = Some 7" "kstrtoul ex_mtest_env (''0x'' @ ''1010'') = Some 0x1010"
    "kstrtoul ex_mtest_env ''200'' = Some 200" "user_writable ex_mtest_env 0" "user_writable ex_mtest_env 1"
    by (simp_all add: ex_mtest_env_def)
  have w: "list_all is_word [''7'', ''1010'', ''200'']" "length (line [''w'', ''7'', ''1010'', ''200'']) < MAX_SIZE"
    "length (output_buf ex_mtest) = MAX_SIZE"
    by (simp_all add: is_word_def l MAX_SIZE_def ex_mtest_def)
  have len: "1 \<le> (100 :: u64)" by simp
  have bit: "bit (200 :: u64) 7" "(ucast (200 :: u64) :: u8) = 200" by simp_all
  obtain s1 s2 s3 pos where *:
    "mtest_proc_write ex_mtest_env ''w 7 1010 200\<newline>'' 13 0 ex_mtest = Some (Inr 14, s1)"
    "mem s1 0x100010 = Some 200"
    "\<forall>x. 1 \<le> unat (x - 0x100010) \<and> unat (x - 0x100010) < 8 \<longrightarrow> mem s1 x = Some 0xFF"
    "\<forall>x. 8 \<le> unat (x - 0x100010) \<longrightarrow> mem s1 x = mem ex_mtest x"
    "mtest_proc_write ex_mtest_env ''r 7 1010\<newline>'' 9 0 s1 = Some (Inr 10, s2)"
    "mtest_proc_read ex_mtest_env 100 0 s2 = Some (Inr [200], pos, s3)"
    using mtest_write_then_read [OF w(1,2) k(1-3) g m w(3) len k(4,5), unfolded l ll] bit by auto
  have "mem s1 0x100011 = Some 0xFF" using *(3) by simp
  moreover have "mem s1 0x100018 = Some 42" using *(4) by (simp add: ex_mtest_def)
  ultimately show ?thesis using * by blast
qed

text \<open>
  Inputs that crash the module or make it leave its buffers. A write of no bytes or of
  exactly 128 bytes stores outside the buffer. A command for a process that does not
  exist, for a kernel thread, or for an address without a page follows a null pointer or
  the pointer \<open>-1\<close>. A read at a position after the end of the output copies as many bytes
  as the caller asks for, also past the end of the buffer.
\<close>

lemma mtest_crashes:
  assumes "is_word p" "is_word a" "length (line [''r'', p, a]) < MAX_SIZE"
    and "kstrtoul env p = Some pid" "kstrtoul env (''0x'' @ a) = Some addr"
  shows "mtest_proc_write env ubuf 0 0 s = None \<and>
    (MAX_SIZE \<le> length ubuf \<longrightarrow> mtest_proc_write env ubuf MAX_SIZE 0 s = None) \<and>
    (case find_task env (ucast pid) of
       None \<Rightarrow> mtest_proc_write env (line [''r'', p, a]) (length (line [''r'', p, a])) 0 s = None
     | Some t \<Rightarrow>
         (case task_mm t of
            None \<Rightarrow> mtest_proc_write env (line [''r'', p, a]) (length (line [''r'', p, a])) 0 s = None
          | Some mm \<Rightarrow>
              pte_walk env (mm_pgd mm) addr = None \<and> mem s (- 1) = None \<longrightarrow>
              mtest_proc_write env (line [''r'', p, a]) (length (line [''r'', p, a])) 0 s = None)) \<and>
    (strlen8 (output_buf s) = 0 \<and> length (output_buf s) = MAX_SIZE \<and> user_writable env 200 \<longrightarrow>
       mtest_proc_read env 200 1 s = None)"
proof -
  have w: "list_all is_word [''r'', p, a]" using assms(1,2) by (simp add: is_word_def)
  have len: "length a + 3 \<le> MAX_SIZE" using assms(3) by (simp add: length_line command_def)
  note args = read_args_words [OF assms(1,2) len assms(4,5), of "stack_pid env" "stack_addr env"]
  have cmd: "mtest_proc_write env (line [''r'', p, a]) (length (line [''r'', p, a])) 0 s =
      map_option (Pair (Inr (length (line [''r'', p, a]) + 1))) (do_read env (Some (command [p, a])) s)"
    using w assms(3) by (subst mtest_proc_write_line) simp_all
  have load: "mem s (- 1) = None \<Longrightarrow> load64 (mem s) (- 1) = None" by (simp add: load64_def eval_nat_numeral)
  have 1: "mtest_proc_write env ubuf 0 0 s = None" by (simp add: mtest_proc_write_def)
  have 2: "MAX_SIZE \<le> length ubuf \<Longrightarrow> mtest_proc_write env ubuf MAX_SIZE 0 s = None"
    by (simp add: mtest_proc_write_def MAX_SIZE_def)
  have 3: "strlen8 (output_buf s) = 0 \<Longrightarrow> length (output_buf s) = MAX_SIZE \<Longrightarrow> user_writable env 200 \<Longrightarrow>
      mtest_proc_read env 200 1 s = None"
    by (simp add: mtest_proc_read_def Let_def MAX_SIZE_def)
  show ?thesis
    using 1 2 3 load by (auto simp: cmd do_read_def args get_addr_def split: option.split)
qed

end
