(* ===== verification/Watch.thy ===== *)
theory Watch
  imports Proc_Mem
begin

text \<open>
  The module \<^verbatim>\<open>project_Benchmark/src/watch.c\<close>: writing a process number to
  \<^verbatim>\<open>/proc/watch\<close> selects a process, reading the file reports the number of pages it
  accessed since the last report and its processor times.

  \<open>None\<close> is a crash or an access outside an array. The kernel functions are the record
  \<open>watch_env\<close>; the processor times that the kernel counts while the module runs are an
  argument (\<open>cpu_sample\<close>) of the functions that read them.
\<close>

section \<open>Data\<close>

definition WATCH_MAX_SIZE :: nat where "WATCH_MAX_SIZE = 128"

record vm_area =
  vm_start :: u64
  vm_end :: u64

record watch_mm =
  wmm_pgd :: u64
  wmm_mmap :: "vm_area list"

record watch_task =
  wtask_mm :: "watch_mm option"

text \<open>
  One pass over the counters: those of the signal structure and those of each thread. The
  second pass is the one under the lock, when the first had to be repeated.
\<close>

record cpu_pass =
  sig_utime :: u64
  sig_stime :: u64
  thread_times :: "(u64 \<times> u64) list"

record cpu_sample =
  sig_cutime :: u64
  sig_cstime :: u64
  first_pass :: cpu_pass
  seqretry :: bool
  second_pass :: cpu_pass

record watch_env = pgt +
  USER_HZ :: u64
  kstrtoint :: "string \<Rightarrow> u32 option"
  find_get_pid :: "u32 \<Rightarrow> bool"
  get_pid_task :: "u32 \<Rightarrow> watch_task option"
  watch_writable :: "u64 \<Rightarrow> bool"

record watch =
  watch_output :: string
  watch_out_len :: u32
  pid_measured :: u32
  taskp :: "watch_task option"
  watch_ptes :: "u64 \<Rightarrow> u64"
  watch_proc_ent :: bool

section \<open>The functions of watch.c\<close>

definition NSEC_PER_SEC :: u64 where "NSEC_PER_SEC = 1000000000"

definition nsecc_to_clock_t :: "watch_env \<Rightarrow> u64 \<Rightarrow> u64" where
  "nsecc_to_clock_t env x =
     (let H = USER_HZ env in
      if NSEC_PER_SEC mod H = 0 then x div (NSEC_PER_SEC div H)
      else if H mod 512 = 0 then (x * H div 512) div (NSEC_PER_SEC div 512)
      else (x * 9) div ((9 * NSEC_PER_SEC + H div 2) div H))"

text \<open>
  The digits of a number, the lowest first, as the loop of \<^verbatim>\<open>int2char\<close> collects them, and
  the copy into the output at \<open>pos\<close>.
\<close>

function tmp_digits :: "u64 \<Rightarrow> string" where
  "tmp_digits tmp = (if tmp = 0 then [] else char_of (unat (tmp mod 10) + 48) # tmp_digits (tmp div 10))"
  by pat_completeness auto
termination
proof (relation "measure unat")
  fix tmp :: u64
  assume "tmp \<noteq> 0"
  then have "0 < unat tmp" by (simp add: unat_gt_0)
  then have "unat tmp div 10 < unat tmp" by simp
  then show "(tmp div 10, tmp) \<in> measure unat" by (simp add: unat_div)
qed simp

declare tmp_digits.simps [simp del]

definition put :: "string \<Rightarrow> nat \<Rightarrow> string \<Rightarrow> string option" where
  "put buf pos cs =
     (if pos + length cs \<le> length buf then Some (take pos buf @ cs @ drop (pos + length cs) buf) else None)"

definition int2char :: "u64 \<Rightarrow> nat \<Rightarrow> string \<Rightarrow> string option" where
  "int2char memory_count pos buf =
     (if memory_count = 0 then put buf pos [CHR ''0'', CHR '' '', CHR 0x00]
      else
        let tmp_output = tmp_digits memory_count
        in if length tmp_output > WATCH_MAX_SIZE then None
           else put buf pos (rev tmp_output @ [CHR '' '', CHR 0x00]))"

text \<open>The additions of one pass are made to the sums of the pass before.\<close>

definition cpu_add :: "cpu_pass \<Rightarrow> u64 \<times> u64 \<Rightarrow> u64 \<times> u64" where
  "cpu_add c t =
     (case t of (utime, stime) \<Rightarrow>
        fold (\<lambda>(tu, ts) (u, st). (u + tu, st + ts)) (thread_times c) (utime + sig_utime c, stime + sig_stime c))"

definition cpu_measure :: "cpu_sample \<Rightarrow> u64 \<times> u64 \<Rightarrow> u64 \<times> u64 \<times> u64 \<times> u64" where
  "cpu_measure c t =
     (let t = cpu_add (first_pass c) t;
          t = (if seqretry c then cpu_add (second_pass c) t else t)
      in (fst t, snd t, sig_cutime c, sig_cstime c))"

text \<open>
  \<^verbatim>\<open>ram_measure\<close>: one page of a mapped area, an area, and all areas. The number of pages of
  an area is an \<^verbatim>\<open>int\<close>.
\<close>

definition KERNEL_SPACE :: u64 where "KERNEL_SPACE = 0xFFFF800000000000"

definition ram_page :: "watch_env \<Rightarrow> watch_mm \<Rightarrow> u64 \<Rightarrow> u32 \<times> (u64 \<Rightarrow> u64) \<Rightarrow> u32 \<times> (u64 \<Rightarrow> u64)" where
  "ram_page env mm virt_addr r =
     (case r of (page_count, P) \<Rightarrow>
        if virt_addr \<ge> KERNEL_SPACE then (page_count, P)
        else
          (case pte_walk env (wmm_pgd mm) virt_addr of
             None \<Rightarrow> (page_count, P)
           | Some pte \<Rightarrow>
               (let MASK = push_bit 5 1;
                    flag = (P pte AND MASK \<noteq> 0);
                    P = P(pte := P pte AND NOT MASK)
                in (if flag then page_count + 1 else page_count, P))))"

definition vma_pages :: "vm_area \<Rightarrow> u64 list" where
  "vma_pages vma =
     (let page_number = ucast ((vm_end vma - vm_start vma) div PAGE_SIZE) :: u32
      in map (\<lambda>i. vm_start vma + of_nat i * PAGE_SIZE) [0..<nat (sint page_number)])"

definition ram_measure ::
  "watch_env \<Rightarrow> watch_task option \<Rightarrow> (u64 \<Rightarrow> u64) \<Rightarrow> (u32 \<times> (u64 \<Rightarrow> u64)) option" where
  "ram_measure env tsk P =
     (case tsk of
        None \<Rightarrow> None
      | Some t \<Rightarrow>
          (case wtask_mm t of
             None \<Rightarrow> None
           | Some mm \<Rightarrow>
               Some (fold (\<lambda>vma. fold (ram_page env mm) (vma_pages vma)) (wmm_mmap mm) (0, P))))"

text \<open>The report of a process: five numbers, each written where the string so far ends.\<close>

definition c_strlen :: "string \<Rightarrow> nat" where
  "c_strlen buf = length (c_string buf)"

fun put_numbers :: "u64 list \<Rightarrow> nat \<Rightarrow> string \<Rightarrow> string option" where
  "put_numbers [] pos buf = Some buf"
| "put_numbers (n # ns) pos buf =
     (case int2char n pos buf of None \<Rightarrow> None | Some buf \<Rightarrow> put_numbers ns (c_strlen buf) buf)"

definition watch_report :: "watch_env \<Rightarrow> cpu_sample \<Rightarrow> watch \<Rightarrow> watch option" where
  "watch_report env c s =
     (case ram_measure env (taskp s) (watch_ptes s) of
        None \<Rightarrow> None
      | Some (memory_count, P) \<Rightarrow>
          (case cpu_measure c (0, 0) of (utime, stime, cutime, cstime) \<Rightarrow>
             (case put_numbers [scast memory_count, nsecc_to_clock_t env utime, nsecc_to_clock_t env stime,
                                nsecc_to_clock_t env cutime, nsecc_to_clock_t env cstime] 0 (watch_output s) of
                None \<Rightarrow> None
              | Some buf \<Rightarrow>
                  Some (s\<lparr>watch_ptes := P, watch_output := buf, watch_out_len := of_nat (c_strlen buf)\<rparr>))))"

definition watch_proc_read ::
  "watch_env \<Rightarrow> cpu_sample \<Rightarrow> u64 \<Rightarrow> u64 \<Rightarrow> watch \<Rightarrow> ((errno + string) \<times> u64 \<times> watch) option" where
  "watch_proc_read env c len pos s =
     (case (if pos = 0 then
              (if find_get_pid env (pid_measured s) then watch_report env c s
               else map_option (\<lambda>buf. s\<lparr>watch_output := buf, watch_out_len := of_nat (c_strlen buf)\<rparr>)
                      (put (watch_output s) 0 (''-1 -1 -1 -1 -1 '' @ [CHR 0x00])))
            else Some s) of
        None \<Rightarrow> None
      | Some s \<Rightarrow>
          (let rest = scast (watch_out_len s) - pos;
               count = (if rest > len then ucast len else ucast rest) :: u32;
               n = scast count :: u64
           in if \<not> watch_writable env n then Some (Inl EFAULT, pos, s)
              else if unat pos + unat n > length (watch_output s) then None
              else Some (Inr (take (unat n) (drop (unat pos) (watch_output s))), pos + n, s)))"

definition watch_proc_write ::
  "watch_env \<Rightarrow> string \<Rightarrow> int \<Rightarrow> watch \<Rightarrow> ((errno + nat) \<times> int \<times> watch) option" where
  "watch_proc_write env ubuf pos s =
     (if pos > 0 then Some (Inl EFAULT, pos, s)
      else
        case kstrtoint env ubuf of
          None \<Rightarrow> Some (Inl EFAULT, pos, s)
        | Some n \<Rightarrow>
            (let s = s\<lparr>taskp := (if find_get_pid env n then get_pid_task env n else None), pid_measured := n\<rparr> in
             if find_get_pid env n then
               (case ram_measure env (taskp s) (watch_ptes s) of
                  None \<Rightarrow> None
                | Some (c, P) \<Rightarrow> Some (Inr (length ubuf), pos + int (length ubuf), s\<lparr>watch_ptes := P\<rparr>))
             else Some (Inr (length ubuf), pos + int (length ubuf), s)))"

definition watch_init :: "bool \<Rightarrow> watch \<Rightarrow> watch status" where
  "watch_init created s =
     (let s = s\<lparr>watch_proc_ent := created\<rparr> in
      if \<not> watch_proc_ent s then (Inl EFAULT, s) else (Inr (), s))"

definition watch_exit :: "watch \<Rightarrow> watch" where
  "watch_exit s = s\<lparr>watch_proc_ent := False\<rparr>"

end
