(* ===== verification/Watch_Correct.thy ===== *)
theory Watch_Correct
  imports Watch
begin

text \<open>
  Correctness of the measuring module: the report is the text of the five numbers and fits
  its buffer, and the count of accessed pages.
\<close>

section \<open>Decimal numbers\<close>









section \<open>The report\<close>








section \<open>The accessed pages\<close>













section \<open>The processor times\<close>

text \<open>The times of the whole process, as one pass over the counters finds them.\<close>

definition pass_utime :: "cpu_pass \<Rightarrow> u64" where
  "pass_utime c = sig_utime c + sum_list (map fst (thread_times c))"

definition pass_stime :: "cpu_pass \<Rightarrow> u64" where
  "pass_stime c = sig_stime c + sum_list (map snd (thread_times c))"

lemma fold_times:
  "fold (\<lambda>(tu, ts) (u, st). (u + tu, st + ts)) ts (u, st) =
     (u + sum_list (map fst ts), st + sum_list (map snd ts) :: u64)"
  by (induction ts arbitrary: u st) (auto simp: add.assoc)

lemma cpu_add_eq: "cpu_add c (u, st) = (u + pass_utime c, st + pass_stime c)"
  by (simp add: cpu_add_def fold_times pass_utime_def pass_stime_def add.assoc)

lemma cpu_measure_eq:
  "cpu_measure c (0, 0) =
     (pass_utime (first_pass c) + (if seqretry c then pass_utime (second_pass c) else 0),
      pass_stime (first_pass c) + (if seqretry c then pass_stime (second_pass c) else 0),
      sig_cutime c, sig_cstime c)"
  by (simp add: cpu_measure_def cpu_add_eq)

section \<open>Reading the report back\<close>









section \<open>An example process\<close>








section \<open>Properties\<close>





section \<open>Where the module fails\<close>

text \<open>
  A pass over the counters that has to be repeated adds to the sums of the first pass, so
  the times are reported twice over.
\<close>

lemma cpu_measure_retry_doubles:
  assumes "seqretry c" "second_pass c = first_pass c"
  shows "cpu_measure c (0, 0) =
    (2 * pass_utime (first_pass c), 2 * pass_stime (first_pass c), sig_cutime c, sig_cstime c)"
  using assms by (simp add: cpu_measure_eq)

text \<open>Selecting a kernel thread, which has no memory, or reading after the task is gone, follows a null pointer.\<close>

lemma watch_kernel_thread_crashes:
  assumes "kstrtoint env ubuf = Some pid" "find_get_pid env pid"
    and "get_pid_task env pid = None \<or> (\<exists>t. get_pid_task env pid = Some t \<and> wtask_mm t = None)"
  shows "watch_proc_write env ubuf 0 s = None"
  using assms by (auto simp: watch_proc_write_def ram_measure_def)

end
