(* ===== verification/Maptest.thy ===== *)
theory Maptest
  imports Proc_Mem
begin

text \<open>
  The module \<^verbatim>\<open>project_memory space/maptest/maptest.c\<close>: a page of kernel memory with a fixed
  text, which a process maps through \<^verbatim>\<open>/proc/maptest\<close>.

  Physical memory is a list of bytes for each page frame. \<open>None\<close> is a crash. The kernel's
  \<^verbatim>\<open>remap_pfn_range\<close> is a parameter; \<open>remap_ok\<close> says what it does when it succeeds.
\<close>

section \<open>Data\<close>

record maptest =
  map_proc_ent :: bool
  page_frame :: "u64 option"
  phys :: "u64 \<Rightarrow> u8 list"
  free_frames :: "u64 set"

text \<open>The page tables of the calling process, from page addresses to frames.\<close>

type_synonym utable = "u64 \<Rightarrow> u64 option"

record map_area =
  area_start :: u64
  area_end :: u64

record maptest_env =
  remap_pfn_range :: "u64 \<Rightarrow> u64 \<Rightarrow> u64 \<Rightarrow> utable \<Rightarrow> u32 \<times> utable"

definition content :: string where
  "content =
     ''I am Haonan Chen,\<newline>'' @
     ''Listen to me say thanks\<newline>'' @
     ''Thanks to you, I'' @ [CHR 0x27] @ ''m warm all the time\<newline>'' @
     ''I thank you\<newline>'' @
     ''For being there\<newline>'' @
     ''The world is sweeter\<newline>'' @
     ''I want to say thanks\<newline>'' @
     ''Thanks to you, love is in my heart\<newline>'' @
     ''I thank you, for being there\<newline>'' @
     ''To bring happiness\<newline>''"

section \<open>The functions of maptest.c\<close>

definition proc_mmap :: "maptest_env \<Rightarrow> map_area \<Rightarrow> maptest \<Rightarrow> utable \<Rightarrow> (int \<times> utable) option" where
  "proc_mmap env vma s T =
     (case page_frame s of
        None \<Rightarrow> None
      | Some kernel_addr_frame \<Rightarrow>
          (case remap_pfn_range env (area_start vma) kernel_addr_frame (area_end vma - area_start vma) T of
             (err, T) \<Rightarrow> Some (if err \<noteq> 0 then - 1 else 0, T)))"

text \<open>\<open>created\<close> is the outcome of \<^verbatim>\<open>proc_create\<close>, \<open>frame\<close> that of \<^verbatim>\<open>alloc_pages\<close>.\<close>

definition maptest_init :: "bool \<Rightarrow> u64 option \<Rightarrow> maptest \<Rightarrow> maptest status option" where
  "maptest_init created frame s =
     (let s = s\<lparr>map_proc_ent := created\<rparr> in
      if \<not> map_proc_ent s then Some (Inl EFAULT, s)
      else
        let s = s\<lparr>page_frame := frame\<rparr> in
        case frame of
          None \<Rightarrow> None
        | Some f \<Rightarrow>
            (let s = s\<lparr>free_frames := free_frames s - {f}\<rparr>;
                 bytes = map of_char content
             in Some (Inr (), s\<lparr>phys := (phys s)(f := bytes @ drop (length bytes) (phys s f))\<rparr>)))"

definition maptest_exit :: "maptest \<Rightarrow> maptest" where
  "maptest_exit s =
     (let s = s\<lparr>map_proc_ent := False\<rparr>
      in s\<lparr>free_frames := free_frames s \<union> set_option (page_frame s)\<rparr>)"

section \<open>What a process sees\<close>

text \<open>
  A successful \<^verbatim>\<open>remap_pfn_range\<close> maps the pages of the range to consecutive frames; the
  size it is given has to be a number of whole pages.
\<close>

definition remap_ok :: "maptest_env \<Rightarrow> bool" where
  "remap_ok env \<longleftrightarrow>
     (\<forall>a f n T T'. n < 2 ^ 52 \<longrightarrow> remap_pfn_range env a f (of_nat n * PAGE_SIZE) T = (0, T') \<longrightarrow>
        (\<forall>i<n. T' (a + of_nat i * PAGE_SIZE) = Some (f + of_nat i)))"

text \<open>The byte at an offset of a mapped page.\<close>

definition user_byte :: "maptest \<Rightarrow> utable \<Rightarrow> u64 \<Rightarrow> nat \<Rightarrow> u8 option" where
  "user_byte s T a off =
     (case T a of None \<Rightarrow> None | Some f \<Rightarrow> if off < length (phys s f) then Some (phys s f ! off) else None)"

lemma length_content: "length content = 232"
  by (simp add: content_def)

lemma unat_of_nat_page: "i < 2 ^ 52 \<Longrightarrow> unat (of_nat i :: u64) = i"
  by (simp add: unsigned_of_nat take_bit_nat_eq_self)

lemma of_nat_page: "0 < i \<Longrightarrow> i < 2 ^ 52 \<Longrightarrow> of_nat i \<noteq> (0 :: u64)"
  using unat_of_nat_page [of i] by auto

section \<open>Properties\<close>

text \<open>
  C39. Once the module is loaded, a process that maps \<^verbatim>\<open>/proc/maptest\<close> over any number of
  pages finds the text at the start of its mapping. It also finds what should not be
  there: the rest of the first page is what the frame held before it was allocated, and every further page of
  the mapping is the next physical frame, whoever owns it. Unloading the module frees the
  page and leaves the mapping.
\<close>

theorem maptest_mapping_contents:
  assumes "remap_ok env" "length (phys s f) = 4096"
    and "maptest_init True (Some f) s = Some (r, s1)"
    and "area_end vma - area_start vma = of_nat n * PAGE_SIZE" "0 < n" "n < 2 ^ 52"
    and "proc_mmap env vma s1 T = Some (0, T1)"
  shows "(\<forall>off<4096. user_byte s1 T1 (area_start vma) off =
       Some (if off < length content then of_char (content ! off) else phys s f ! off)) \<and>
    (\<forall>i<n. T1 (area_start vma + of_nat i * PAGE_SIZE) = Some (f + of_nat i)) \<and>
    (\<forall>i off. 0 < i \<and> i < n \<and> off < length (phys s (f + of_nat i)) \<longrightarrow>
       user_byte s1 T1 (area_start vma + of_nat i * PAGE_SIZE) off = Some (phys s (f + of_nat i) ! off)) \<and>
    f \<in> free_frames (maptest_exit s1) \<and>
    user_byte (maptest_exit s1) T1 (area_start vma) 0 = Some (of_char (CHR ''I''))"
proof -
  have s1: "page_frame s1 = Some f" "phys s1 = (phys s)(f := map of_char content @ drop (length content) (phys s f))"
    using assms(3) by (auto simp: maptest_init_def Let_def)
  have T1: "T1 (area_start vma + of_nat i * PAGE_SIZE) = Some (f + of_nat i)" if "i < n" for i
    using assms(1,6,7) that unfolding assms(4) proc_mmap_def s1
    by (auto simp: remap_ok_def split: prod.splits if_splits)
  have a: "T1 (area_start vma) = Some f" using T1 [OF assms(5)] by simp
  have b: "phys s1 f ! off = (if off < length content then of_char (content ! off) else phys s f ! off)" for off
    using assms(2) by (simp add: s1 nth_append length_content)
  have l: "length (phys s1 f) = 4096" using assms(2) by (simp add: s1 length_content)
  have 0: "content ! 0 = CHR ''I''" by (simp add: content_def)
  have e: "phys (maptest_exit s1) = phys s1" by (simp add: maptest_exit_def Let_def)
  have "user_byte (maptest_exit s1) T1 (area_start vma) 0 = Some (of_char (CHR ''I''))"
    using l by (simp add: user_byte_def a e b 0 length_content)
  moreover have "user_byte s1 T1 (area_start vma + of_nat i * PAGE_SIZE) off = Some (phys s (f + of_nat i) ! off)"
    if "0 < i" "i < n" "off < length (phys s (f + of_nat i))" for i off
    using that of_nat_page [of i] assms(6) by (simp add: user_byte_def T1 s1)
  moreover have "f \<in> free_frames (maptest_exit s1)" by (simp add: maptest_exit_def Let_def s1)
  ultimately show ?thesis using T1 l b by (simp add: user_byte_def a)
qed

definition ex_map_env :: maptest_env where
  "ex_map_env = \<lparr>remap_pfn_range = (\<lambda>a f size T. (0, \<lambda>x. Some (f + (x - a) div PAGE_SIZE)))\<rparr>"

definition ex_maptest :: maptest where
  "ex_maptest = \<lparr>map_proc_ent = False, page_frame = None, phys = (\<lambda>f. replicate 4096 (ucast f)), free_frames = UNIV\<rparr>"

lemma ex_remap_ok: "remap_ok ex_map_env"
proof -
  have "of_nat i * 4096 div 4096 = (of_nat i :: u64)" if "i < n" "n < 2 ^ 52" for i n :: nat
  proof -
    have i: "i < 2 ^ 52" using that by (rule less_trans)
    have "(of_nat i * 4096 :: u64) = of_nat (i * 4096)" by simp
    moreover have "unat (of_nat (i * 4096) :: u64) = i * 4096"
      using i by (subst unsigned_of_nat) (simp add: take_bit_nat_eq_self)
    ultimately show ?thesis using unat_of_nat_page [OF i] by (simp add: word_unat_eq_iff unat_div)
  qed
  then show ?thesis by (auto simp: remap_ok_def ex_map_env_def PAGE_SIZE_def)
qed

theorem maptest_mapping_contents_witness:
  "\<exists>s1 T1. maptest_init True (Some 7) ex_maptest = Some (Inr (), s1) \<and>
     proc_mmap ex_map_env \<lparr>area_start = 0x10000, area_end = 0x12000\<rparr> s1 (\<lambda>a. None) = Some (0, T1) \<and>
     T1 0x11000 = Some 8 \<and> user_byte s1 T1 0x10000 3000 = Some 7"
proof -
  let ?vma = "\<lparr>area_start = 0x10000, area_end = 0x12000\<rparr> :: map_area"
  obtain s1 where i: "maptest_init True (Some 7) ex_maptest = Some (Inr (), s1)" "page_frame s1 = Some 7"
    by (simp add: maptest_init_def)
  obtain T1 where m: "proc_mmap ex_map_env ?vma s1 (\<lambda>a. None) = Some (0, T1)"
    using i(2) by (simp add: proc_mmap_def ex_map_env_def)
  have l: "length (phys ex_maptest 7) = 4096" by (simp add: ex_maptest_def)
  have v: "area_end ?vma - area_start ?vma = of_nat 2 * PAGE_SIZE" "0 < (2 :: nat)" "2 < (2 ^ 52 :: nat)" by (simp_all add: PAGE_SIZE_def)
  note t = maptest_mapping_contents [OF ex_remap_ok l i(1) v m]
  have "user_byte s1 T1 0x10000 3000 = Some 7"
    using t by (simp add: length_content ex_maptest_def)
  moreover have "T1 0x11000 = Some 8" using t by (auto dest: spec [of _ 1] simp: PAGE_SIZE_def)
  ultimately show ?thesis using i m by blast
qed

end
