(* ===== verification/Dispatch.thy ===== *)
theory Dispatch
  imports Kernel_Prelude
begin

text \<open>
  The dispatch counter of \<^verbatim>\<open>project_Process Scheduler\<close>: every task counts in \<^verbatim>\<open>ctx\<close> how
  often the scheduler chose it, and \<^verbatim>\<open>/proc/PID/ctx\<close> shows the number. The theory models the
  way of one processor through \<^verbatim>\<open>__schedule\<close> of that kernel (64 bit, \<^verbatim>\<open>CONFIG_SMP\<close>): the
  choice of the next task, the switch with its memory references, the entry points, and the
  part of the creation of a task that concerns them.

  The scheduling classes, the work queues and the clock are not part of the project; they
  are the record \<open>penv\<close>, as are the flag values of \<^verbatim>\<open>kernel/sched/sched.h\<close>. Statistics, tracing and
  memory barriers are left out. \<open>None\<close> is a \<^verbatim>\<open>BUG\<close>, a null pointer, or a loop that does not end.
\<close>

section \<open>Data\<close>

definition RUNNING_STATE :: u64 where "RUNNING_STATE = 0x0000"
definition UNINTERRUPTIBLE_STATE :: u64 where "UNINTERRUPTIBLE_STATE = 0x0002"
definition DEAD_STATE :: u64 where "DEAD_STATE = 0x0080"
definition NOLOAD_STATE :: u64 where "NOLOAD_STATE = 0x0400"

definition IDLE_FLAG :: u32 where "IDLE_FLAG = 0x00000002"
definition WQ_WORKER_FLAG :: u32 where "WQ_WORKER_FLAG = 0x00000020"
definition FORKNOEXEC_FLAG :: u32 where "FORKNOEXEC_FLAG = 0x00000040"
definition SUPERPRIV_FLAG :: u32 where "SUPERPRIV_FLAG = 0x00000100"
definition NOFREEZE_FLAG :: u32 where "NOFREEZE_FLAG = 0x00008000"
definition FROZEN_FLAG :: u32 where "FROZEN_FLAG = 0x00010000"

record ptask =
  p_state :: u64
  p_flags :: u32
  p_on_cpu :: bool
  p_on_rq :: u32
  ctx :: u32
  p_class :: nat
  p_in_iowait :: bool
  p_need_resched :: bool
  p_nvcsw :: u64
  p_nivcsw :: u64
  p_mm :: "nat option"
  p_active_mm :: "nat option"

record psys =
  ptask_of :: "tid \<Rightarrow> ptask"
  p_curr :: tid
  rq_nr_running :: u32
  rq_cfs_h_nr_running :: u32
  rq_nr_switches :: u64
  rq_nr_iowait :: int
  rq_nr_uninterruptible :: u64
  rq_clock :: u64
  rq_clock_task :: u64
  clock_update_flags :: u32
  rq_prev_mm :: "nat option"
  balance_callbacks :: "nat list"
  mm_count :: "nat \<Rightarrow> int"
  put_tasks :: "tid list"

text \<open>What a class returns from \<^verbatim>\<open>pick_next_task\<close>: a task, nothing, or \<^verbatim>\<open>RETRY_TASK\<close>.\<close>

datatype pick = Retry | NoTask | Picked tid

record 's pclass_ops =
  cl_balance :: "tid \<Rightarrow> 's \<Rightarrow> bool \<times> 's"
  cl_pick :: "tid option \<Rightarrow> 's \<Rightarrow> pick \<times> 's"
  cl_dequeue :: "tid \<Rightarrow> u32 \<Rightarrow> 's \<Rightarrow> 's"
  cl_task_dead :: "(tid \<Rightarrow> 's \<Rightarrow> 's) option"

record 's penv =
  class_order :: "nat list"
  fair_class :: nat
  idle_class :: nat
  class_ops :: "nat \<Rightarrow> 's pclass_ops"
  put_prev :: "tid \<Rightarrow> 's \<Rightarrow> 's"
  run_callback :: "nat \<Rightarrow> 's \<Rightarrow> 's"
  sig_pending_state :: "u64 \<Rightarrow> tid \<Rightarrow> bool"
  sched_clock_cpu :: "'s \<Rightarrow> u64"
  worker_sleeping :: "tid \<Rightarrow> 's \<Rightarrow> 's"
  worker_running :: "tid \<Rightarrow> 's \<Rightarrow> 's"
  is_pi_blocked :: "tid \<Rightarrow> bool"
  needs_flush_plug :: "tid \<Rightarrow> bool"
  flush_plug :: "tid \<Rightarrow> 's \<Rightarrow> 's"
  RQCF_ACT_SKIP :: u32
  RQCF_REQ_SKIP :: u32
  DEQ_SLEEP :: u32
  DEQ_NOCLOCK :: u32
  ON_RQ_MIGRATING :: u32

definition upd_ptask :: "tid \<Rightarrow> (ptask \<Rightarrow> ptask) \<Rightarrow> 'a psys_scheme \<Rightarrow> 'a psys_scheme" where
  "upd_ptask p f s = s\<lparr>ptask_of := (ptask_of s)(p := f (ptask_of s p))\<rparr>"

section \<open>The clock and leaving the queue\<close>

definition ps_update_rq_clock_task :: "u64 \<Rightarrow> 'a psys_scheme \<Rightarrow> 'a psys_scheme" where
  "ps_update_rq_clock_task delta s = s\<lparr>rq_clock_task := rq_clock_task s + delta\<rparr>"

definition ps_update_rq_clock :: "'a psys_scheme penv \<Rightarrow> 'a psys_scheme \<Rightarrow> 'a psys_scheme" where
  "ps_update_rq_clock env s =
     (if clock_update_flags s AND RQCF_ACT_SKIP env \<noteq> 0 then s
      else
        let delta = sched_clock_cpu env s - rq_clock s in
        if sint delta < 0 then s
        else ps_update_rq_clock_task delta (s\<lparr>rq_clock := rq_clock s + delta\<rparr>))"

definition counts_as_load :: "ptask \<Rightarrow> bool" where
  "counts_as_load t \<longleftrightarrow>
     p_state t AND UNINTERRUPTIBLE_STATE \<noteq> 0 \<and> p_flags t AND FROZEN_FLAG = 0 \<and> p_state t AND NOLOAD_STATE = 0"

definition ps_dequeue_task ::
  "'a psys_scheme penv \<Rightarrow> tid \<Rightarrow> u32 \<Rightarrow> 'a psys_scheme \<Rightarrow> 'a psys_scheme" where
  "ps_dequeue_task env p flags s =
     (let s = (if flags AND DEQ_NOCLOCK env = 0 then ps_update_rq_clock env s else s)
      in cl_dequeue (class_ops env (p_class (ptask_of s p))) p flags s)"

definition ps_deactivate_task ::
  "'a psys_scheme penv \<Rightarrow> tid \<Rightarrow> u32 \<Rightarrow> 'a psys_scheme \<Rightarrow> 'a psys_scheme" where
  "ps_deactivate_task env p flags s =
     (let s = upd_ptask p (\<lambda>t. t\<lparr>p_on_rq := (if flags AND DEQ_SLEEP env \<noteq> 0 then 0 else ON_RQ_MIGRATING env)\<rparr>) s;
          s = (if counts_as_load (ptask_of s p)
               then s\<lparr>rq_nr_uninterruptible := rq_nr_uninterruptible s + 1\<rparr> else s)
      in ps_dequeue_task env p flags s)"

section \<open>The next task\<close>

fun balance_loop :: "'s penv \<Rightarrow> tid \<Rightarrow> nat list \<Rightarrow> 's \<Rightarrow> 's" where
  "balance_loop env prev [] s = s"
| "balance_loop env prev (c # cs) s =
     (case cl_balance (class_ops env c) prev s of (b, s) \<Rightarrow> if b then s else balance_loop env prev cs s)"

text \<open>The classes from \<open>c\<close> on, up to the idle class.\<close>

definition for_class_range :: "'s penv \<Rightarrow> nat \<Rightarrow> nat list" where
  "for_class_range env c = takeWhile (\<lambda>d. d \<noteq> idle_class env) (dropWhile (\<lambda>d. d \<noteq> c) (class_order env))"

fun pick_loop :: "'s penv \<Rightarrow> nat list \<Rightarrow> 's \<Rightarrow> (tid \<times> 's) option" where
  "pick_loop env [] s = None"
| "pick_loop env (c # cs) s =
     (case cl_pick (class_ops env c) None s of
        (Picked p, s) \<Rightarrow> Some (p, s)
      | (NoTask, s) \<Rightarrow> pick_loop env cs s
      | (Retry, s) \<Rightarrow> None)"

definition pick_restart :: "'a psys_scheme penv \<Rightarrow> tid \<Rightarrow> 'a psys_scheme \<Rightarrow> (tid \<times> 'a psys_scheme) option" where
  "pick_restart env prev s =
     (let s = balance_loop env prev (for_class_range env (p_class (ptask_of s prev))) s;
          s = put_prev env prev s
      in pick_loop env (class_order env) s)"

definition ps_pick_next_task ::
  "'a psys_scheme penv \<Rightarrow> tid \<Rightarrow> 'a psys_scheme \<Rightarrow> (tid \<times> 'a psys_scheme) option" where
  "ps_pick_next_task env prev s =
     (let c = p_class (ptask_of s prev) in
      if (c = idle_class env \<or> c = fair_class env) \<and> rq_nr_running s = rq_cfs_h_nr_running s then
        (case cl_pick (class_ops env (fair_class env)) (Some prev) s of
           (Retry, s) \<Rightarrow> pick_restart env prev s
         | (Picked p, s) \<Rightarrow> Some (p, s)
         | (NoTask, s) \<Rightarrow>
             (case cl_pick (class_ops env (idle_class env)) (Some prev) s of
                (Picked p, s) \<Rightarrow> Some (p, s)
              | (_, s) \<Rightarrow> None))
      else pick_restart env prev s)"

section \<open>The switch\<close>

definition mmgrab :: "nat option \<Rightarrow> 'a psys_scheme \<Rightarrow> 'a psys_scheme" where
  "mmgrab mm s = (case mm of None \<Rightarrow> s | Some m \<Rightarrow> s\<lparr>mm_count := (mm_count s)(m := mm_count s m + 1)\<rparr>)"

definition mmdrop :: "nat option \<Rightarrow> 'a psys_scheme \<Rightarrow> 'a psys_scheme" where
  "mmdrop mm s = (case mm of None \<Rightarrow> s | Some m \<Rightarrow> s\<lparr>mm_count := (mm_count s)(m := mm_count s m - 1)\<rparr>)"

definition prepare_task :: "tid \<Rightarrow> 'a psys_scheme \<Rightarrow> 'a psys_scheme" where
  "prepare_task next s = upd_ptask next (\<lambda>t. t\<lparr>p_on_cpu := True\<rparr>) s"

definition finish_task :: "tid \<Rightarrow> 'a psys_scheme \<Rightarrow> 'a psys_scheme" where
  "finish_task prev s = upd_ptask prev (\<lambda>t. t\<lparr>p_on_cpu := False\<rparr>) s"

definition ps_prepare_task_switch :: "tid \<Rightarrow> tid \<Rightarrow> 'a psys_scheme \<Rightarrow> 'a psys_scheme" where
  "ps_prepare_task_switch prev next s = prepare_task next s"

definition ps_finish_task_switch :: "'a psys_scheme penv \<Rightarrow> tid \<Rightarrow> 'a psys_scheme \<Rightarrow> 'a psys_scheme" where
  "ps_finish_task_switch env prev s =
     (let mm = rq_prev_mm s;
          s = s\<lparr>rq_prev_mm := None\<rparr>;
          prev_state = p_state (ptask_of s prev);
          s = finish_task prev s;
          s = mmdrop mm s
      in if prev_state = DEAD_STATE then
           (let s = (case cl_task_dead (class_ops env (p_class (ptask_of s prev))) of
                       None \<Rightarrow> s | Some task_dead \<Rightarrow> task_dead prev s)
            in s\<lparr>put_tasks := put_tasks s @ [prev]\<rparr>)
         else s)"

text \<open>The address spaces: a kernel thread borrows that of the task before it.\<close>

definition switch_mm :: "tid \<Rightarrow> tid \<Rightarrow> 'a psys_scheme \<Rightarrow> 'a psys_scheme" where
  "switch_mm prev next s =
     (let prev_active = p_active_mm (ptask_of s prev) in
      if p_mm (ptask_of s next) = None then
        (let s = upd_ptask next (\<lambda>t. t\<lparr>p_active_mm := prev_active\<rparr>) s in
         if p_mm (ptask_of s prev) \<noteq> None then mmgrab prev_active s
         else upd_ptask prev (\<lambda>t. t\<lparr>p_active_mm := None\<rparr>) s)
      else if p_mm (ptask_of s prev) = None then
        (let s = s\<lparr>rq_prev_mm := prev_active\<rparr>
         in upd_ptask prev (\<lambda>t. t\<lparr>p_active_mm := None\<rparr>) s)
      else s)"

definition clear_skip :: "'a psys_scheme penv \<Rightarrow> 'a psys_scheme \<Rightarrow> 'a psys_scheme" where
  "clear_skip env s =
     s\<lparr>clock_update_flags := clock_update_flags s AND NOT (RQCF_ACT_SKIP env OR RQCF_REQ_SKIP env)\<rparr>"

definition ps_context_switch :: "'a psys_scheme penv \<Rightarrow> tid \<Rightarrow> tid \<Rightarrow> 'a psys_scheme \<Rightarrow> 'a psys_scheme" where
  "ps_context_switch env prev next s =
     (let s = ps_prepare_task_switch prev next s;
          s = switch_mm prev next s;
          s = clear_skip env s
      in ps_finish_task_switch env prev s)"

definition balance_callback :: "'a psys_scheme penv \<Rightarrow> 'a psys_scheme \<Rightarrow> 'a psys_scheme" where
  "balance_callback env s = fold (run_callback env) (balance_callbacks s) (s\<lparr>balance_callbacks := []\<rparr>)"

section \<open>The scheduler\<close>

text \<open>The task that runs goes to sleep, if it asked to and no signal is pending.\<close>

definition prev_sleeps :: "'a psys_scheme penv \<Rightarrow> tid \<Rightarrow> 'a psys_scheme \<Rightarrow> 'a psys_scheme" where
  "prev_sleeps env prev s =
     (if sig_pending_state env (p_state (ptask_of s prev)) prev
      then upd_ptask prev (\<lambda>t. t\<lparr>p_state := RUNNING_STATE\<rparr>) s
      else
        let s = ps_deactivate_task env prev (DEQ_SLEEP env OR DEQ_NOCLOCK env) s
        in if p_in_iowait (ptask_of s prev) then s\<lparr>rq_nr_iowait := rq_nr_iowait s + 1\<rparr> else s)"

text \<open>From the chosen task on: the counters and the switch to it.\<close>

definition dispatch :: "'a psys_scheme penv \<Rightarrow> bool \<Rightarrow> tid \<Rightarrow> tid \<Rightarrow> 'a psys_scheme \<Rightarrow> 'a psys_scheme" where
  "dispatch env voluntary prev next s =
     (let s = upd_ptask prev (\<lambda>t. t\<lparr>p_need_resched := False\<rparr>) s;
          s = upd_ptask next (\<lambda>t. t\<lparr>ctx := ctx t + 1\<rparr>) s
      in if prev \<noteq> next then
           (let s = s\<lparr>rq_nr_switches := rq_nr_switches s + 1\<rparr>;
                s = s\<lparr>p_curr := next\<rparr>;
                s = upd_ptask prev (\<lambda>t. if voluntary then t\<lparr>p_nvcsw := p_nvcsw t + 1\<rparr>
                                         else t\<lparr>p_nivcsw := p_nivcsw t + 1\<rparr>) s
            in ps_context_switch env prev next s)
         else clear_skip env s)"

definition ps_schedule1 :: "'a psys_scheme penv \<Rightarrow> bool \<Rightarrow> 'a psys_scheme \<Rightarrow> 'a psys_scheme option" where
  "ps_schedule1 env preempt s =
     (let prev = p_curr s;
          s = s\<lparr>clock_update_flags := push_bit 1 (clock_update_flags s)\<rparr>;
          s = ps_update_rq_clock env s;
          voluntary = (\<not> preempt \<and> p_state (ptask_of s prev) \<noteq> 0);
          s = (if voluntary then prev_sleeps env prev s else s)
      in case ps_pick_next_task env prev s of
           None \<Rightarrow> None
         | Some (next, s) \<Rightarrow> Some (balance_callback env (dispatch env voluntary prev next s)))"

text \<open>
  The loops of the entry points: the task that runs afterwards is the one that tests its
  flag.
\<close>

partial_function (option) ps_schedule_loop ::
  "'a psys_scheme penv \<Rightarrow> bool \<Rightarrow> 'a psys_scheme \<Rightarrow> 'a psys_scheme option" where
  "ps_schedule_loop env preempt s =
     (case ps_schedule1 env preempt s of
        None \<Rightarrow> None
      | Some s \<Rightarrow> if p_need_resched (ptask_of s (p_curr s)) then ps_schedule_loop env preempt s else Some s)"

definition ps_sched_submit_work :: "'a psys_scheme penv \<Rightarrow> tid \<Rightarrow> 'a psys_scheme \<Rightarrow> 'a psys_scheme" where
  "ps_sched_submit_work env tsk s =
     (if p_state (ptask_of s tsk) = 0 then s
      else
        let s = (if p_flags (ptask_of s tsk) AND WQ_WORKER_FLAG \<noteq> 0 then worker_sleeping env tsk s else s)
        in if is_pi_blocked env tsk then s
           else if needs_flush_plug env tsk then flush_plug env tsk s else s)"

definition sched_update_worker :: "'a psys_scheme penv \<Rightarrow> tid \<Rightarrow> 'a psys_scheme \<Rightarrow> 'a psys_scheme" where
  "sched_update_worker env tsk s =
     (if p_flags (ptask_of s tsk) AND WQ_WORKER_FLAG \<noteq> 0 then worker_running env tsk s else s)"

definition ps_schedule :: "'a psys_scheme penv \<Rightarrow> 'a psys_scheme \<Rightarrow> 'a psys_scheme option" where
  "ps_schedule env s =
     map_option (\<lambda>s. sched_update_worker env (p_curr s) s)
       (ps_schedule_loop env False (ps_sched_submit_work env (p_curr s) s))"

definition schedule_idle :: "'a psys_scheme penv \<Rightarrow> 'a psys_scheme \<Rightarrow> 'a psys_scheme option" where
  "schedule_idle env s = ps_schedule_loop env False s"

definition schedule_preempt_disabled :: "'a psys_scheme penv \<Rightarrow> 'a psys_scheme \<Rightarrow> 'a psys_scheme option" where
  "schedule_preempt_disabled env s = ps_schedule env s"

definition preempt_schedule_common :: "'a psys_scheme penv \<Rightarrow> 'a psys_scheme \<Rightarrow> 'a psys_scheme option" where
  "preempt_schedule_common env s = ps_schedule_loop env True s"

definition ps_preempt_schedule :: "'a psys_scheme penv \<Rightarrow> bool \<Rightarrow> 'a psys_scheme \<Rightarrow> 'a psys_scheme option" where
  "ps_preempt_schedule env preemptible s = (if \<not> preemptible then Some s else preempt_schedule_common env s)"

definition ps_preempt_schedule_irq ::
  "'a psys_scheme penv \<Rightarrow> u32 \<Rightarrow> bool \<Rightarrow> 'a psys_scheme \<Rightarrow> 'a psys_scheme option" where
  "ps_preempt_schedule_irq env preempt_count irqs_disabled s =
     (if preempt_count \<noteq> 0 \<or> \<not> irqs_disabled then None else ps_schedule_loop env True s)"

text \<open>The last call of a task; it comes back only by a bug.\<close>

definition do_task_dead :: "'a psys_scheme penv \<Rightarrow> 'a psys_scheme \<Rightarrow> 'a psys_scheme option" where
  "do_task_dead env s =
     (let prev = p_curr s;
          s = upd_ptask prev (\<lambda>t. t\<lparr>p_state := DEAD_STATE\<rparr>) s;
          s = upd_ptask prev (\<lambda>t. t\<lparr>p_flags := p_flags t OR NOFREEZE_FLAG\<rparr>) s
      in case ps_schedule1 env False s of
           None \<Rightarrow> None
         | Some s \<Rightarrow> if p_curr s = prev then None else Some s)"

section \<open>The creation of a task\<close>

text \<open>
  \<open>clone_vm\<close> is the flag \<^verbatim>\<open>CLONE_VM\<close>; \<open>dup\<close> is the outcome of \<^verbatim>\<open>dup_mm\<close>: a new address
  space, with one reference, or none.
\<close>

definition copy_mm :: "bool \<Rightarrow> nat option \<Rightarrow> tid \<Rightarrow> 'a psys_scheme \<Rightarrow> 'a psys_scheme status" where
  "copy_mm clone_vm dup tsk s =
     (let s = upd_ptask tsk (\<lambda>t. t\<lparr>p_nvcsw := 0, p_nivcsw := 0\<rparr>) s;
          s = upd_ptask tsk (\<lambda>t. t\<lparr>p_mm := None, p_active_mm := None\<rparr>) s
      in case p_mm (ptask_of s (p_curr s)) of
           None \<Rightarrow> (Inr (), s)
         | Some oldmm \<Rightarrow>
             if clone_vm then
               (Inr (), upd_ptask tsk (\<lambda>t. t\<lparr>p_mm := Some oldmm, p_active_mm := Some oldmm\<rparr>) s)
             else
               (case dup of
                  None \<Rightarrow> (Inl ENOMEM, s)
                | Some mm \<Rightarrow>
                    (Inr (), upd_ptask tsk (\<lambda>t. t\<lparr>p_mm := Some mm, p_active_mm := Some mm\<rparr>)
                       (s\<lparr>mm_count := (mm_count s)(mm := 1)\<rparr>))))"

text \<open>
  The copy of the running task and the fields that \<^verbatim>\<open>copy_process\<close> sets itself. Its other
  steps (credentials, limits, signals, files) and those of \<^verbatim>\<open>sched_fork\<close> do not concern the
  counters.
\<close>

definition dup_task_struct :: "ptask \<Rightarrow> ptask" where
  "dup_task_struct orig = orig\<lparr>p_need_resched := False\<rparr>"

definition copy_process_fields :: "ptask \<Rightarrow> ptask" where
  "copy_process_fields t =
     (let t = t\<lparr>p_flags := p_flags t AND NOT (SUPERPRIV_FLAG OR WQ_WORKER_FLAG OR IDLE_FLAG)\<rparr>;
          t = t\<lparr>p_flags := p_flags t OR FORKNOEXEC_FLAG\<rparr>
      in t\<lparr>ctx := 0\<rparr>)"

definition fork_task :: "bool \<Rightarrow> nat option \<Rightarrow> tid \<Rightarrow> 'a psys_scheme \<Rightarrow> 'a psys_scheme status" where
  "fork_task clone_vm dup p s =
     (let s = upd_ptask p (\<lambda>_. dup_task_struct (ptask_of s (p_curr s))) s;
          s = upd_ptask p copy_process_fields s
      in copy_mm clone_vm dup p s)"

section \<open>The file /proc/PID/ctx\<close>

fun decimal_nat :: "nat \<Rightarrow> string" where
  "decimal_nat n = (if n < 10 then [char_of (n + 48)] else decimal_nat (n div 10) @ [char_of (n mod 10 + 48)])"

declare decimal_nat.simps [simp del]

definition proc_pid_ctx :: "string \<Rightarrow> tid \<Rightarrow> 'a psys_scheme \<Rightarrow> string" where
  "proc_pid_ctx m task s = m @ decimal_nat (unat (ctx (ptask_of s task))) @ ''\<newline>''"

end
