(* ===== verification/Dispatch_Correct.thy ===== *)
theory Dispatch_Correct
  imports Dispatch
begin

text \<open>
  Correctness of the dispatch counter and of the memory references of the switch, for
  classes that keep to their own data.
\<close>

section \<open>What the classes leave alone\<close>

definition same_account :: "ptask \<Rightarrow> ptask \<Rightarrow> bool" where
  "same_account t t' \<longleftrightarrow>
     ctx t' = ctx t \<and> p_nvcsw t' = p_nvcsw t \<and> p_nivcsw t' = p_nivcsw t \<and>
     p_mm t' = p_mm t \<and> p_active_mm t' = p_active_mm t"

definition pkeep :: "'a psys_scheme \<Rightarrow> 'a psys_scheme \<Rightarrow> bool" where
  "pkeep s s' \<longleftrightarrow>
     p_curr s' = p_curr s \<and> rq_nr_switches s' = rq_nr_switches s \<and> rq_prev_mm s' = rq_prev_mm s \<and>
     mm_count s' = mm_count s \<and> (\<forall>p. same_account (ptask_of s p) (ptask_of s' p))"

definition classes_keep :: "'a psys_scheme penv \<Rightarrow> bool" where
  "classes_keep env \<longleftrightarrow>
     (\<forall>c p s. pkeep s (snd (cl_balance (class_ops env c) p s))) \<and>
     (\<forall>c p s. pkeep s (snd (cl_pick (class_ops env c) p s))) \<and>
     (\<forall>c p f s. pkeep s (cl_dequeue (class_ops env c) p f s)) \<and>
     (\<forall>c f p s. cl_task_dead (class_ops env c) = Some f \<longrightarrow> pkeep s (f p s)) \<and>
     (\<forall>p s. pkeep s (put_prev env p s)) \<and> (\<forall>c s. pkeep s (run_callback env c s)) \<and>
     (\<forall>p s. pkeep s (worker_sleeping env p s)) \<and> (\<forall>p s. pkeep s (worker_running env p s)) \<and>
     (\<forall>p s. pkeep s (flush_plug env p s))"

lemma same_account_refl [simp]: "same_account t t"
  by (simp add: same_account_def)

lemma pkeep_refl [simp]: "pkeep s s"
  by (simp add: pkeep_def)

lemma pkeep_trans [trans]: "pkeep s s1 \<Longrightarrow> pkeep s1 s2 \<Longrightarrow> pkeep s s2"
  by (simp add: pkeep_def same_account_def)

lemma pkeep_upd_ptask: "(\<And>t. same_account t (f t)) \<Longrightarrow> pkeep s (upd_ptask p f s)"
  by (simp add: pkeep_def upd_ptask_def)

lemma pkeep_fields [simp]:
  "pkeep s (s\<lparr>clock_update_flags := x\<rparr>)" "pkeep s (s\<lparr>rq_clock := y\<rparr>)" "pkeep s (s\<lparr>rq_clock_task := y\<rparr>)"
  "pkeep s (s\<lparr>rq_nr_iowait := i\<rparr>)" "pkeep s (s\<lparr>rq_nr_uninterruptible := y\<rparr>)"
  "pkeep s (s\<lparr>balance_callbacks := cs\<rparr>)" "pkeep s (s\<lparr>put_tasks := ps\<rparr>)"
  by (simp_all add: pkeep_def)

lemma classes_keepD:
  assumes "classes_keep env"
  shows "pkeep s (snd (cl_balance (class_ops env c) p s))" "pkeep s (snd (cl_pick (class_ops env c) q s))"
    "pkeep s (cl_dequeue (class_ops env c) p f s)" "pkeep s (put_prev env p s)" "pkeep s (run_callback env c s)"
    "pkeep s (worker_sleeping env p s)" "pkeep s (worker_running env p s)" "pkeep s (flush_plug env p s)"
    "cl_task_dead (class_ops env c) = Some g \<Longrightarrow> pkeep s (g p s)"
  using assms by (auto simp: classes_keep_def)

lemma ps_update_rq_clock_keeps: "pkeep s (ps_update_rq_clock env s)"
  by (simp add: ps_update_rq_clock_def ps_update_rq_clock_task_def Let_def pkeep_def)

lemma ps_deactivate_task_keeps:
  assumes "classes_keep env"
  shows "pkeep s (ps_deactivate_task env p f s)"
proof -
  define s1 where "s1 = upd_ptask p (\<lambda>t. t\<lparr>p_on_rq := (if f AND DEQ_SLEEP env \<noteq> 0 then 0 else ON_RQ_MIGRATING env)\<rparr>) s"
  define s2 where "s2 = (if counts_as_load (ptask_of s1 p)
    then s1\<lparr>rq_nr_uninterruptible := rq_nr_uninterruptible s1 + 1\<rparr> else s1)"
  define s3 where "s3 = (if f AND DEQ_NOCLOCK env = 0 then ps_update_rq_clock env s2 else s2)"
  have "pkeep s s1" by (simp add: s1_def pkeep_upd_ptask same_account_def)
  also have "pkeep s1 s2" by (simp add: s2_def)
  also have "pkeep s2 s3" by (simp add: s3_def ps_update_rq_clock_keeps)
  also have "pkeep s3 (ps_deactivate_task env p f s)"
    using classes_keepD(3) [OF assms] by (simp add: ps_deactivate_task_def ps_dequeue_task_def Let_def s1_def s2_def s3_def)
  finally show ?thesis .
qed

lemma prev_sleeps_keeps:
  assumes "classes_keep env"
  shows "pkeep s (prev_sleeps env p s)"
proof -
  define s1 where "s1 = ps_deactivate_task env p (DEQ_SLEEP env OR DEQ_NOCLOCK env) s"
  have "pkeep s s1" using ps_deactivate_task_keeps [OF assms] by (simp add: s1_def)
  then have "pkeep s (if p_in_iowait (ptask_of s1 p) then s1\<lparr>rq_nr_iowait := rq_nr_iowait s1 + 1\<rparr> else s1)"
    using pkeep_trans [OF _ pkeep_fields(4)] by auto
  moreover have "pkeep s (upd_ptask p (\<lambda>t. t\<lparr>p_state := RUNNING_STATE\<rparr>) s)"
    by (simp add: pkeep_upd_ptask same_account_def)
  ultimately show ?thesis by (simp add: prev_sleeps_def Let_def flip: s1_def)
qed

lemma balance_loop_keeps:
  assumes "classes_keep env"
  shows "pkeep s (balance_loop env p cs s)"
proof (induction cs arbitrary: s)
  case (Cons c cs)
  show ?case using classes_keepD(1) [OF assms, of s c p] Cons.IH
    by (auto split: prod.split intro: pkeep_trans)
qed simp

lemma pick_loop_keeps:
  assumes "classes_keep env" "pick_loop env cs s = Some (p, s')"
  shows "pkeep s s'"
  using assms(2)
proof (induction cs arbitrary: s)
  case (Cons c cs)
  obtain r s1 where r: "cl_pick (class_ops env c) None s = (r, s1)" by (rule prod.exhaust)
  have "pkeep s s1" using classes_keepD(2) [OF assms(1), of s c None] r by simp
  then show ?case using Cons r by (cases r) (auto intro: pkeep_trans)
qed simp

lemma pick_restart_keeps:
  assumes "classes_keep env" "pick_restart env prev s = Some (p, s')"
  shows "pkeep s s'"
proof -
  define s1 where "s1 = balance_loop env prev (for_class_range env (p_class (ptask_of s prev))) s"
  have "pkeep s s1" unfolding s1_def by (rule balance_loop_keeps [OF assms(1)])
  also have "pkeep s1 (put_prev env prev s1)" by (rule classes_keepD [OF assms(1)])
  also have "pkeep (put_prev env prev s1) s'"
    using assms(2) by (intro pick_loop_keeps [OF assms(1)]) (simp add: pick_restart_def s1_def)
  finally show ?thesis .
qed

lemma ps_pick_next_task_keeps:
  assumes "classes_keep env" "ps_pick_next_task env prev s = Some (p, s')"
  shows "pkeep s s'"
proof -
  obtain r s1 where r: "cl_pick (class_ops env (fair_class env)) (Some prev) s = (r, s1)" by (rule prod.exhaust)
  obtain q s2 where q: "cl_pick (class_ops env (idle_class env)) (Some prev) s1 = (q, s2)" by (rule prod.exhaust)
  have 1: "pkeep s s1" using classes_keepD(2) [OF assms(1), of s "fair_class env" "Some prev"] r by simp
  have 2: "pkeep s1 s2" using classes_keepD(2) [OF assms(1), of s1 "idle_class env" "Some prev"] q by simp
  have 3: "pick_restart env prev t = Some (p, s') \<Longrightarrow> pkeep t s'" for t by (rule pick_restart_keeps [OF assms(1)])
  show ?thesis
    using assms(2) r q 1 pkeep_trans [OF 1 2] 3 pkeep_trans [OF 1 3 [of s1]]
    by (cases r; cases q) (auto simp: ps_pick_next_task_def Let_def split: if_splits)
qed

lemma balance_callback_keeps:
  assumes "classes_keep env"
  shows "pkeep s (balance_callback env s)"
proof -
  have "pkeep t (fold (run_callback env) cs t)" for cs t
  proof (induction cs arbitrary: t)
    case (Cons c cs)
    show ?case using pkeep_trans [OF classes_keepD(5) [OF assms] Cons.IH] by simp
  qed simp
  from pkeep_trans [OF pkeep_fields(6) this] show ?thesis by (simp add: balance_callback_def)
qed

section \<open>One dispatch\<close>

lemma mm_ref_fields [simp]:
  "p_curr (mmgrab m s) = p_curr s" "p_curr (mmdrop m s) = p_curr s"
  "rq_nr_switches (mmgrab m s) = rq_nr_switches s" "rq_nr_switches (mmdrop m s) = rq_nr_switches s"
  "rq_prev_mm (mmgrab m s) = rq_prev_mm s" "rq_prev_mm (mmdrop m s) = rq_prev_mm s"
  "ptask_of (mmgrab m s) = ptask_of s" "ptask_of (mmdrop m s) = ptask_of s"
  by (simp_all add: mmgrab_def mmdrop_def split: option.split)

lemma upd_ptask_fields [simp]:
  "p_curr (upd_ptask p f s) = p_curr s" "rq_nr_switches (upd_ptask p f s) = rq_nr_switches s"
  "rq_prev_mm (upd_ptask p f s) = rq_prev_mm s" "mm_count (upd_ptask p f s) = mm_count s"
  "ptask_of (upd_ptask p f s) q = (if q = p then f (ptask_of s p) else ptask_of s q)"
  by (simp_all add: upd_ptask_def)

text \<open>The counters and the memory after a switch, up to what the class does with a dead task.\<close>

definition switched :: "tid \<Rightarrow> tid \<Rightarrow> 'a psys_scheme \<Rightarrow> 'a psys_scheme" where
  "switched prev next s =
     (let s1 = switch_mm prev next (prepare_task next s)
      in mmdrop (rq_prev_mm s1) (finish_task prev (s1\<lparr>rq_prev_mm := None\<rparr>)))"

lemma ps_finish_task_switch_keeps:
  assumes "classes_keep env"
  shows "pkeep (mmdrop (rq_prev_mm s) (finish_task prev (s\<lparr>rq_prev_mm := None\<rparr>))) (ps_finish_task_switch env prev s)"
proof -
  define s2 where "s2 = mmdrop (rq_prev_mm s) (finish_task prev (s\<lparr>rq_prev_mm := None\<rparr>))"
  define s3 where "s3 = (case cl_task_dead (class_ops env (p_class (ptask_of s2 prev))) of
    None \<Rightarrow> s2 | Some task_dead \<Rightarrow> task_dead prev s2)"
  have "pkeep s2 s3" using classes_keepD(9) [OF assms] by (simp add: s3_def split: option.split)
  then have "pkeep s2 (s3\<lparr>put_tasks := put_tasks s3 @ [prev]\<rparr>)" by (rule pkeep_trans) simp
  then show ?thesis
    by (simp add: ps_finish_task_switch_def Let_def s2_def s3_def cong: option.case_cong)
qed

text \<open>The steps of the switch depend only on the data the classes leave alone.\<close>

lemma pkeep_upd_cong:
  assumes "pkeep s s'" "\<And>t t'. same_account t t' \<Longrightarrow> same_account (f t) (g t')"
  shows "pkeep (upd_ptask p f s) (upd_ptask p g s')"
  using assms by (simp add: pkeep_def)

lemma pkeep_mm_ref:
  "pkeep s s' \<Longrightarrow> pkeep (mmdrop m s) (mmdrop m s')" "pkeep s s' \<Longrightarrow> pkeep (mmgrab m s) (mmgrab m s')"
  by (simp_all add: pkeep_def mmdrop_def mmgrab_def split: option.split)

lemma pkeep_switch_mm:
  assumes "pkeep s s'"
  shows "pkeep (switch_mm prev next s) (switch_mm prev next s')"
proof -
  let ?A = "p_active_mm (ptask_of s prev)"
  have eq: "p_active_mm (ptask_of s' prev) = ?A" "p_mm (ptask_of s' prev) = p_mm (ptask_of s prev)"
    "p_mm (ptask_of s' next) = p_mm (ptask_of s next)"
    using assms by (auto simp: pkeep_def same_account_def)
  have u: "pkeep (upd_ptask p (\<lambda>t. t\<lparr>p_active_mm := m\<rparr>) t) (upd_ptask p (\<lambda>t. t\<lparr>p_active_mm := m\<rparr>) t')"
    if "pkeep t t'" for p m and t t' :: "'a psys_scheme"
    by (rule pkeep_upd_cong [OF that]) (simp add: same_account_def)
  have v: "pkeep (s\<lparr>rq_prev_mm := ?A\<rparr>) (s'\<lparr>rq_prev_mm := ?A\<rparr>)" using assms by (simp add: pkeep_def)
  show ?thesis
    using u [OF assms] pkeep_mm_ref(2) [OF u [OF assms]] u [OF u [OF assms]] u [OF v] assms
    by (cases "p_mm (ptask_of s prev)"; cases "p_mm (ptask_of s next)") (simp_all add: switch_mm_def Let_def eq)
qed

lemma pkeep_switched:
  assumes "pkeep s s'"
  shows "pkeep (switched prev next s) (switched prev next s')"
proof -
  have "pkeep (prepare_task next s) (prepare_task next s')"
    unfolding prepare_task_def by (rule pkeep_upd_cong [OF assms]) (simp add: same_account_def)
  then have m: "pkeep (switch_mm prev next (prepare_task next s)) (switch_mm prev next (prepare_task next s'))"
    by (rule pkeep_switch_mm)
  have "pkeep (finish_task prev (t\<lparr>rq_prev_mm := None\<rparr>)) (finish_task prev (t'\<lparr>rq_prev_mm := None\<rparr>))"
    if "pkeep t t'" for t t' :: "'a psys_scheme"
    unfolding finish_task_def
    by (rule pkeep_upd_cong) (use that in \<open>simp_all add: pkeep_def same_account_def\<close>)
  from pkeep_mm_ref(1) [OF this [OF m]] m show ?thesis by (simp add: switched_def Let_def pkeep_def)
qed

lemma ps_context_switch_keeps:
  assumes "classes_keep env"
  shows "pkeep (switched prev next s) (ps_context_switch env prev next s)"
proof -
  define s1 where "s1 = switch_mm prev next (prepare_task next s)"
  have "pkeep (switched prev next s)
      (mmdrop (rq_prev_mm (clear_skip env s1)) (finish_task prev ((clear_skip env s1)\<lparr>rq_prev_mm := None\<rparr>)))"
    by (simp add: switched_def s1_def Let_def pkeep_def clear_skip_def mmdrop_def finish_task_def split: option.split)
  also have "pkeep \<dots> (ps_context_switch env prev next s)"
    using ps_finish_task_switch_keeps [OF assms, of "clear_skip env s1" prev]
    by (simp add: ps_context_switch_def ps_prepare_task_switch_def Let_def s1_def)
  finally show ?thesis .
qed

lemma switched_counters:
  "p_curr (switched prev next s) = p_curr s" "rq_nr_switches (switched prev next s) = rq_nr_switches s"
  "ctx (ptask_of (switched prev next s) p) = ctx (ptask_of s p)"
  "p_nvcsw (ptask_of (switched prev next s) p) = p_nvcsw (ptask_of s p)"
  "p_nivcsw (ptask_of (switched prev next s) p) = p_nivcsw (ptask_of s p)"
  "p_mm (ptask_of (switched prev next s) p) = p_mm (ptask_of s p)"
  by (auto simp: switched_def switch_mm_def prepare_task_def finish_task_def Let_def)

definition counted :: "bool \<Rightarrow> tid \<Rightarrow> tid \<Rightarrow> 'a psys_scheme \<Rightarrow> 'a psys_scheme" where
  "counted voluntary prev next s =
     (let s = upd_ptask next (\<lambda>t. t\<lparr>ctx := ctx t + 1\<rparr>) s
      in if prev \<noteq> next then
           switched prev next
             (upd_ptask prev (\<lambda>t. if voluntary then t\<lparr>p_nvcsw := p_nvcsw t + 1\<rparr> else t\<lparr>p_nivcsw := p_nivcsw t + 1\<rparr>)
               (s\<lparr>rq_nr_switches := rq_nr_switches s + 1, p_curr := next\<rparr>))
         else s)"

lemma counted_effect:
  assumes "p_curr s = prev"
  shows "p_curr (counted v prev next s) = next"
    "rq_nr_switches (counted v prev next s) = rq_nr_switches s + (if prev = next then 0 else 1)"
    "ctx (ptask_of (counted v prev next s) p) = ctx (ptask_of s p) + (if p = next then 1 else 0)"
    "p_nvcsw (ptask_of (counted v prev next s) p) =
       p_nvcsw (ptask_of s p) + (if p = prev \<and> prev \<noteq> next \<and> v then 1 else 0)"
    "p_nivcsw (ptask_of (counted v prev next s) p) =
       p_nivcsw (ptask_of s p) + (if p = prev \<and> prev \<noteq> next \<and> \<not> v then 1 else 0)"
  using assms by (auto simp: counted_def switched_counters Let_def)

lemma dispatch_counted:
  assumes "classes_keep env"
  shows "pkeep (counted v prev next s) (dispatch env v prev next s)"
proof -
  define s0 where "s0 = upd_ptask prev (\<lambda>t. t\<lparr>p_need_resched := False\<rparr>) s"
  have k: "pkeep s s0" by (simp add: s0_def pkeep_upd_ptask same_account_def)
  let ?c = "\<lambda>s. upd_ptask next (\<lambda>t. t\<lparr>ctx := ctx t + 1\<rparr>) s"
  let ?n = "\<lambda>s. upd_ptask prev (\<lambda>t. if v then t\<lparr>p_nvcsw := p_nvcsw t + 1\<rparr> else t\<lparr>p_nivcsw := p_nivcsw t + 1\<rparr>)
    (s\<lparr>rq_nr_switches := rq_nr_switches s + 1, p_curr := next\<rparr>)"
  have c: "pkeep (?c s) (?c s0)" by (rule pkeep_upd_cong [OF k]) (simp add: same_account_def)
  have "pkeep (?n (?c s)) (?n (?c s0))"
    by (rule pkeep_upd_cong) (use c in \<open>simp_all add: pkeep_def same_account_def\<close>)
  then have "pkeep (switched prev next (?n (?c s))) (ps_context_switch env prev next (?n (?c s0)))"
    by (intro pkeep_trans [OF pkeep_switched ps_context_switch_keeps [OF assms]])
  moreover have "pkeep (?c s) (clear_skip env (?c s0))"
    unfolding clear_skip_def using c by (rule pkeep_trans) simp
  ultimately show ?thesis by (simp add: counted_def dispatch_def Let_def flip: s0_def)
qed

lemma ps_schedule1_counted:
  assumes "classes_keep env" "ps_schedule1 env pre s = Some s'"
  shows "\<exists>s1 s2 v next. ps_pick_next_task env (p_curr s) s2 = Some (next, s1) \<and>
    pkeep s s1 \<and> pkeep (counted v (p_curr s) next s1) s' \<and>
    v = (\<not> pre \<and> p_state (ptask_of s (p_curr s)) \<noteq> 0)"
proof -
  define prev where "prev = p_curr s"
  define s0 where "s0 = ps_update_rq_clock env (s\<lparr>clock_update_flags := push_bit 1 (clock_update_flags s)\<rparr>)"
  define v where "v = (\<not> pre \<and> p_state (ptask_of s0 prev) \<noteq> 0)"
  define s2 where "s2 = (if v then prev_sleeps env prev s0 else s0)"
  have "pkeep s s0" unfolding s0_def by (rule pkeep_trans [OF pkeep_fields(1) ps_update_rq_clock_keeps])
  also have "pkeep s0 s2" using prev_sleeps_keeps [OF assms(1)] by (simp add: s2_def)
  finally have k: "pkeep s s2" .
  have "(case ps_pick_next_task env prev s2 of None \<Rightarrow> None
      | Some (n, s) \<Rightarrow> Some (balance_callback env (dispatch env v prev n s))) = Some s'"
    using assms(2) unfolding ps_schedule1_def Let_def s2_def v_def s0_def prev_def .
  then obtain n s3 where p: "ps_pick_next_task env prev s2 = Some (n, s3)"
    and s': "s' = balance_callback env (dispatch env v prev n s3)"
    by (auto split: option.splits)
  have "p_state (ptask_of s0 prev) = p_state (ptask_of s prev)"
    by (simp add: s0_def ps_update_rq_clock_def ps_update_rq_clock_task_def Let_def)
  then have "v = (\<not> pre \<and> p_state (ptask_of s (p_curr s)) \<noteq> 0)" by (simp add: v_def prev_def)
  moreover have "pkeep s s3" using k ps_pick_next_task_keeps [OF assms(1) p] by (rule pkeep_trans)
  moreover have "pkeep (counted v prev n s3) s'"
    unfolding s' by (rule pkeep_trans [OF dispatch_counted [OF assms(1)] balance_callback_keeps [OF assms(1)]])
  ultimately show ?thesis using p unfolding prev_def by blast
qed

section \<open>Histories\<close>

text \<open>
  A history of one processor: dispatches, creations of tasks, and anything else the kernel
  does in between, which leaves the counters alone.
\<close>

datatype pevent = Dispatched tid | Forked tid

inductive history :: "'a psys_scheme penv \<Rightarrow> 'a psys_scheme \<Rightarrow> pevent list \<Rightarrow> 'a psys_scheme \<Rightarrow> bool" for env s where
  history_start: "history env s [] s"
| history_schedule: "history env s es s1 \<Longrightarrow> ps_schedule1 env pre s1 = Some s2 \<Longrightarrow>
    history env s (es @ [Dispatched (p_curr s2)]) s2"
| history_fork: "history env s es s1 \<Longrightarrow> p \<noteq> p_curr s1 \<Longrightarrow> fork_task vm dup p s1 = (r, s2) \<Longrightarrow>
    history env s (es @ [Forked p]) s2"
| history_other: "history env s es s1 \<Longrightarrow> pkeep s1 s2 \<Longrightarrow> history env s es s2"

text \<open>How often a task was dispatched since it was created, and how often the running task changed.\<close>

definition dispatches :: "tid \<Rightarrow> pevent list \<Rightarrow> nat" where
  "dispatches p es = length (filter (\<lambda>e. e = Dispatched p) (takeWhile (\<lambda>e. e \<noteq> Forked p) (rev es)))"

fun switches :: "tid \<Rightarrow> pevent list \<Rightarrow> nat" where
  "switches c [] = 0"
| "switches c (Dispatched p # es) = (if p = c then 0 else 1) + switches p es"
| "switches c (Forked p # es) = switches c es"

fun last_running :: "tid \<Rightarrow> pevent list \<Rightarrow> tid" where
  "last_running c [] = c"
| "last_running c (Dispatched p # es) = last_running p es"
| "last_running c (Forked p # es) = last_running c es"

lemma switches_snoc:
  "switches c (es @ [Dispatched p]) = switches c es + (if p = last_running c es then 0 else 1)"
  "switches c (es @ [Forked p]) = switches c es"
  "last_running c (es @ [Dispatched p]) = p" "last_running c (es @ [Forked p]) = last_running c es"
  by (induction c es rule: switches.induct) auto

lemma dispatches_snoc:
  "dispatches p (es @ [Dispatched q]) = dispatches p es + (if q = p then 1 else 0)"
  "dispatches p (es @ [Forked q]) = (if q = p then 0 else dispatches p es)"
  by (simp_all add: dispatches_def)

lemma fork_task_effect:
  assumes "fork_task vm dup p s = (r, s')" "p \<noteq> p_curr s"
  shows "p_curr s' = p_curr s" "rq_nr_switches s' = rq_nr_switches s" "rq_prev_mm s' = rq_prev_mm s"
    "q \<noteq> p \<Longrightarrow> ptask_of s' q = ptask_of s q" "ctx (ptask_of s' p) = 0"
    "p_active_mm (ptask_of s' p) = p_mm (ptask_of s' p)"
  using assms
  by (auto simp: fork_task_def copy_mm_def copy_process_fields_def Let_def split: option.splits if_splits)

lemma history_counts:
  assumes "classes_keep env" "history env s es s'"
  shows "p_curr s' = last_running (p_curr s) es \<and>
    rq_nr_switches s' = rq_nr_switches s + of_nat (switches (p_curr s) es) \<and>
    ctx (ptask_of s' p) = (if Forked p \<in> set es then 0 else ctx (ptask_of s p)) + of_nat (dispatches p es)"
  using assms(2)
proof induction
  case history_start
  show ?case by (simp add: dispatches_def)
next
  case (history_schedule es s1 pre s2)
  obtain s3 v n where k: "pkeep s1 s3" "pkeep (counted v (p_curr s1) n s3) s2"
    using ps_schedule1_counted [OF assms(1) history_schedule.hyps(2)] by blast
  have c: "p_curr s3 = p_curr s1" using k(1) by (simp add: pkeep_def)
  note e = counted_effect [OF c, of v n]
  have "p_curr s2 = n" "rq_nr_switches s2 = rq_nr_switches s1 + (if p_curr s1 = n then 0 else 1)"
    "ctx (ptask_of s2 p) = ctx (ptask_of s1 p) + (if p = n then 1 else 0)"
    using k e(1,2) e(3) [of p] by (auto simp: pkeep_def same_account_def)
  then show ?case using history_schedule.IH by (auto simp: switches_snoc dispatches_snoc)
next
  case (history_fork es s1 q vm dup r s2)
  note e = fork_task_effect [OF history_fork.hyps(3,2)]
  then show ?case using history_fork.IH e(4) [of p] e(5)
    by (cases "q = p") (auto simp: switches_snoc dispatches_snoc)
next
  case (history_other es s1 s2)
  then show ?case by (auto simp: pkeep_def same_account_def)
qed

text \<open>The entry points make histories.\<close>

lemma history_append:
  assumes "history env t fs s'" "history env s es t"
  shows "history env s (es @ fs) s'"
  using assms
proof induction
  case (history_schedule fs s1 pre s2)
  then show ?case using history.history_schedule [of env s "es @ fs" s1 pre s2] by simp
next
  case (history_fork fs s1 p vm dup r s2)
  then show ?case using history.history_fork [of env s "es @ fs" s1 p vm dup r s2] by simp
qed (auto intro: history.history_other)

lemma history_schedule1: "ps_schedule1 env pre s = Some t \<Longrightarrow> history env s [Dispatched (p_curr t)] t"
  using history_schedule [OF history_start] by fastforce

lemma ps_schedule_loop_history:
  assumes "ps_schedule_loop env pre s = Some s'"
  shows "\<exists>es. es \<noteq> [] \<and> history env s es s'"
proof (rule ps_schedule_loop.raw_induct [of "\<lambda>env pre s s'. \<exists>es. es \<noteq> [] \<and> history env s es s'", OF _ assms])
  fix loop and env :: "'a psys_scheme penv" and pre s s'
  assume IH: "\<And>env pre s s'. loop env pre s = Some s' \<Longrightarrow> \<exists>es. es \<noteq> [] \<and> history env s es s'"
    and r: "(case ps_schedule1 env pre s of None \<Rightarrow> None
      | Some s \<Rightarrow> if p_need_resched (ptask_of s (p_curr s)) then loop env pre s else Some s) = Some s'"
  obtain t where t: "ps_schedule1 env pre s = Some t" "t = s' \<or> loop env pre t = Some s'"
    using r by (auto split: option.splits if_splits)
  note h = history_schedule1 [OF t(1)]
  show "\<exists>es. es \<noteq> [] \<and> history env s es s'"
  proof (cases "t = s'")
    case False
    then obtain fs where "history env t fs s'" using IH t(2) by blast
    from history_append [OF this h] show ?thesis by blast
  qed (use h in blast)
qed

lemma ps_schedule_history:
  assumes "classes_keep env" "ps_schedule env s = Some s'"
  shows "\<exists>es. es \<noteq> [] \<and> history env s es s'"
proof -
  define s0 where "s0 = ps_sched_submit_work env (p_curr s) s"
  obtain t where t: "ps_schedule_loop env False s0 = Some t" "s' = sched_update_worker env (p_curr t) t"
    using assms(2) by (auto simp: ps_schedule_def s0_def)
  obtain es where es: "es \<noteq> []" "history env s0 es t" using ps_schedule_loop_history [OF t(1)] by blast
  note k = classes_keepD(6,8) [OF assms(1)]
  have "pkeep s s0" using k pkeep_trans [OF k] by (simp add: s0_def ps_sched_submit_work_def Let_def)
  from history_append [OF es(2) history_other [OF history_start this]] have "history env s es t" by simp
  moreover have "pkeep t s'" using classes_keepD(7) [OF assms(1)] by (simp add: t(2) sched_update_worker_def)
  ultimately show ?thesis using es(1) history_other by blast
qed

section \<open>The file\<close>

definition number_nat :: "string \<Rightarrow> nat" where
  "number_nat cs = foldl (\<lambda>a c. 10 * a + (of_char c - 48)) 0 cs"

lemma number_decimal_nat: "number_nat (decimal_nat n) = n"
proof (induction n rule: decimal_nat.induct)
  case (1 n)
  have d: "of_char (char_of (k + 48) :: char) - 48 = k" if "k < 10" for k :: nat
    using that by (simp add: of_char_of)
  show ?case
  proof (cases "n < 10")
    case True
    then show ?thesis using d [of n] by (subst decimal_nat.simps) (simp add: number_nat_def)
  next
    case False
    then have "number_nat (decimal_nat n) = 10 * number_nat (decimal_nat (n div 10)) + n mod 10"
      using d [of "n mod 10"] by (subst decimal_nat.simps) (simp add: number_nat_def)
    with 1 [OF False] show ?thesis by simp
  qed
qed

section \<open>The memory references\<close>

text \<open>
  A task with an address space uses it; the others borrow one while they run, and only then.
\<close>

definition mm_ok :: "'a psys_scheme \<Rightarrow> bool" where
  "mm_ok s \<longleftrightarrow>
     rq_prev_mm s = None \<and> p_active_mm (ptask_of s (p_curr s)) \<noteq> None \<and>
     (\<forall>p. p_mm (ptask_of s p) \<noteq> None \<longrightarrow> p_active_mm (ptask_of s p) = p_mm (ptask_of s p)) \<and>
     (\<forall>p. p \<noteq> p_curr s \<and> p_mm (ptask_of s p) = None \<longrightarrow> p_active_mm (ptask_of s p) = None)"

definition borrowed :: "'a psys_scheme \<Rightarrow> nat \<Rightarrow> int" where
  "borrowed s m =
     (if p_mm (ptask_of s (p_curr s)) = None \<and> p_active_mm (ptask_of s (p_curr s)) = Some m then 1 else 0)"

lemma mm_ok_pkeep: "pkeep s s' \<Longrightarrow> mm_ok s' = mm_ok s" "pkeep s s' \<Longrightarrow> borrowed s' m = borrowed s m"
  by (auto simp: mm_ok_def borrowed_def pkeep_def same_account_def)

lemma switched_mm:
  assumes "prev \<noteq> next" "p_curr s = next" "mm_ok (s\<lparr>p_curr := prev\<rparr>)"
  shows "mm_ok (switched prev next s)"
    and "mm_count (switched prev next s) m - borrowed (switched prev next s) m =
      mm_count s m - borrowed (s\<lparr>p_curr := prev\<rparr>) m"
proof -
  obtain a where a: "p_active_mm (ptask_of s prev) = Some a" using assms(3) by (auto simp: mm_ok_def)
  have n: "p_mm (ptask_of s next) = None \<Longrightarrow> p_active_mm (ptask_of s next) = None"
    using assms(1,3) by (auto simp: mm_ok_def)
  note d = switched_def switch_mm_def prepare_task_def finish_task_def mmgrab_def mmdrop_def Let_def
  show "mm_ok (switched prev next s)"
    using assms a by (cases "p_mm (ptask_of s prev)"; cases "p_mm (ptask_of s next)") (auto simp: mm_ok_def d)
  show "mm_count (switched prev next s) m - borrowed (switched prev next s) m =
      mm_count s m - borrowed (s\<lparr>p_curr := prev\<rparr>) m"
    using assms a n by (cases "p_mm (ptask_of s prev)"; cases "p_mm (ptask_of s next)")
      (auto simp: mm_ok_def borrowed_def d)
qed

lemma counted_mm:
  assumes "p_curr s = prev" "mm_ok s"
  shows "mm_ok (counted v prev next s)"
    and "mm_count (counted v prev next s) m - borrowed (counted v prev next s) m = mm_count s m - borrowed s m"
proof -
  define t where "t = upd_ptask prev (\<lambda>t. if v then t\<lparr>p_nvcsw := p_nvcsw t + 1\<rparr> else t\<lparr>p_nivcsw := p_nivcsw t + 1\<rparr>)
    (upd_ptask next (\<lambda>t. t\<lparr>ctx := ctx t + 1\<rparr>) s\<lparr>rq_nr_switches := rq_nr_switches s + 1, p_curr := next\<rparr>)"
  have t: "p_curr t = next" "mm_count t = mm_count s" "borrowed (t\<lparr>p_curr := prev\<rparr>) m = borrowed s m"
    "mm_ok (t\<lparr>p_curr := prev\<rparr>)"
    using assms by (auto simp: t_def mm_ok_def borrowed_def)
  have u: "mm_ok (upd_ptask next (\<lambda>t. t\<lparr>ctx := ctx t + 1\<rparr>) s)"
    "borrowed (upd_ptask next (\<lambda>t. t\<lparr>ctx := ctx t + 1\<rparr>) s) m = borrowed s m"
    using assms(2) by (auto simp: mm_ok_def borrowed_def)
  have c: "counted v prev next s =
      (if prev \<noteq> next then switched prev next t else upd_ptask next (\<lambda>t. t\<lparr>ctx := ctx t + 1\<rparr>) s)"
    by (simp add: counted_def t_def Let_def)
  show "mm_ok (counted v prev next s)"
    using switched_mm(1) [OF _ t(1,4)] u(1) unfolding c by simp
  show "mm_count (counted v prev next s) m - borrowed (counted v prev next s) m = mm_count s m - borrowed s m"
    using switched_mm(2) [OF _ t(1,4), of m] u(2) t(2,3) unfolding c by simp
qed

section \<open>An example\<close>

text \<open>Two classes; the first always chooses task 1.\<close>

definition ex_penv :: "psys penv" where
  "ex_penv =
     \<lparr>class_order = [0, 1], fair_class = 0, idle_class = 1,
      class_ops = (\<lambda>c. \<lparr>cl_balance = (\<lambda>p s. (False, s)), cl_pick = (\<lambda>p s. (Picked 1, s)),
        cl_dequeue = (\<lambda>p f s. s), cl_task_dead = None\<rparr>),
      put_prev = (\<lambda>p s. s), run_callback = (\<lambda>c s. s), sig_pending_state = (\<lambda>st p. False),
      sched_clock_cpu = (\<lambda>s. 100), worker_sleeping = (\<lambda>p s. s), worker_running = (\<lambda>p s. s),
      is_pi_blocked = (\<lambda>p. False), needs_flush_plug = (\<lambda>p. False), flush_plug = (\<lambda>p s. s),
      RQCF_ACT_SKIP = 2, RQCF_REQ_SKIP = 1, DEQ_SLEEP = 1, DEQ_NOCLOCK = 8, ON_RQ_MIGRATING = 2\<rparr>"

definition ex_d0 :: psys where
  "ex_d0 =
     \<lparr>ptask_of = (\<lambda>p. \<lparr>p_state = 0, p_flags = 0, p_on_cpu = (p = 0), p_on_rq = 1, ctx = 7, p_class = 0,
        p_in_iowait = False, p_need_resched = False, p_nvcsw = 0, p_nivcsw = 0,
        p_mm = (if p = 0 then None else Some 5), p_active_mm = Some 5\<rparr>),
      p_curr = 0, rq_nr_running = 2, rq_cfs_h_nr_running = 2, rq_nr_switches = 0, rq_nr_iowait = 0,
      rq_nr_uninterruptible = 0, rq_clock = 0, rq_clock_task = 0, clock_update_flags = 0, rq_prev_mm = None,
      balance_callbacks = [], mm_count = (\<lambda>m. 2), put_tasks = []\<rparr>"

definition ex_d1 :: psys where "ex_d1 = snd (fork_task True None 1 ex_d0)"
definition ex_d2 :: psys where "ex_d2 = the (ps_schedule1 ex_penv True ex_d1)"
definition ex_d3 :: psys where "ex_d3 = the (ps_schedule1 ex_penv True ex_d2)"

lemma ex_penv_keeps: "classes_keep ex_penv"
  by (simp add: classes_keep_def ex_penv_def)

lemma ex_penv_pick: "\<exists>t. ps_pick_next_task ex_penv p s = Some (1, t)"
  by (simp add: ps_pick_next_task_def pick_restart_def ex_penv_def Let_def)

lemma ex_dispatch: "\<exists>t. ps_schedule1 ex_penv True s = Some t \<and> p_curr t = 1"
proof -
  obtain t0 where "ps_pick_next_task ex_penv (p_curr s)
      (ps_update_rq_clock ex_penv (s\<lparr>clock_update_flags := push_bit 1 (clock_update_flags s)\<rparr>)) = Some (1, t0)"
    using ex_penv_pick by blast
  then obtain t where t: "ps_schedule1 ex_penv True s = Some t" by (auto simp: ps_schedule1_def Let_def)
  obtain s1 s2 v n where k: "ps_pick_next_task ex_penv (p_curr s) s2 = Some (n, s1)" "pkeep s s1"
    "pkeep (counted v (p_curr s) n s1) t"
    using ps_schedule1_counted [OF ex_penv_keeps t] by blast
  have "n = 1" using k(1) ex_penv_pick [of "p_curr s" s2] by simp
  moreover have "p_curr s1 = p_curr s" using k(2) by (simp add: pkeep_def)
  ultimately have "p_curr t = 1" using k(3) counted_effect(1) [of s1 "p_curr s"] by (simp add: pkeep_def)
  with t show ?thesis by blast
qed

lemma ex_history: "history ex_penv ex_d0 [Forked 1, Dispatched 1, Dispatched 1] ex_d3"
proof -
  have f: "fork_task True None 1 ex_d0 = (fst (fork_task True None 1 ex_d0), ex_d1)" by (simp add: ex_d1_def)
  have "history ex_penv ex_d0 ([] @ [Forked 1]) ex_d1"
    by (rule history_fork [OF history_start _ f]) (simp add: ex_d0_def)
  moreover have "ps_schedule1 ex_penv True ex_d1 = Some ex_d2" "ps_schedule1 ex_penv True ex_d2 = Some ex_d3"
    using ex_dispatch [of ex_d1] ex_dispatch [of ex_d2] by (auto simp: ex_d2_def ex_d3_def)
  ultimately have "history ex_penv ex_d0 ((([] @ [Forked 1]) @ [Dispatched (p_curr ex_d2)]) @ [Dispatched (p_curr ex_d3)]) ex_d3"
    by (rule history_schedule [OF history_schedule])
  moreover have "p_curr ex_d2 = 1" "p_curr ex_d3 = 1"
    using ex_dispatch [of ex_d1] ex_dispatch [of ex_d2] by (auto simp: ex_d2_def ex_d3_def)
  ultimately show ?thesis by simp
qed

section \<open>Properties\<close>

text \<open>
  C11. The dispatch counter. Whatever happened on a processor, with scheduling classes that
  keep to their own data, the counter of a task created meanwhile is the number of times
  the scheduler chose it since, modulo \<open>2^32\<close>, and this is the number that
  \<^verbatim>\<open>/proc/PID/ctx\<close> shows; the counter of an older task grew by that number. A choice of the
  task that runs already counts here too, while the number of switches of the processor counts only
  changes of the running task. Every return from \<^verbatim>\<open>schedule\<close> adds at least one dispatch.
\<close>

theorem ctx_counts_dispatches:
  assumes "classes_keep env" "history env s es s'"
  shows "(\<forall>p. ctx (ptask_of s' p) = (if Forked p \<in> set es then 0 else ctx (ptask_of s p)) + of_nat (dispatches p es)) \<and>
    (\<forall>p. Forked p \<in> set es \<longrightarrow> number_nat (butlast (proc_pid_ctx [] p s')) = dispatches p es mod 2 ^ 32) \<and>
    p_curr s' = last_running (p_curr s) es \<and>
    rq_nr_switches s' = rq_nr_switches s + of_nat (switches (p_curr s) es) \<and>
    (\<forall>t. ps_schedule env s' = Some t \<longrightarrow> (\<exists>fs. fs \<noteq> [] \<and> history env s (es @ fs) t))"
proof -
  note c = history_counts [OF assms]
  have "number_nat (butlast (proc_pid_ctx [] p s')) = dispatches p es mod 2 ^ 32" if "Forked p \<in> set es" for p
    using c [of p] that
    by (simp add: proc_pid_ctx_def butlast_append number_decimal_nat unsigned_of_nat take_bit_eq_mod)
  then show ?thesis
    using c ps_schedule_history [OF assms(1)] history_append [OF _ assms(2)] by blast
qed

theorem ctx_counts_dispatches_witness:
  "number_nat (butlast (proc_pid_ctx [] 1 ex_d3)) = 2 \<and> rq_nr_switches ex_d3 = 1"
proof -
  have "dispatches 1 [Forked 1, Dispatched 1, Dispatched 1] = 2"
    "switches (p_curr ex_d0) [Forked 1, Dispatched 1, Dispatched 1] = 1" "rq_nr_switches ex_d0 = 0"
    by (simp_all add: dispatches_def ex_d0_def)
  then show ?thesis using ctx_counts_dispatches [OF ex_penv_keeps ex_history] by simp
qed

text \<open>
  C12. The references of the switch. If every task with an address space uses it, and kernel
  threads borrow one only while they run, then this stays so through any history,
  and the count of references of an address space differs from what it was only by the
  reference that the running kernel thread borrows: each reference taken on a switch to a
  kernel thread is dropped exactly once, after the next switch to a task with its own.
\<close>

theorem context_switch_balances_references:
  assumes "classes_keep env" "mm_ok s" "history env s es s'"
  shows "mm_ok s' \<and>
    ((\<forall>p. Forked p \<notin> set es) \<longrightarrow> (\<forall>m. mm_count s' m - borrowed s' m = mm_count s m - borrowed s m))"
  using assms(3)
proof induction
  case (history_schedule es s1 pre s2)
  obtain s3 v n where k: "pkeep s1 s3" "pkeep (counted v (p_curr s1) n s3) s2"
    using ps_schedule1_counted [OF assms(1) history_schedule.hyps(2)] by blast
  have c: "p_curr s3 = p_curr s1" "mm_count s3 = mm_count s1" using k(1) by (simp_all add: pkeep_def)
  have i: "mm_ok s3" using history_schedule.IH mm_ok_pkeep(1) [OF k(1)] by simp
  have "mm_ok s2" using mm_ok_pkeep(1) [OF k(2)] counted_mm(1) [OF c(1) i] by simp
  moreover have "mm_count s2 m - borrowed s2 m = mm_count s1 m - borrowed s1 m" for m
  proof -
    have "mm_count s2 m - borrowed s2 m = mm_count s3 m - borrowed s3 m"
      using k(2) counted_mm(2) [OF c(1) i, of v n m] mm_ok_pkeep(2) [OF k(2)] by (simp add: pkeep_def)
    then show ?thesis using c(2) mm_ok_pkeep(2) [OF k(1)] by simp
  qed
  ultimately show ?case using history_schedule.IH by simp
next
  case (history_fork es s1 p vm dup r s2)
  note e = fork_task_effect [OF history_fork.hyps(3,2)]
  have "p_active_mm (ptask_of s2 q) = (if q = p then p_mm (ptask_of s2 p) else p_active_mm (ptask_of s1 q))"
    "p_mm (ptask_of s2 q) = (if q = p then p_mm (ptask_of s2 p) else p_mm (ptask_of s1 q))" for q
    using e(4) [of q] e(6) by auto
  then have "mm_ok s2" using history_fork.IH history_fork.hyps(2) e(1,3) unfolding mm_ok_def by (metis (no_types))
  then show ?case by auto
next
  case (history_other es s1 s2)
  then show ?case using mm_ok_pkeep [OF history_other.hyps(2)] by (simp add: pkeep_def)
qed (use assms(2) in simp)

theorem context_switch_balances_references_witness:
  "\<exists>t. ps_schedule1 ex_penv True ex_d0 = Some t \<and> mm_count t 5 = 1"
proof -
  have ok: "mm_ok ex_d0" by (simp add: mm_ok_def ex_d0_def)
  obtain t where t: "ps_schedule1 ex_penv True ex_d0 = Some t" "p_curr t = 1" using ex_dispatch by blast
  have h: "history ex_penv ex_d0 [Dispatched 1] t" using history_schedule1 [OF t(1)] t(2) by simp
  have "mm_ok t" "mm_count t 5 - borrowed t 5 = mm_count ex_d0 5 - borrowed ex_d0 5"
    using context_switch_balances_references [OF ex_penv_keeps ok h] by auto
  moreover have "borrowed ex_d0 5 = 1" "mm_count ex_d0 5 = 2" by (simp_all add: borrowed_def ex_d0_def)
  moreover have "borrowed t 5 = 0"
  proof -
    obtain s1 v n where k: "pkeep ex_d0 s1" "pkeep (counted v (p_curr ex_d0) n s1) t"
      using ps_schedule1_counted [OF ex_penv_keeps t(1)] by blast
    have "p_mm (ptask_of t 1) = p_mm (ptask_of ex_d0 1)"
      using k by (auto simp: pkeep_def same_account_def counted_def switched_counters Let_def split: if_splits)
    also have "\<dots> = Some 5" by (simp add: ex_d0_def)
    finally show ?thesis using t(2) by (simp add: borrowed_def)
  qed
  ultimately show ?thesis using t(1) by auto
qed

end
