(* ===== verification/Wait_Queue.thy ===== *)
theory Wait_Queue
  imports Sched_Core
begin

text \<open>
  Wait queues and completions of \<^verbatim>\<open>core.c\<close>: the wakeup of the entries of a queue,
  completions, and the functions that wait.

  An entry names its task, whether it is exclusive, and its wake function. The functions
  that wait are cut at their call of \<^verbatim>\<open>schedule_timeout\<close>, where other tasks run: the part
  before it either returns or goes to sleep, the part after it gets the time that is left.
  \<open>sleep\<close> stands for that call where a whole function is modelled: it says what the time left,
  the completion and the system are when the task runs again.
\<close>

section \<open>Waking up\<close>

record 's wait_queue_t =
  wq_task :: tid
  wq_exclusive :: bool
  wq_func :: "tid \<Rightarrow> ulong \<Rightarrow> u32 \<Rightarrow> nat \<Rightarrow> 's \<Rightarrow> (bool \<times> 's) option"

definition default_wake_function ::
  "'a ksys_scheme class_table \<Rightarrow> tid \<Rightarrow> ulong \<Rightarrow> u32 \<Rightarrow> nat \<Rightarrow> 'a ksys_scheme \<Rightarrow> (bool \<times> 'a ksys_scheme) option" where
  "default_wake_function C p mode wake_flags key s = try_to_wake_up C p mode wake_flags s"

fun wake_up_common1 ::
  "ulong \<Rightarrow> u32 \<Rightarrow> nat \<Rightarrow> 's wait_queue_t list \<Rightarrow> u32 \<Rightarrow> 's \<Rightarrow> 's option" where
  "wake_up_common1 mode wake_flags key [] nr_exclusive s = Some s"
| "wake_up_common1 mode wake_flags key (w # ws) nr_exclusive s =
     (case wq_func w (wq_task w) mode wake_flags key s of
        None \<Rightarrow> None
      | Some (r, s) \<Rightarrow>
          if r \<and> wq_exclusive w then
            (let nr_exclusive = nr_exclusive - 1
             in if nr_exclusive = 0 then Some s
                else wake_up_common1 mode wake_flags key ws nr_exclusive s)
          else wake_up_common1 mode wake_flags key ws nr_exclusive s)"

definition wake_up1 :: "'s wait_queue_t list \<Rightarrow> ulong \<Rightarrow> u32 \<Rightarrow> nat \<Rightarrow> 's \<Rightarrow> 's option" where
  "wake_up1 q mode nr_exclusive key s = wake_up_common1 mode 0 key q nr_exclusive s"

definition wake_up_locked1 :: "'s wait_queue_t list \<Rightarrow> ulong \<Rightarrow> u32 \<Rightarrow> 's \<Rightarrow> 's option" where
  "wake_up_locked1 q mode nr s = wake_up_common1 mode 0 0 q nr s"

definition wake_up_locked_key1 :: "'s wait_queue_t list \<Rightarrow> ulong \<Rightarrow> nat \<Rightarrow> 's \<Rightarrow> 's option" where
  "wake_up_locked_key1 q mode key s = wake_up_common1 mode 0 key q 1 s"

definition wake_up_sync_key1 ::
  "'s wait_queue_t list option \<Rightarrow> ulong \<Rightarrow> u32 \<Rightarrow> nat \<Rightarrow> 's \<Rightarrow> 's option" where
  "wake_up_sync_key1 q mode nr_exclusive key s =
     (case q of
        None \<Rightarrow> Some s
      | Some q \<Rightarrow>
          (let wake_flags = (if nr_exclusive = 0 then 0 else WF_SYNC)
           in wake_up_common1 mode wake_flags key q nr_exclusive s))"

definition wake_up_sync1 :: "'s wait_queue_t list option \<Rightarrow> ulong \<Rightarrow> u32 \<Rightarrow> 's \<Rightarrow> 's option" where
  "wake_up_sync1 q mode nr_exclusive s = wake_up_sync_key1 q mode nr_exclusive 0 s"

section \<open>Completions\<close>

record 's completion =
  x_done :: u32
  x_wait :: "'s wait_queue_t list"

definition complete :: "'s completion \<Rightarrow> 's \<Rightarrow> ('s completion \<times> 's) option" where
  "complete x s =
     (let x = x\<lparr>x_done := x_done x + 1\<rparr>
      in map_option (Pair x) (wake_up_common1 TASK_NORMAL 0 0 (x_wait x) 1 s))"

definition complete_all :: "'s completion \<Rightarrow> 's \<Rightarrow> ('s completion \<times> 's) option" where
  "complete_all x s =
     (let x = x\<lparr>x_done := x_done x + 0xFFFFFFFF div 2\<rparr>
      in map_option (Pair x) (wake_up_common1 TASK_NORMAL 0 0 (x_wait x) 0 s))"

text \<open>The value of \<^verbatim>\<open>timeout\<close> is an error or a number of jiffies.\<close>

type_synonym timeout = "errno + ulong"

datatype wait_out = Finished timeout | Sleeping ulong

definition take_one :: "timeout \<Rightarrow> 's completion \<Rightarrow> timeout \<times> 's completion" where
  "take_one timeout x = (if timeout = Inr 0 then Inr 1 else timeout, x\<lparr>x_done := x_done x - 1\<rparr>)"

definition remove_wait_queue1 :: "tid \<Rightarrow> 's wait_queue_t list \<Rightarrow> 's wait_queue_t list" where
  "remove_wait_queue1 p q = filter (\<lambda>w. wq_task w \<noteq> p) q"

definition wait_leave :: "tid \<Rightarrow> timeout \<Rightarrow> 's completion \<Rightarrow> timeout \<times> 's completion" where
  "wait_leave p timeout x =
     (let x = x\<lparr>x_wait := remove_wait_queue1 p (x_wait x)\<rparr>
      in if x_done x = 0 then (timeout, x) else take_one timeout x)"

definition wait_top ::
  "kenv \<Rightarrow> tid \<Rightarrow> ulong \<Rightarrow> ulong \<Rightarrow> 'a ksys_scheme completion \<Rightarrow> 'a ksys_scheme \<Rightarrow>
     wait_out \<times> 'a ksys_scheme completion \<times> 'a ksys_scheme" where
  "wait_top env p state timeout x s =
     (if signal_pending_state env state p then
        (case wait_leave p (Inl ERESTARTSYS) x of (r, x) \<Rightarrow> (Finished r, x, s))
      else (Sleeping timeout, x, upd_task p (\<lambda>t. t\<lparr>t_state := state\<rparr>) s))"

definition wait_begin ::
  "kenv \<Rightarrow> 'a ksys_scheme class_table \<Rightarrow> tid \<Rightarrow> ulong \<Rightarrow> ulong \<Rightarrow> 'a ksys_scheme completion \<Rightarrow> 'a ksys_scheme \<Rightarrow>
     wait_out \<times> 'a ksys_scheme completion \<times> 'a ksys_scheme" where
  "wait_begin env C p state timeout x s =
     (if x_done x = 0 then
        (let wait = \<lparr>wq_task = p, wq_exclusive = True, wq_func = default_wake_function C\<rparr>;
             x = x\<lparr>x_wait := x_wait x @ [wait]\<rparr>
         in wait_top env p state timeout x s)
      else (case take_one (Inr timeout) x of (r, x) \<Rightarrow> (Finished r, x, s)))"

definition wait_resume ::
  "kenv \<Rightarrow> tid \<Rightarrow> ulong \<Rightarrow> ulong \<Rightarrow> 'a ksys_scheme completion \<Rightarrow> 'a ksys_scheme \<Rightarrow>
     wait_out \<times> 'a ksys_scheme completion \<times> 'a ksys_scheme" where
  "wait_resume env p state timeout x s =
     (if x_done x = 0 \<and> timeout \<noteq> 0 then wait_top env p state timeout x s
      else (case wait_leave p (Inr timeout) x of (r, x) \<Rightarrow> (Finished r, x, s)))"

partial_function (option) wait_loop ::
  "(ulong \<Rightarrow> 'x \<times> 's \<Rightarrow> ulong \<times> 'x \<times> 's) \<Rightarrow> (ulong \<Rightarrow> 'x \<Rightarrow> 's \<Rightarrow> wait_out \<times> 'x \<times> 's) \<Rightarrow>
     wait_out \<times> 'x \<times> 's \<Rightarrow> (timeout \<times> 'x \<times> 's) option" where
  "wait_loop sleep resume r =
     (case r of
        (Finished t, x, s) \<Rightarrow> Some (t, x, s)
      | (Sleeping t, x, s) \<Rightarrow>
          (case sleep t (x, s) of (t, x, s) \<Rightarrow> wait_loop sleep resume (resume t x s)))"

type_synonym 's sleep_fun = "ulong \<Rightarrow> 's completion \<times> 's \<Rightarrow> ulong \<times> 's completion \<times> 's"

definition do_wait_for_common ::
  "kenv \<Rightarrow> 'a ksys_scheme class_table \<Rightarrow> 'a ksys_scheme sleep_fun \<Rightarrow> tid \<Rightarrow> ulong \<Rightarrow> ulong \<Rightarrow>
     'a ksys_scheme completion \<Rightarrow> 'a ksys_scheme \<Rightarrow> (timeout \<times> 'a ksys_scheme completion \<times> 'a ksys_scheme) option" where
  "do_wait_for_common env C sleep p timeout state x s =
     wait_loop sleep (wait_resume env p state) (wait_begin env C p state timeout x s)"

definition wait_for_common ::
  "kenv \<Rightarrow> 'a ksys_scheme class_table \<Rightarrow> 'a ksys_scheme sleep_fun \<Rightarrow> ulong \<Rightarrow> ulong \<Rightarrow>
     'a ksys_scheme completion \<Rightarrow> 'a ksys_scheme \<Rightarrow> (timeout \<times> 'a ksys_scheme completion \<times> 'a ksys_scheme) option" where
  "wait_for_common env C sleep timeout state x s = do_wait_for_common env C sleep (curr (rq s)) timeout state x s"

definition MAX_SCHEDULE_TIMEOUT :: ulong where "MAX_SCHEDULE_TIMEOUT = 0x7FFFFFFF"

definition wait_for_completion ::
  "kenv \<Rightarrow> 'a ksys_scheme class_table \<Rightarrow> 'a ksys_scheme sleep_fun \<Rightarrow>
     'a ksys_scheme completion \<Rightarrow> 'a ksys_scheme \<Rightarrow> ('a ksys_scheme completion \<times> 'a ksys_scheme) option" where
  "wait_for_completion env C sleep x s =
     map_option snd (wait_for_common env C sleep MAX_SCHEDULE_TIMEOUT TASK_UNINTERRUPTIBLE x s)"

definition wait_for_completion_timeout ::
  "kenv \<Rightarrow> 'a ksys_scheme class_table \<Rightarrow> 'a ksys_scheme sleep_fun \<Rightarrow> ulong \<Rightarrow>
     'a ksys_scheme completion \<Rightarrow> 'a ksys_scheme \<Rightarrow> (timeout \<times> 'a ksys_scheme completion \<times> 'a ksys_scheme) option" where
  "wait_for_completion_timeout env C sleep timeout x s = wait_for_common env C sleep timeout TASK_UNINTERRUPTIBLE x s"

text \<open>The functions without a time limit return only whether they were interrupted.\<close>

definition interrupted :: "timeout \<Rightarrow> errno + unit" where
  "interrupted t = (if t = Inl ERESTARTSYS then Inl ERESTARTSYS else Inr ())"

definition wait_for_completion_interruptible ::
  "kenv \<Rightarrow> 'a ksys_scheme class_table \<Rightarrow> 'a ksys_scheme sleep_fun \<Rightarrow>
     'a ksys_scheme completion \<Rightarrow> 'a ksys_scheme \<Rightarrow> ((errno + unit) \<times> 'a ksys_scheme completion \<times> 'a ksys_scheme) option" where
  "wait_for_completion_interruptible env C sleep x s =
     map_option (\<lambda>(t, r). (interrupted t, r)) (wait_for_common env C sleep MAX_SCHEDULE_TIMEOUT TASK_INTERRUPTIBLE x s)"

definition wait_for_completion_interruptible_timeout ::
  "kenv \<Rightarrow> 'a ksys_scheme class_table \<Rightarrow> 'a ksys_scheme sleep_fun \<Rightarrow> ulong \<Rightarrow>
     'a ksys_scheme completion \<Rightarrow> 'a ksys_scheme \<Rightarrow> (timeout \<times> 'a ksys_scheme completion \<times> 'a ksys_scheme) option" where
  "wait_for_completion_interruptible_timeout env C sleep timeout x s =
     wait_for_common env C sleep timeout TASK_INTERRUPTIBLE x s"

definition wait_for_completion_killable ::
  "kenv \<Rightarrow> 'a ksys_scheme class_table \<Rightarrow> 'a ksys_scheme sleep_fun \<Rightarrow>
     'a ksys_scheme completion \<Rightarrow> 'a ksys_scheme \<Rightarrow> ((errno + unit) \<times> 'a ksys_scheme completion \<times> 'a ksys_scheme) option" where
  "wait_for_completion_killable env C sleep x s =
     map_option (\<lambda>(t, r). (interrupted t, r)) (wait_for_common env C sleep MAX_SCHEDULE_TIMEOUT TASK_KILLABLE x s)"

definition wait_for_completion_killable_timeout ::
  "kenv \<Rightarrow> 'a ksys_scheme class_table \<Rightarrow> 'a ksys_scheme sleep_fun \<Rightarrow> ulong \<Rightarrow>
     'a ksys_scheme completion \<Rightarrow> 'a ksys_scheme \<Rightarrow> (timeout \<times> 'a ksys_scheme completion \<times> 'a ksys_scheme) option" where
  "wait_for_completion_killable_timeout env C sleep timeout x s =
     wait_for_common env C sleep timeout TASK_KILLABLE x s"

definition try_wait_for_completion :: "'s completion \<Rightarrow> bool \<times> 's completion" where
  "try_wait_for_completion x =
     (if x_done x = 0 then (False, x) else (True, x\<lparr>x_done := x_done x - 1\<rparr>))"

definition completion_done :: "'s completion \<Rightarrow> bool" where
  "completion_done x \<longleftrightarrow> x_done x \<noteq> 0"

section \<open>Sleeping on a queue\<close>

text \<open>\<open>sleep\<close> is again what happens while the task sleeps.\<close>

type_synonym 's queue_sleep = "ulong \<Rightarrow> 's wait_queue_t list \<times> 's \<Rightarrow> ulong \<times> 's wait_queue_t list \<times> 's"

definition sleep_on_common ::
  "'a ksys_scheme class_table \<Rightarrow> 'a ksys_scheme queue_sleep \<Rightarrow> ulong \<Rightarrow> ulong \<Rightarrow>
     'a ksys_scheme wait_queue_t list \<Rightarrow> 'a ksys_scheme \<Rightarrow> ulong \<times> 'a ksys_scheme wait_queue_t list \<times> 'a ksys_scheme" where
  "sleep_on_common C sleep state timeout q s =
     (let p = curr (rq s);
          wait = \<lparr>wq_task = p, wq_exclusive = False, wq_func = default_wake_function C\<rparr>;
          s = upd_task p (\<lambda>t. t\<lparr>t_state := state\<rparr>) s;
          q = list_add wait q
      in case sleep timeout (q, s) of
           (timeout, q, s) \<Rightarrow> (timeout, remove_wait_queue1 p q, s))"

definition interruptible_sleep_on ::
  "'a ksys_scheme class_table \<Rightarrow> 'a ksys_scheme queue_sleep \<Rightarrow>
     'a ksys_scheme wait_queue_t list \<Rightarrow> 'a ksys_scheme \<Rightarrow> 'a ksys_scheme wait_queue_t list \<times> 'a ksys_scheme" where
  "interruptible_sleep_on C sleep q s = snd (sleep_on_common C sleep TASK_INTERRUPTIBLE MAX_SCHEDULE_TIMEOUT q s)"

definition interruptible_sleep_on_timeout ::
  "'a ksys_scheme class_table \<Rightarrow> 'a ksys_scheme queue_sleep \<Rightarrow> ulong \<Rightarrow>
     'a ksys_scheme wait_queue_t list \<Rightarrow> 'a ksys_scheme \<Rightarrow> ulong \<times> 'a ksys_scheme wait_queue_t list \<times> 'a ksys_scheme" where
  "interruptible_sleep_on_timeout C sleep timeout q s = sleep_on_common C sleep TASK_INTERRUPTIBLE timeout q s"

definition sleep_on ::
  "'a ksys_scheme class_table \<Rightarrow> 'a ksys_scheme queue_sleep \<Rightarrow>
     'a ksys_scheme wait_queue_t list \<Rightarrow> 'a ksys_scheme \<Rightarrow> 'a ksys_scheme wait_queue_t list \<times> 'a ksys_scheme" where
  "sleep_on C sleep q s = snd (sleep_on_common C sleep TASK_UNINTERRUPTIBLE MAX_SCHEDULE_TIMEOUT q s)"

definition sleep_on_timeout ::
  "'a ksys_scheme class_table \<Rightarrow> 'a ksys_scheme queue_sleep \<Rightarrow> ulong \<Rightarrow>
     'a ksys_scheme wait_queue_t list \<Rightarrow> 'a ksys_scheme \<Rightarrow> ulong \<times> 'a ksys_scheme wait_queue_t list \<times> 'a ksys_scheme" where
  "sleep_on_timeout C sleep timeout q s = sleep_on_common C sleep TASK_UNINTERRUPTIBLE timeout q s"

end
