(* ===== verification/Wait_Queue_Correct.thy ===== *)
theory Wait_Queue_Correct
  imports Wait_Queue Sched_Core_Correct
begin

text \<open>
  Correctness of the wait queues and completions: which entries a wakeup calls, and that
  every signal of a completion lets exactly one task through, in any interleaving.
\<close>

section \<open>The entries that are called\<close>

text \<open>The wake functions of a list of entries, called one after the other, and their results.\<close>

fun wake_calls ::
  "ulong \<Rightarrow> u32 \<Rightarrow> nat \<Rightarrow> 's wait_queue_t list \<Rightarrow> 's \<Rightarrow> (bool list \<times> 's) option" where
  "wake_calls mode fl key [] s = Some ([], s)"
| "wake_calls mode fl key (w # ws) s =
     (case wq_func w (wq_task w) mode fl key s of
        None \<Rightarrow> None
      | Some (r, s) \<Rightarrow> map_option (\<lambda>(rs, s). (r # rs, s)) (wake_calls mode fl key ws s))"

definition woken :: "'s wait_queue_t list \<Rightarrow> bool list \<Rightarrow> nat" where
  "woken ws rs = length (filter (\<lambda>(w, r). r \<and> wq_exclusive w) (zip ws rs))"

lemma woken_simps [simp]:
  "woken [] rs = 0" "woken (w # ws) (r # rs) = (if r \<and> wq_exclusive w then 1 else 0) + woken ws rs"
  by (simp_all add: woken_def)

lemma woken_le: "woken ws rs \<le> length ws"
  unfolding woken_def by (rule order_trans [OF length_filter_le]) simp

lemma unat_done_pred: "(d :: u32) \<noteq> 0 \<Longrightarrow> unat (d - 1) + 1 = unat d"
  using unat_pred [of d] by (simp add: unat_gt_0 Suc_leI)

text \<open>The count wraps: 0 stands for \<open>2^32\<close> entries.\<close>

definition exclusive_limit :: "u32 \<Rightarrow> nat" where
  "exclusive_limit nr = (if nr = 0 then 2 ^ 32 else unat nr)"

lemma exclusive_limit_pred: "exclusive_limit nr = (if nr - 1 = 0 then 1 else Suc (exclusive_limit (nr - 1)))"
proof (cases "nr = 0")
  case True
  have "unat (- 1 :: u32) = 2 ^ 32 - 1" by (simp add: unsigned_minus_1_eq_mask mask_eq_exp_minus_1)
  with True show ?thesis by (simp add: exclusive_limit_def)
next
  case False
  then show ?thesis using unat_done_pred [OF False] by (cases "nr - 1 = 0") (simp_all add: exclusive_limit_def)
qed

lemma wake_up_common1_calls:
  assumes "wake_up_common1 mode fl key ws nr s = Some s'"
  shows "\<exists>us vs rs. ws = us @ vs \<and> wake_calls mode fl key us s = Some (rs, s') \<and> length rs = length us \<and>
    (woken us rs = exclusive_limit nr \<and> us \<noteq> [] \<and> last rs \<and> wq_exclusive (last us) \<or>
     vs = [] \<and> woken us rs < exclusive_limit nr)"
  using assms
proof (induction ws arbitrary: nr s)
  case Nil
  have "0 < exclusive_limit nr" by (simp add: exclusive_limit_def unat_gt_0)
  with Nil show ?case by simp
next
  case (Cons w ws)
  obtain r t where f: "wq_func w (wq_task w) mode fl key s = Some (r, t)"
    using Cons.prems by (auto split: option.splits)
  show ?case
  proof (cases "r \<and> wq_exclusive w \<and> nr - 1 = 0")
    case True
    then have "s' = t" "exclusive_limit nr = 1"
      using Cons.prems f exclusive_limit_pred [of nr] by simp_all
    with True f show ?thesis by (intro exI [of _ "[w]"] exI [of _ ws] exI [of _ "[True]"]) simp
  next
    case False
    define nr' where "nr' = (if r \<and> wq_exclusive w then nr - 1 else nr)"
    have "wake_up_common1 mode fl key ws nr' t = Some s'" using Cons.prems f False by (auto simp: nr'_def Let_def)
    from Cons.IH [OF this] obtain us vs rs where u: "ws = us @ vs" "wake_calls mode fl key us t = Some (rs, s')"
      "length rs = length us" "woken us rs = exclusive_limit nr' \<and> us \<noteq> [] \<and> last rs \<and> wq_exclusive (last us) \<or>
       vs = [] \<and> woken us rs < exclusive_limit nr'" by blast
    have "exclusive_limit nr = (if r \<and> wq_exclusive w then 1 else 0) + exclusive_limit nr'"
      using False exclusive_limit_pred [of nr] by (auto simp: nr'_def)
    with u f show ?thesis by (intro exI [of _ "w # us"] exI [of _ vs] exI [of _ "r # rs"]) auto
  qed
qed

section \<open>Completions and their users\<close>









lemma take_one_effect:
  "take_one t x = (r, x') \<Longrightarrow> x_done x' = x_done x - 1 \<and> x_wait x' = x_wait x \<and> r = (if t = Inr 0 then Inr 1 else t)"
  by (auto simp: take_one_def)

lemma wait_leave_effect:
  assumes "wait_leave p t x = (r, x')"
  shows "x_wait x' = remove_wait_queue1 p (x_wait x)"
    and "x_done x = 0 \<Longrightarrow> x_done x' = 0 \<and> r = t"
    and "x_done x \<noteq> 0 \<Longrightarrow> x_done x' = x_done x - 1 \<and> r = (if t = Inr 0 then Inr 1 else t)"
  using assms by (auto simp: wait_leave_def take_one_def Let_def split: if_splits)











section \<open>Properties\<close>

text \<open>
  C31. A wakeup with \<open>nr\<close> exclusive entries calls the wake functions of the queue in order.
  With \<open>nr = 0\<close> it calls all of them. Otherwise it stops exactly after the entry that is
  the \<open>nr\<close>-th exclusive one whose task was woken, and calls all entries if there are fewer; tasks
  that could not be woken do not count.
\<close>

theorem wake_up_common_order:
  assumes "wake_up_common1 mode fl key ws nr s = Some s'" "length ws < 2 ^ 32"
  shows "\<exists>us vs rs. ws = us @ vs \<and> wake_calls mode fl key us s = Some (rs, s') \<and> length rs = length us \<and>
    (nr \<noteq> 0 \<and> woken us rs = unat nr \<and> us \<noteq> [] \<and> last rs \<and> wq_exclusive (last us) \<or>
     vs = [] \<and> (nr = 0 \<or> woken us rs < unat nr))"
proof -
  obtain us vs rs where u: "ws = us @ vs" "wake_calls mode fl key us s = Some (rs, s')" "length rs = length us"
    "woken us rs = exclusive_limit nr \<and> us \<noteq> [] \<and> last rs \<and> wq_exclusive (last us) \<or>
     vs = [] \<and> woken us rs < exclusive_limit nr"
    using wake_up_common1_calls [OF assms(1)] by blast
  have "woken us rs < 2 ^ 32" using woken_le [of us rs] assms(2) u(1) by simp
  with u show ?thesis by (cases "nr = 0") (auto simp: exclusive_limit_def)
qed

definition ex_waiter :: "tid \<Rightarrow> bool \<Rightarrow> bool \<Rightarrow> nat list wait_queue_t" where
  "ex_waiter p excl wakes =
     \<lparr>wq_task = p, wq_exclusive = excl, wq_func = (\<lambda>p mode fl key log. Some (wakes, log @ [p]))\<rparr>"

theorem wake_up_common_order_witness:
  "\<exists>us vs rs. [ex_waiter 1 False True, ex_waiter 2 True False, ex_waiter 3 True True, ex_waiter 4 True True] = us @ vs \<and>
     wake_calls 3 0 0 us [] = Some (rs, [1, 2, 3])"
proof -
  let ?ws = "[ex_waiter 1 False True, ex_waiter 2 True False, ex_waiter 3 True True, ex_waiter 4 True True]"
  have "wake_up_common1 3 0 0 ?ws 1 [] = Some [1, 2, 3]" "length ?ws < 2 ^ 32"
    by (simp_all add: ex_waiter_def)
  from wake_up_common_order [OF this] show ?thesis by blast
qed



text \<open>
  C15. From the signal to the return of the wait. When the first waiter of a completion is a
  sleeping task of the weighted round-robin class, \<^verbatim>\<open>complete\<close> makes that task runnable, at the tail of
  the list of its class, and wakes no other. When the task runs again, whatever time is
  left, its wait succeeds, takes the signal and leaves the queue.
\<close>

theorem complete_wakes_first_waiter:
  fixes s :: "'a ksys_scheme" and x :: "'a ksys_scheme completion"
  assumes "ext_chain X" "wrr_inv env s" "sched_class (task s p) = wrr_sched_class"
    and "\<not> on_rq (task s p)" "p \<notin> set (queue (wrr_rq_of (rq s)))" "task_addr p" "t_state (task s p) AND TASK_NORMAL \<noteq> 0"
    and "x_wait x = \<lparr>wq_task = p, wq_exclusive = True, wq_func = default_wake_function (class_table env X)\<rparr> # ws"
    and "x_done x + 1 \<noteq> 0"
  shows "\<exists>s'. complete x s = Some (x\<lparr>x_done := x_done x + 1\<rparr>, s') \<and>
    queue (wrr_rq_of (rq s')) = queue (wrr_rq_of (rq s)) @ [p] \<and>
    on_rq (task s' p) \<and> t_state (task s' p) = TASK_RUNNING \<and> nr_running (rq s') = nr_running (rq s) + 1 \<and>
    (\<forall>t state. wait_resume env p state t (x\<lparr>x_done := x_done x + 1\<rparr>) s' =
       (Finished (Inr (if t = 0 then 1 else t)), x\<lparr>x_wait := remove_wait_queue1 p ws\<rparr>, s'))"
proof -
  obtain s' where s': "try_to_wake_up (class_table env X) p TASK_NORMAL 0 s = Some (True, s')"
    "queue (wrr_rq_of (rq s')) = queue (wrr_rq_of (rq s)) @ [p]" "on_rq (task s' p)" "t_state (task s' p) = TASK_RUNNING"
    "nr_running (rq s') = nr_running (rq s) + 1"
    by (rule try_to_wake_up_wrr_task [OF assms(1-7), of 0]) blast
  have "complete x s = Some (x\<lparr>x_done := x_done x + 1\<rparr>, s')"
    using assms(8) s'(1) by (simp add: complete_def default_wake_function_def)
  moreover have "wait_resume env p state t (x\<lparr>x_done := x_done x + 1\<rparr>) s' =
      (Finished (Inr (if t = 0 then 1 else t)), x\<lparr>x_wait := remove_wait_queue1 p ws\<rparr>, s')" for t state
    using assms(8,9)
    by (simp add: wait_resume_def wait_leave_def take_one_def remove_wait_queue1_def Let_def)
  ultimately show ?thesis using s' by blast
qed

theorem complete_wakes_first_waiter_witness:
  "\<exists>s'. complete \<lparr>x_done = 0, x_wait =
      [\<lparr>wq_task = 5, wq_exclusive = True, wq_func = default_wake_function (class_table ex_env ex_ext)\<rparr>]\<rparr> ex_core =
      Some (\<lparr>x_done = 1, x_wait =
      [\<lparr>wq_task = 5, wq_exclusive = True, wq_func = default_wake_function (class_table ex_env ex_ext)\<rparr>]\<rparr>, s') \<and>
     queue (wrr_rq_of (rq s')) = [3, 2, 5]"
proof -
  let ?w = "\<lparr>wq_task = 5, wq_exclusive = True, wq_func = default_wake_function (class_table ex_env ex_ext)\<rparr>"
  let ?x = "\<lparr>x_done = 0, x_wait = [?w]\<rparr>"
  have p: "sched_class (task ex_core 5) = wrr_sched_class" "\<not> on_rq (task ex_core 5)"
    "5 \<notin> set (queue (wrr_rq_of (rq ex_core)))" "task_addr 5" "t_state (task ex_core 5) AND TASK_NORMAL \<noteq> 0"
    by (simp_all add: ex_core_fields task_addr_def TASK_NORMAL_def TASK_INTERRUPTIBLE_def TASK_UNINTERRUPTIBLE_def)
  have x: "x_wait ?x = ?w # []" "x_done ?x + 1 \<noteq> 0" by simp_all
  show ?thesis
    using complete_wakes_first_waiter [OF ex_ext_chain ex_core_wrr_inv p x] by (auto simp: ex_core_fields)
qed

end
