(* ===== verification/Spec2Isabelle.thy ===== *)
theory Spec2Isabelle
  imports Wrr_Correct Load_Avg_Correct Romfs_Correct Task_Group_Correct Rt_Correct Sched_Core_Correct
    Mtest_Correct Watch_Correct Maptest Dispatch_Correct Wait_Queue_Correct
begin

text \<open>
  (Header is completed below.)
\<close>

end
